(* ===== verification/Ave_Prelude.thy ===== *)
theory Ave_Prelude
  imports Main "HOL-Library.Word"
begin

unbundle bit_operations_syntax

text \<open>
  Shared vocabulary of the development.

  \<^item> \<open>outcome\<close>: what a call of Rust code that returns a \<open>Result\<close> can do: return
    \<open>Ok\<close>, return \<open>Err\<close>, or panic (slice out of range, arithmetic overflow in a checked
    build). Guest code that crosses the WASM boundary uses the same type with \<open>Err\<close> for a trap.
  \<^item> machine integers: \<open>i32\<close> and \<open>u32\<close> values of the ABI are 32-bit words, read with
    \<open>sint\<close> and \<open>unat\<close>; \<open>usize\<close> and \<open>u64\<close> values of the host are natural
    numbers with the width (64 bits) written out in every operation that can leave it.
  \<^item> slices: \<open>index_range\<close> is \<open>&v[s..e]\<close>, \<open>copy_range\<close> is
    \<open>v[s..e].copy_from_slice(d)\<close>; both panic outside the bounds.
  \<^item> text: \<open>show_nat\<close> and \<open>show_int\<close> are the decimal \<open>Display\<close> of integers.
  \<^item> \<open>u32_to_le_bytes\<close>: four little-endian bytes of a \<open>u32\<close>.
\<close>

section \<open>Types\<close>

type_synonym byte = "8 word"
type_synonym u32 = "32 word"
type_synonym i32 = "32 word"

datatype ('a, 'e) outcome = Ok 'a | Err 'e | Panic

named_theorems outcome_simps \<open>rules that decompose a sequence of fallible calls\<close>
named_theorems width_simps \<open>values and bounds of the machine-integer conversions\<close>

section \<open>Sequencing of fallible calls\<close>

fun obind :: "('a, 'e) outcome \<Rightarrow> ('a \<Rightarrow> ('b, 'e) outcome) \<Rightarrow> ('b, 'e) outcome" where
  "obind (Ok x) f = f x"
| "obind (Err e) f = Err e"
| "obind Panic f = Panic"

fun map_err :: "('e \<Rightarrow> 'd) \<Rightarrow> ('a, 'e) outcome \<Rightarrow> ('a, 'd) outcome" where
  "map_err f (Ok x) = Ok x"
| "map_err f (Err e) = Err (f e)"
| "map_err f Panic = Panic"

fun ok_or :: "'a option \<Rightarrow> 'e \<Rightarrow> ('a, 'e) outcome" where
  "ok_or None e = Err e"
| "ok_or (Some x) e = Ok x"

section \<open>Integers\<close>

definition usize_max :: nat where
  "usize_max = 2 ^ 64 - 1"

definition checked_add :: "nat \<Rightarrow> nat \<Rightarrow> nat option" where
  "checked_add a b = (if a + b \<le> usize_max then Some (a + b) else None)"

definition saturating_add :: "nat \<Rightarrow> nat \<Rightarrow> nat" where
  "saturating_add a b = min (a + b) usize_max"

definition saturating_mul :: "nat \<Rightarrow> nat \<Rightarrow> nat" where
  "saturating_mul a b = min (a * b) usize_max"

definition wrapping_mul :: "nat \<Rightarrow> nat \<Rightarrow> nat" where
  "wrapping_mul a b = a * b mod 2 ^ 64"

definition clamp :: "nat \<Rightarrow> nat \<Rightarrow> nat \<Rightarrow> nat" where
  "clamp x lo hi = (if x < lo then lo else if x > hi then hi else x)"

text \<open>\<open>p as usize\<close> for an \<open>i32\<close>: sign extension to 64 bits.\<close>

definition i32_as_usize :: "i32 \<Rightarrow> nat" where
  "i32_as_usize p = unat (scast p :: 64 word)"

text \<open>\<open>n as u32\<close> for a \<open>usize\<close>: truncation.\<close>

definition usize_as_u32 :: "nat \<Rightarrow> u32" where
  "usize_as_u32 n = word_of_nat n"

definition i32_max :: nat where
  "i32_max = 2 ^ 31 - 1"

section \<open>Slices\<close>

definition index_range :: "'a list \<Rightarrow> nat \<Rightarrow> nat \<Rightarrow> ('a list, 'e) outcome" where
  "index_range xs s e =
     (if s \<le> e \<and> e \<le> length xs then Ok (take (e - s) (drop s xs)) else Panic)"

definition copy_range :: "'a list \<Rightarrow> nat \<Rightarrow> nat \<Rightarrow> 'a list \<Rightarrow> ('a list, 'e) outcome" where
  "copy_range xs s e ys =
     (if s \<le> e \<and> e \<le> length xs \<and> length ys = e - s
      then Ok (take s xs @ ys @ drop e xs) else Panic)"

text \<open>\<open>v.get(s..e)\<close> and \<open>v.get(i)\<close>: \<open>None\<close> instead of a panic.\<close>

definition get_range :: "'a list \<Rightarrow> nat \<Rightarrow> nat \<Rightarrow> 'a list option" where
  "get_range xs s e = (if s \<le> e \<and> e \<le> length xs then Some (take (e - s) (drop s xs)) else None)"

definition get_at :: "'a list \<Rightarrow> nat \<Rightarrow> 'a option" where
  "get_at xs i = (if i < length xs then Some (xs ! i) else None)"

section \<open>Decimal text and little-endian bytes\<close>

fun show_nat :: "nat \<Rightarrow> string" where
  "show_nat n =
     (if n < 10 then [char_of (48 + n)] else show_nat (n div 10) @ [char_of (48 + n mod 10)])"

declare show_nat.simps [simp del]

definition show_int :: "int \<Rightarrow> string" where
  "show_int k = (if k < 0 then ''-'' @ show_nat (nat (- k)) else show_nat (nat k))"

definition u32_to_le_bytes :: "u32 \<Rightarrow> byte list" where
  "u32_to_le_bytes w =
     [ucast w, ucast (drop_bit 8 w), ucast (drop_bit 16 w), ucast (drop_bit 24 w)]"

section \<open>Lemmas on outcomes\<close>

lemma obind_eq_Ok [outcome_simps]:
  "obind m f = Ok y \<longleftrightarrow> (\<exists>x. m = Ok x \<and> f x = Ok y)"
  by (cases m) auto

lemma obind_eq_Err [outcome_simps]:
  "obind m f = Err e \<longleftrightarrow> m = Err e \<or> (\<exists>x. m = Ok x \<and> f x = Err e)"
  by (cases m) auto

lemma obind_eq_Panic [outcome_simps]:
  "obind m f = Panic \<longleftrightarrow> m = Panic \<or> (\<exists>x. m = Ok x \<and> f x = Panic)"
  by (cases m) auto

lemma map_err_eq_Ok [outcome_simps]: "map_err f m = Ok x \<longleftrightarrow> m = Ok x"
  by (cases m) auto

lemma map_err_eq_Err [outcome_simps]: "map_err f m = Err d \<longleftrightarrow> (\<exists>e. m = Err e \<and> d = f e)"
  by (cases m) auto

lemma map_err_eq_Panic [outcome_simps]: "map_err f m = Panic \<longleftrightarrow> m = Panic"
  by (cases m) auto

lemma ok_or_eq_Ok [outcome_simps]: "ok_or q e = Ok x \<longleftrightarrow> q = Some x"
  by (cases q) auto

lemma ok_or_eq_Err [outcome_simps]: "ok_or q e = Err d \<longleftrightarrow> q = None \<and> d = e"
  by (cases q) auto

lemma ok_or_neq_Panic [outcome_simps]: "ok_or q e = Panic \<longleftrightarrow> False"
  by (cases q) auto

lemma obind_assoc: "obind (obind m f) g = obind m (\<lambda>x. obind (f x) g)"
  by (cases m) auto

section \<open>Lemmas on slices\<close>

lemma index_range_eq_Ok [outcome_simps]:
  "index_range xs s e = Ok ys \<longleftrightarrow> s \<le> e \<and> e \<le> length xs \<and> ys = take (e - s) (drop s xs)"
  by (auto simp: index_range_def)

lemma index_range_neq_Err [outcome_simps]: "index_range xs s e = Err d \<longleftrightarrow> False"
  by (simp add: index_range_def)

lemma index_range_eq_Panic [outcome_simps]:
  "index_range xs s e = Panic \<longleftrightarrow> \<not> (s \<le> e \<and> e \<le> length xs)"
  by (simp add: index_range_def)

lemma copy_range_eq_Ok [outcome_simps]:
  "copy_range xs s e ys = Ok zs \<longleftrightarrow>
     s \<le> e \<and> e \<le> length xs \<and> length ys = e - s \<and> zs = take s xs @ ys @ drop e xs"
  by (auto simp: copy_range_def)

lemma copy_range_neq_Err [outcome_simps]: "copy_range xs s e ys = Err d \<longleftrightarrow> False"
  by (simp add: copy_range_def)

lemma copy_range_eq_Panic [outcome_simps]:
  "copy_range xs s e ys = Panic \<longleftrightarrow> \<not> (s \<le> e \<and> e \<le> length xs \<and> length ys = e - s)"
  by (simp add: copy_range_def)

lemma get_range_eq_Some:
  "get_range xs s e = Some ys \<longleftrightarrow> s \<le> e \<and> e \<le> length xs \<and> ys = take (e - s) (drop s xs)"
  by (auto simp: get_range_def)

lemma get_at_eq_Some: "get_at xs i = Some x \<longleftrightarrow> i < length xs \<and> x = xs ! i"
  by (auto simp: get_at_def)

text \<open>A window of a list after an update of another window.\<close>

lemma window_after_splice_disjoint:
  assumes "s + length ys \<le> length xs" and "p + n \<le> s \<or> s + length ys \<le> p"
  shows "take n (drop p (take s xs @ ys @ drop (s + length ys) xs)) = take n (drop p xs)"
  by (rule nth_equalityI) (use assms in \<open>auto simp: nth_append\<close>)

lemma window_after_splice_inside:
  assumes "s + length ys \<le> length xs" and "p \<le> s" and "s + length ys \<le> p + n" and "p + n \<le> length xs"
  shows "take n (drop p (take s xs @ ys @ drop (s + length ys) xs)) =
         take (s - p) (take n (drop p xs)) @ ys @ drop (s - p + length ys) (take n (drop p xs))"
  by (rule nth_equalityI) (use assms in \<open>auto simp: nth_append add.commute\<close>)

lemma window_append: "p + n \<le> length xs \<Longrightarrow> take n (drop p (xs @ ys)) = take n (drop p xs)"
  by simp

section \<open>Lemmas on machine integers\<close>

lemma checked_add_eq_Some: "checked_add a b = Some c \<longleftrightarrow> a + b \<le> usize_max \<and> c = a + b"
  by (auto simp: checked_add_def)

lemma checked_add_eq_None: "checked_add a b = None \<longleftrightarrow> usize_max < a + b"
  by (auto simp: checked_add_def)

lemma clamp_bounds: "lo \<le> hi \<Longrightarrow> lo \<le> clamp x lo hi \<and> clamp x lo hi \<le> hi"
  by (simp add: clamp_def)

lemma clamp_mono: "lo \<le> hi \<Longrightarrow> x \<le> y \<Longrightarrow> clamp x lo hi \<le> clamp y lo hi"
  by (simp add: clamp_def)

lemma saturating_mul_mono: "a \<le> b \<Longrightarrow> saturating_mul a c \<le> saturating_mul b c"
  by (simp add: saturating_mul_def min_le_iff_disj mult_le_mono1 min.coboundedI1)

text \<open>A non-negative \<open>i32\<close> keeps its value when it is cast to \<open>usize\<close>.\<close>

lemma sint32_cases: "sint w = (if uint w < 2 ^ 31 then uint w else uint w - 2 ^ 32)" for w :: "32 word"
proof -
  have *: "sint w = (uint w + 2 ^ 31) mod 2 ^ 32 - 2 ^ 31"
    using int_word_sint [of "uint w", where ?'a = 32] by simp
  have b: "0 \<le> uint w" "uint w < 2 ^ 32"
    using unsigned_less [of w, where ?'a = int] by simp_all
  show ?thesis
  proof (cases "uint w < 2 ^ 31")
    case True
    then have "(uint w + 2 ^ 31) mod 2 ^ 32 = uint w + 2 ^ 31"
      using b by (intro mod_pos_pos_trivial) simp_all
    with * True show ?thesis by simp
  next
    case False
    have "(uint w + 2 ^ 31) mod 2 ^ 32 = (uint w + 2 ^ 31 - 2 ^ 32) mod 2 ^ 32"
      by (simp only: minus_mod_self2)
    also have "\<dots> = uint w + 2 ^ 31 - 2 ^ 32"
      using b False by (intro mod_pos_pos_trivial) simp_all
    finally show ?thesis using * False by simp
  qed
qed

lemma unat_lt_iff_uint: "unat w < 2 ^ 31 \<longleftrightarrow> uint w < 2 ^ 31" for w :: "32 word"
  using of_nat_less_iff [of "unat w" "2 ^ 31", where ?'a = int] by simp

lemma unat_lt_imp_sint: "unat w < 2 ^ 31 \<Longrightarrow> sint w = int (unat w)" for w :: "32 word"
  by (simp only: unat_lt_iff_uint sint32_cases if_True of_nat_unat)

lemma sint_nonneg_imp_lt: "0 \<le> sint w \<Longrightarrow> unat w < 2 ^ 31" for w :: "32 word"
  using unsigned_less [of w, where ?'a = int]
  by (simp only: unat_lt_iff_uint sint32_cases split: if_splits) simp

lemma sint_eq_unat_nonneg: "0 \<le> sint w \<Longrightarrow> sint w = int (unat w)" for w :: "32 word"
  using unat_lt_imp_sint sint_nonneg_imp_lt by blast

lemma i32_as_usize_nonneg [width_simps]: "0 \<le> sint p \<Longrightarrow> i32_as_usize p = unat p"
proof -
  assume nn: "0 \<le> sint p"
  have "(scast p :: 64 word) = word_of_int (sint p)"
    by simp
  also have "\<dots> = word_of_nat (unat p)"
    by (simp only: sint_eq_unat_nonneg [OF nn] of_int_of_nat_eq)
  finally have "i32_as_usize p = unat p mod 2 ^ 64"
    by (simp only: i32_as_usize_def unat_of_nat) simp
  then show ?thesis
    using unsigned_less [of p, where ?'a = nat] by simp
qed

lemma usize_as_u32_id [width_simps]: "n < 2 ^ 32 \<Longrightarrow> unat (usize_as_u32 n) = n"
  by (simp add: usize_as_u32_def unat_of_nat)

lemma sint_usize_as_u32 [width_simps]: "n < 2 ^ 31 \<Longrightarrow> sint (usize_as_u32 n) = int n"
  by (simp add: unat_lt_imp_sint usize_as_u32_id)

lemma i32_as_usize_of_usize [width_simps]: "n < 2 ^ 31 \<Longrightarrow> i32_as_usize (usize_as_u32 n) = n"
  by (simp add: i32_as_usize_nonneg sint_usize_as_u32 usize_as_u32_id)

lemma length_u32_to_le_bytes [simp]: "length (u32_to_le_bytes w) = 4"
  by (simp add: u32_to_le_bytes_def)

section \<open>Bits of bytes and words\<close>

lemma byte_low7: "unat (b AND 0x7F) = unat b mod 128" for b :: "byte"
proof -
  have "b AND 0x7F = take_bit 7 b"
    by (simp add: take_bit_eq_mask mask_eq_exp_minus_1)
  then show ?thesis
    by (simp add: take_bit_eq_mod unat_mod_distrib)
qed

lemma byte_high_clear: "b AND 0x80 = 0 \<longleftrightarrow> unat b < 128" for b :: "byte"
proof -
  have "b AND 0x80 = 0 \<longleftrightarrow> \<not> bit b 7"
    using and_exp_eq_0_iff_not_bit [of b 7] by simp
  also have "bit b 7 \<longleftrightarrow> bit (unat b) 7"
    by (simp add: bit_unsigned_iff)
  also have "\<dots> \<longleftrightarrow> odd (unat b div 128)"
    by (simp add: bit_iff_odd)
  also have "\<not> odd (unat b div 128) \<longleftrightarrow> unat b < 128"
    using unsigned_less [of b, where ?'a = nat]
    by (cases "unat b < 128") (auto simp: div_if)
  finally show ?thesis by simp
qed

lemma or_push_bit_nat: "r < 2 ^ k \<Longrightarrow> r OR push_bit k d = r + d * 2 ^ k" for r d :: nat
proof -
  assume "r < 2 ^ k"
  then have "take_bit k r = r" by (simp add: take_bit_nat_eq_self)
  then have r: "bit r n \<Longrightarrow> n < k" for n
    by (metis bit_take_bit_iff)
  have "r AND push_bit k d = 0"
    by (rule bit_eqI) (auto simp: bit_and_iff bit_push_bit_iff dest: r)
  then have "r + push_bit k d = r OR push_bit k d"
    by (simp add: disjunctive_add_eq_or)
  then show ?thesis by (simp add: push_bit_eq_mult)
qed

lemma or_push_bit_word:
  "r < 2 ^ k \<Longrightarrow> (word_of_nat r :: u32) OR push_bit k (word_of_nat d) = word_of_nat (r + d * 2 ^ k)"
  by (simp only: push_bit_of_nat of_nat_or_eq [symmetric] or_push_bit_nat)


lemma get_at_drop: "drop pos bytes = b # rest \<Longrightarrow> get_at bytes pos = Some b \<and> drop (Suc pos) bytes = rest"
  by (metis drop_eq_Nil get_at_def list.distinct(1) list.sel(1,3) not_le hd_drop_conv_nth drop_Suc tl_drop)

end
