(* ===== verification/Ave_Errors.thy ===== *)
theory Ave_Errors
  imports Ave_Prelude
begin

text \<open>
  The error enums of the two halves of the crate and their \<open>Display\<close> texts:
  \<open>error\<close> is \<open>src/error.rs\<close> (guest side), \<open>contract_error\<close>, \<open>runtime_error\<close> and
  \<open>invalid_module_kind\<close> are \<open>src/runtime/error.rs\<close> (host side). The texts matter: they
  are what the host finds in \<open>ContractResultData.error\<close> and what nodes compare as verdicts.
  The lemmas at the end show that the decimal rendering of numbers is injective.
\<close>

section \<open>Guest errors (src/error.rs)\<close>

datatype error =
    Serialization string
  | Deserialization string
  | MemoryLimitExceeded nat nat   \<comment> \<open>requested, max\<close>
  | HostAllocationFailed nat      \<comment> \<open>requested\<close>
  | IntegerOverflow string

fun error_display :: "error \<Rightarrow> string" where
  "error_display (Serialization m) = ''Serialization error: '' @ m"
| "error_display (Deserialization m) = ''Deserialization error: '' @ m"
| "error_display (MemoryLimitExceeded requested mx) =
     ''Memory limit exceeded: requested '' @ show_nat requested
       @ '' bytes, maximum allowed is '' @ show_nat mx @ '' bytes''"
| "error_display (HostAllocationFailed requested) =
     ''Host allocation failed: could not allocate '' @ show_nat requested @ '' bytes''"
| "error_display (IntegerOverflow m) = ''Integer overflow: '' @ m"

section \<open>Host errors (src/runtime/error.rs)\<close>

datatype contract_error =
    MemoryAllocationFailed string
  | InvalidPointer nat
  | WriteOutOfBounds nat nat      \<comment> \<open>offset, size\<close>
  | InvalidLength i32
  | AllocationTooLarge nat nat    \<comment> \<open>size, max\<close>
  | TotalMemoryExceeded nat nat   \<comment> \<open>total, max\<close>
  | AllocationOverflow
  | LinkerError string string     \<comment> \<open>function, details\<close>

fun contract_error_display :: "contract_error \<Rightarrow> string" where
  "contract_error_display (MemoryAllocationFailed details) =
     ''memory allocation failed: '' @ details"
| "contract_error_display (InvalidPointer pointer) = ''invalid pointer: '' @ show_nat pointer"
| "contract_error_display (WriteOutOfBounds offset size') =
     ''write out of bounds: offset '' @ show_nat offset @ '' >= allocation size '' @ show_nat size'"
| "contract_error_display (InvalidLength len) = ''invalid length: '' @ show_int (sint len)"
| "contract_error_display (AllocationTooLarge size' mx) =
     ''allocation size '' @ show_nat size' @ '' exceeds maximum of '' @ show_nat mx @ '' bytes''"
| "contract_error_display (TotalMemoryExceeded total' mx) =
     ''total memory '' @ show_nat total' @ '' exceeds maximum of '' @ show_nat mx @ '' bytes''"
| "contract_error_display AllocationOverflow = ''memory allocation would overflow''"
| "contract_error_display (LinkerError func details) =
     ''linker error ['' @ func @ '']: '' @ details"

datatype invalid_module_kind =
    UnknownImportFunction string
  | NonFunctionImport string
  | MissingImports "string list"
  | UnexpectedImportModule string string   \<comment> \<open>module, name\<close>
  | InvalidImportSignature string string   \<comment> \<open>name, expected\<close>
  | ExcessiveMemory nat nat                \<comment> \<open>min_bytes, max_bytes\<close>

text \<open>\<open>missing.join(", ")\<close>\<close>

fun join :: "string \<Rightarrow> string list \<Rightarrow> string" where
  "join sep [] = []"
| "join sep [x] = x"
| "join sep (x # y # ys) = x @ sep @ join sep (y # ys)"

text \<open>The quote character of the messages, which a string literal cannot spell.\<close>

definition quoted :: "string \<Rightarrow> string" where
  "quoted s = [CHR 0x27] @ s @ [CHR 0x27]"

fun invalid_module_kind_display :: "invalid_module_kind \<Rightarrow> string" where
  "invalid_module_kind_display (UnknownImportFunction name) =
     ''module has function '' @ quoted name @ '' that is not contemplated in the SDK''"
| "invalid_module_kind_display (NonFunctionImport import_type) =
     ''module has a '' @ quoted import_type @ '' import that is not a function''"
| "invalid_module_kind_display (MissingImports missing) =
     ''module is missing SDK imports: '' @ join '', '' missing"
| "invalid_module_kind_display (UnexpectedImportModule module name) =
     ''module imports '' @ quoted name @ '' from '' @ quoted module
       @ '', expected module '' @ quoted ''env''"
| "invalid_module_kind_display (InvalidImportSignature name expected) =
     ''module imports '' @ quoted name @ '' with an invalid signature, expected '' @ expected"
| "invalid_module_kind_display (ExcessiveMemory min_bytes max_bytes) =
     ''module requires '' @ show_nat min_bytes @ '' minimum memory bytes, above the ''
       @ show_nat max_bytes @ '' instantiable on any node''"

datatype runtime_error =
    EngineCreation string
  | PrecompileFailed string
  | DeserializationFailed string
  | InvalidModule invalid_module_kind
  | EntryPointNotFound string
  | ContractExecutionFailed string
  | OutOfFuel nat                          \<comment> \<open>consumed\<close>
  | FuelLimitError string
  | InstantiationFailed string
  | RtMemoryAllocationFailed string
  | SerializationError string string       \<comment> \<open>context, details\<close>

fun runtime_error_display :: "runtime_error \<Rightarrow> string" where
  "runtime_error_display (EngineCreation m) = ''engine creation failed: '' @ m"
| "runtime_error_display (PrecompileFailed m) = ''wasm precompile failed: '' @ m"
| "runtime_error_display (DeserializationFailed m) = ''wasm deserialization failed: '' @ m"
| "runtime_error_display (InvalidModule k) = ''invalid module: '' @ invalid_module_kind_display k"
| "runtime_error_display (EntryPointNotFound func) = ''entry point not found: '' @ func"
| "runtime_error_display (ContractExecutionFailed m) = ''contract execution failed: '' @ m"
| "runtime_error_display (OutOfFuel consumed) =
     ''contract ran out of fuel after consuming '' @ show_nat consumed @ '' units''"
| "runtime_error_display (FuelLimitError m) = ''fuel limit error: '' @ m"
| "runtime_error_display (InstantiationFailed m) = ''instantiation failed: '' @ m"
| "runtime_error_display (RtMemoryAllocationFailed m) = ''memory allocation failed: '' @ m"
| "runtime_error_display (SerializationError ctx details) =
     ''serialization error ['' @ ctx @ '']: '' @ details"

section \<open>Numbers in messages\<close>

definition read_nat :: "string \<Rightarrow> nat" where
  "read_nat s = foldl (\<lambda>a c. 10 * a + (of_char c - 48)) 0 s"

lemma of_char_digit: "d < 10 \<Longrightarrow> (of_char (char_of (48 + d) :: char) :: nat) = 48 + d"
  by (simp add: of_char_of)

lemma read_show_nat: "read_nat (show_nat n) = n"
proof (induction n rule: show_nat.induct)
  case (1 n)
  show ?case
  proof (cases "n < 10")
    case True
    then show ?thesis
      by (simp add: show_nat.simps [of n] read_nat_def of_char_digit del: of_char_of)
  next
    case False
    with 1 have "read_nat (show_nat (n div 10)) = n div 10" by simp
    moreover have "n mod 10 < 10" by simp
    ultimately show ?thesis
      using False by (simp add: show_nat.simps [of n] read_nat_def of_char_digit del: of_char_of)
  qed
qed

lemma show_nat_inject [simp]: "show_nat m = show_nat n \<longleftrightarrow> m = n"
  by (metis read_show_nat)

end
