(* ===== verification/Ave_Config.thy ===== *)
theory Ave_Config
  imports Ave_Errors
begin

unbundle bit_operations_syntax

text \<open>
  \<open>src/runtime/config.rs\<close>: the resource limits derived from a machine
  (\<open>WasmLimits::build\<close>), the engine configuration, and the reader that finds the largest
  declared minimum memory of a WASM binary before it is compiled.

  The limits are natural numbers; the multiplication in \<open>max_table_elements\<close> wraps at 64
  bits, as the release profile compiles it. The LEB128 reader works on 32-bit words, so bits
  shifted out of the top are lost as they are in the code. The section scan is a recursive
  function that terminates because every section takes at least two bytes.

  Reference definitions (\<open>uleb_encode\<close>, \<open>encode_module\<close>) give the binary format the
  reader is meant for; the theorems relate the reader to them.
\<close>

section \<open>Limits\<close>

record resolved_machine_spec =
  ram_mb :: nat
  cpu_cores :: nat

record wasm_limits =
  wl_max_wasm_stack :: nat
  wl_memory_size :: nat
  wl_max_single_alloc :: nat
  wl_max_total_memory :: nat
  wl_max_table_elements :: nat
  wl_aggressive_compilation :: bool

definition MAX_MEMORY_BYTES :: nat where
  "MAX_MEMORY_BYTES = 32 * 1024 * 1024"

definition MIN_FLEET_MEMORY_BYTES :: nat where
  "MIN_FLEET_MEMORY_BYTES = 4 * 1024 * 1024"

definition WASM_PAGE_BYTES :: nat where
  "WASM_PAGE_BYTES = 65536"

definition MAX_FUEL :: nat where
  "MAX_FUEL = 10000000"

definition MAX_FUEL_COMPILATION :: nat where
  "MAX_FUEL_COMPILATION = 50000000"

text \<open>\<open>usize::try_from\<close> of a \<open>u64\<close>.\<close>

definition usize_try_from :: "nat \<Rightarrow> nat option" where
  "usize_try_from n = (if n \<le> usize_max then Some n else None)"

definition unwrap_or :: "'a option \<Rightarrow> 'a \<Rightarrow> 'a" where
  "unwrap_or q d = (case q of None \<Rightarrow> d | Some x \<Rightarrow> x)"

definition build :: "nat \<Rightarrow> nat \<Rightarrow> wasm_limits" where
  "build ram cores =
     (let memory_size =
            unwrap_or (usize_try_from
              (clamp (saturating_mul (ram div 512) (4 * 1024 * 1024))
                 MIN_FLEET_MEMORY_BYTES MAX_MEMORY_BYTES)) usize_max;
          max_total_memory =
            unwrap_or (usize_try_from
              (clamp (saturating_mul (ram div 512) (3 * 1024 * 1024))
                 (3 * 1024 * 1024) (24 * 1024 * 1024))) usize_max;
          max_single_alloc = clamp (max_total_memory div 3) (1024 * 1024) (8 * 1024 * 1024);
          max_table_elements = min (wrapping_mul 256 (max cores 2)) 2048
      in \<lparr>wl_max_wasm_stack = 1024 * 1024,
          wl_memory_size = memory_size,
          wl_max_single_alloc = max_single_alloc,
          wl_max_total_memory = max_total_memory,
          wl_max_table_elements = max_table_elements,
          wl_aggressive_compilation = False\<rparr>)"

definition default_limits :: wasm_limits where
  "default_limits = build 4096 2"

section \<open>Engine configuration\<close>

text \<open>The settings \<open>create_secure_wasmtime_config\<close> makes; the others keep wasmtime's default.\<close>

datatype opt_level = OptNone | Speed | SpeedAndSize

record engine_config =
  consume_fuel :: bool
  max_wasm_stack :: nat
  cranelift_opt_level :: opt_level
  cranelift_nan_canonicalization :: bool

definition create_secure_wasmtime_config :: "wasm_limits \<Rightarrow> engine_config" where
  "create_secure_wasmtime_config limits =
     \<lparr>consume_fuel = True,
      max_wasm_stack = wl_max_wasm_stack limits,
      cranelift_opt_level = Speed,
      cranelift_nan_canonicalization = True\<rparr>"

section \<open>The declared minimum memory of a module\<close>

fun read_uleb_loop :: "byte list \<Rightarrow> nat \<Rightarrow> nat list \<Rightarrow> u32 \<Rightarrow> (u32 \<times> nat) option" where
  "read_uleb_loop bytes pos [] result = None"
| "read_uleb_loop bytes pos (shift # shifts) result =
     (case get_at bytes pos of
        None \<Rightarrow> None
      | Some b \<Rightarrow>
          (let pos' = pos + 1;
               result' = result OR push_bit shift (ucast (b AND 0x7F))
           in if b AND 0x80 = 0 then Some (result', pos')
              else read_uleb_loop bytes pos' shifts result'))"

definition read_uleb :: "byte list \<Rightarrow> nat \<Rightarrow> (u32 \<times> nat) option" where
  "read_uleb bytes pos = read_uleb_loop bytes pos [0, 7, 14, 21, 28] 0"

text \<open>The entries of a memory section: flags, minimum, optional maximum.\<close>

fun read_memories :: "byte list \<Rightarrow> nat \<Rightarrow> nat \<Rightarrow> nat \<Rightarrow> nat option" where
  "read_memories body 0 inner max_pages = Some max_pages"
| "read_memories body (Suc count) inner max_pages =
     (case read_uleb body inner of
        None \<Rightarrow> None
      | Some (flags, inner1) \<Rightarrow>
          (case read_uleb body inner1 of
             None \<Rightarrow> None
           | Some (mn, inner2) \<Rightarrow>
               if flags AND 1 \<noteq> 0
               then (case read_uleb body inner2 of
                       None \<Rightarrow> None
                     | Some (_, inner3) \<Rightarrow>
                         read_memories body count inner3 (max max_pages (unat mn)))
               else read_memories body count inner2 (max max_pages (unat mn))))"

definition read_memory_section :: "byte list \<Rightarrow> nat \<Rightarrow> nat option" where
  "read_memory_section body max_pages =
     (case read_uleb body 0 of
        None \<Rightarrow> None
      | Some (count, inner) \<Rightarrow> read_memories body (unat count) inner max_pages)"

text \<open>The section loop ends because every section takes at least two bytes.\<close>

lemma read_uleb_loop_advances:
  "read_uleb_loop bytes pos shifts r = Some (v, pos') \<Longrightarrow> pos < pos' \<and> pos' \<le> length bytes"
proof (induction shifts arbitrary: pos r)
  case Nil
  then show ?case by simp
next
  case (Cons shift shifts)
  then show ?case
    by (fastforce simp: Let_def get_at_def split: if_splits)
qed

lemma read_uleb_advances: "read_uleb bytes pos = Some (v, pos') \<Longrightarrow> pos < pos' \<and> pos' \<le> length bytes"
  unfolding read_uleb_def by (rule read_uleb_loop_advances)

function scan_sections :: "byte list \<Rightarrow> nat \<Rightarrow> nat \<Rightarrow> nat option" where
  "scan_sections wasm pos max_pages =
     (if pos < length wasm then
        (case get_at wasm pos of
           None \<Rightarrow> None
         | Some section_id \<Rightarrow>
             (case read_uleb wasm (pos + 1) of
                None \<Rightarrow> None
              | Some (section_len, pos1) \<Rightarrow>
                  (case checked_add pos1 (unat section_len) of
                     None \<Rightarrow> None
                   | Some body_end \<Rightarrow>
                       (case get_range wasm pos1 body_end of
                          None \<Rightarrow> None
                        | Some body \<Rightarrow>
                            (case (if section_id = 5 then read_memory_section body max_pages
                                   else Some max_pages) of
                               None \<Rightarrow> None
                             | Some max_pages' \<Rightarrow>
                                 scan_sections wasm (pos1 + unat section_len) max_pages')))))
      else Some max_pages)"
  by pat_completeness auto
termination
  by (relation "measure (\<lambda>(wasm, pos, _). length wasm - pos)")
    (auto dest!: read_uleb_advances)

declare scan_sections.simps [simp del]

definition MAGIC :: "byte list" where
  "MAGIC = [0x00, 0x61, 0x73, 0x6D]"

definition declared_min_memory_bytes :: "byte list \<Rightarrow> nat option" where
  "declared_min_memory_bytes wasm =
     (case get_range wasm 0 8 of
        None \<Rightarrow> None
      | Some cursor \<Rightarrow>
          if take 4 cursor \<noteq> MAGIC \<or> drop 4 cursor \<noteq> [1, 0, 0, 0] then None
          else (case scan_sections wasm 8 0 of
                  None \<Rightarrow> None
                | Some max_pages \<Rightarrow> Some (saturating_mul max_pages WASM_PAGE_BYTES)))"

section \<open>The binary format, as a reference\<close>

fun uleb_encode :: "nat \<Rightarrow> byte list" where
  "uleb_encode n =
     (if n < 128 then [word_of_nat n]
      else word_of_nat (128 + n mod 128) # uleb_encode (n div 128))"

declare uleb_encode.simps [simp del]

text \<open>A memory entry is its minimum and optional maximum; the flag bit 0 announces the maximum.\<close>

datatype wasm_section = Memory_Section "(nat \<times> nat option) list" | Other_Section byte "byte list"

fun encode_memory :: "nat \<times> nat option \<Rightarrow> byte list" where
  "encode_memory (mn, None) = uleb_encode 0 @ uleb_encode mn"
| "encode_memory (mn, Some mx) = uleb_encode 1 @ uleb_encode mn @ uleb_encode mx"

fun section_body :: "wasm_section \<Rightarrow> byte list" where
  "section_body (Memory_Section ms) = uleb_encode (length ms) @ concat (map encode_memory ms)"
| "section_body (Other_Section i body) = body"

fun section_id :: "wasm_section \<Rightarrow> byte" where
  "section_id (Memory_Section ms) = 5"
| "section_id (Other_Section i body) = i"

definition encode_section :: "wasm_section \<Rightarrow> byte list" where
  "encode_section s = section_id s # uleb_encode (length (section_body s)) @ section_body s"

definition encode_module :: "wasm_section list \<Rightarrow> byte list" where
  "encode_module ss = MAGIC @ [1, 0, 0, 0] @ concat (map encode_section ss)"

fun wf_section :: "wasm_section \<Rightarrow> bool" where
  "wf_section (Memory_Section ms) \<longleftrightarrow>
     length (section_body (Memory_Section ms)) < 2 ^ 32 \<and> length ms < 2 ^ 32 \<and>
     (\<forall>(mn, mx) \<in> set ms. mn < 2 ^ 32 \<and> (case mx of None \<Rightarrow> True | Some m \<Rightarrow> m < 2 ^ 32))"
| "wf_section (Other_Section i body) \<longleftrightarrow> i \<noteq> 5 \<and> length body < 2 ^ 32"

fun section_pages :: "wasm_section \<Rightarrow> nat" where
  "section_pages (Memory_Section ms) = foldl max 0 (map fst ms)"
| "section_pages (Other_Section i body) = 0"

definition module_pages :: "wasm_section list \<Rightarrow> nat" where
  "module_pages ss = foldl max 0 (map section_pages ss)"

section \<open>Limits: closed form and consequences\<close>

text \<open>The number of 512 MiB steps of the machine, between one and eight.\<close>

definition ram_steps :: "nat \<Rightarrow> nat" where
  "ram_steps ram = clamp (ram div 512) 1 8"

lemma ram_steps_bounds: "1 \<le> ram_steps ram \<and> ram_steps ram \<le> 8"
  by (simp add: ram_steps_def clamp_bounds)

lemma clamp_saturating_mul:
  assumes "0 < c" and "8 * c \<le> usize_max"
  shows "clamp (saturating_mul k c) c (8 * c) = c * clamp k 1 8"
proof -
  consider "k = 0" | "1 \<le> k" "k \<le> 8" | "8 < k" by linarith
  then show ?thesis
  proof cases
    case 2
    then have "k * c \<le> 8 * c" "\<not> k * c < c" by simp_all
    then have "saturating_mul k c = k * c"
      using assms(2) unfolding saturating_mul_def by linarith
    then show ?thesis
      using \<open>\<not> k * c < c\<close> \<open>k * c \<le> 8 * c\<close> 2 by (simp add: clamp_def mult.commute)
  next
    case 3
    then have "8 * c < k * c" using assms(1) by simp
    then have "8 * c \<le> saturating_mul k c"
      using assms(2) unfolding saturating_mul_def by linarith
    then show ?thesis
      using assms(1) 3 by (simp add: clamp_def)
  qed (use assms in \<open>auto simp: clamp_def saturating_mul_def\<close>)
qed

lemma build_memory_size: "wl_memory_size (build ram cores) = 4194304 * ram_steps ram"
  using clamp_saturating_mul [of 4194304 "ram div 512"] ram_steps_bounds [of ram]
  by (simp add: build_def Let_def MIN_FLEET_MEMORY_BYTES_def MAX_MEMORY_BYTES_def unwrap_or_def
      usize_try_from_def usize_max_def ram_steps_def)

lemma build_max_total_memory: "wl_max_total_memory (build ram cores) = 3145728 * ram_steps ram"
  using clamp_saturating_mul [of 3145728 "ram div 512"] ram_steps_bounds [of ram]
  by (simp add: build_def Let_def unwrap_or_def usize_try_from_def usize_max_def ram_steps_def)

lemma build_max_single_alloc: "wl_max_single_alloc (build ram cores) = 1048576 * ram_steps ram"
proof -
  have "wl_max_single_alloc (build ram cores) =
        clamp (wl_max_total_memory (build ram cores) div 3) 1048576 8388608"
    by (simp add: build_def Let_def)
  then show ?thesis
    using ram_steps_bounds [of ram] by (simp add: build_max_total_memory clamp_def)
qed

lemma build_max_wasm_stack: "wl_max_wasm_stack (build ram cores) = 1048576"
  by (simp add: build_def Let_def)

lemmas build_fields = build_memory_size build_max_total_memory build_max_single_alloc
  build_max_wasm_stack

lemma build_max_table_elements:
  "cores < 2 ^ 56 \<Longrightarrow> wl_max_table_elements (build ram cores) = min (256 * max cores 2) 2048"
  by (simp add: build_def Let_def wrapping_mul_def max_def)

section \<open>The reader against the binary format\<close>

lemma uleb_payload: "(ucast (b AND 0x7F) :: u32) = word_of_nat (unat b mod 128)" for b :: byte
  by (simp only: byte_low7 [symmetric] of_nat_unat)

lemma unat_uleb_byte: "m < 256 \<Longrightarrow> unat (word_of_nat m :: byte) = m"
  by (simp add: unat_of_nat)

lemma read_uleb_step:
  assumes "get_at bytes pos = Some b" and "r < 2 ^ s"
  shows "read_uleb_loop bytes pos (s # shifts) (word_of_nat r) =
    (if unat b < 128 then Some (word_of_nat (r + unat b * 2 ^ s), pos + 1)
     else read_uleb_loop bytes (pos + 1) shifts (word_of_nat (r + (unat b mod 128) * 2 ^ s)))"
  using assms by (simp add: Let_def uleb_payload or_push_bit_word byte_high_clear)

text \<open>Taking one base-128 digit off a number keeps the accumulated value and its bounds.\<close>

lemma pow7_Suc: "(2::nat) ^ (7 * Suc i) = 128 * 2 ^ (7 * i)"
  by (simp add: power_add)

lemma uleb_digit_bound:
  fixes n r i :: nat
  assumes "r < 2 ^ (7 * i)"
  shows "r + (n mod 128) * 2 ^ (7 * i) < 2 ^ (7 * Suc i)"
proof -
  have "n mod 128 \<le> 127" by simp
  then have "(n mod 128) * 2 ^ (7 * i) \<le> 127 * 2 ^ (7 * i)"
    by (rule mult_le_mono1)
  with assms show ?thesis unfolding pow7_Suc by linarith
qed

lemma uleb_digit_value:
  "r + (n mod 128) * 2 ^ (7 * i) + (n div 128) * 2 ^ (7 * Suc i) = r + n * 2 ^ (7 * i)"
  for n r i :: nat
proof -
  have "r + (n mod 128) * 2 ^ (7 * i) + (n div 128) * 2 ^ (7 * Suc i) =
        r + (n mod 128 + n div 128 * 128) * 2 ^ (7 * i)"
    by (simp only: pow7_Suc distrib_right mult.assoc add.assoc)
  then show ?thesis by (simp only: mod_div_mult_eq)
qed

lemma uleb_digit_room:
  fixes n i :: nat
  assumes "128 \<le> n" and "n < 2 ^ (35 - 7 * i)"
  shows "Suc i < 5 \<and> n div 128 < 2 ^ (35 - 7 * Suc i)"
proof -
  have "2 ^ 7 < (2::nat) ^ (35 - 7 * i)"
    using assms by simp
  then have "7 < 35 - 7 * i"
    by (rule power_less_imp_less_exp [rotated]) simp
  then have i: "Suc i < 5" and split: "35 - 7 * i = 7 + (35 - 7 * Suc i)"
    by simp_all
  show ?thesis
    using assms(2) i unfolding split power_add by (simp add: less_mult_imp_div_less mult.commute)
qed

lemma read_uleb_loop_encode:
  "i < 5 \<Longrightarrow> r < 2 ^ (7 * i) \<Longrightarrow> n < 2 ^ (35 - 7 * i) \<Longrightarrow> drop pos bytes = uleb_encode n @ post \<Longrightarrow>
   read_uleb_loop bytes pos (map ((*) 7) [i..<5]) (word_of_nat r) =
     Some (word_of_nat (r + n * 2 ^ (7 * i)), pos + length (uleb_encode n))"
proof (induction n arbitrary: i r pos rule: uleb_encode.induct)
  case (1 n)
  have shifts: "map ((*) 7) [i..<5] = 7 * i # map ((*) 7) [Suc i..<5]"
    using "1.prems"(1) by (simp add: upt_rec)
  show ?case
  proof (cases "n < 128")
    case True
    with "1.prems"(4) have "get_at bytes pos = Some (word_of_nat n)"
      by (simp add: uleb_encode.simps [of n] get_at_drop)
    from read_uleb_step [OF this "1.prems"(2)] True show ?thesis
      by (simp add: shifts unat_uleb_byte uleb_encode.simps [of n])
  next
    case False
    let ?b = "word_of_nat (128 + n mod 128) :: byte"
    have b: "unat ?b = 128 + n mod 128"
      by (rule unat_uleb_byte) simp
    have "drop pos bytes = ?b # uleb_encode (n div 128) @ post"
      using "1.prems"(4) False by (simp add: uleb_encode.simps [of n])
    from get_at_drop [OF this]
    have pos: "get_at bytes pos = Some ?b" "drop (Suc pos) bytes = uleb_encode (n div 128) @ post"
      by blast+
    from uleb_digit_room [OF _ "1.prems"(3)] False
    have i: "Suc i < 5" "n div 128 < 2 ^ (35 - 7 * Suc i)" by simp_all
    have "read_uleb_loop bytes (pos + 1) (map ((*) 7) [Suc i..<5])
            (word_of_nat (r + (n mod 128) * 2 ^ (7 * i))) =
          Some (word_of_nat (r + n * 2 ^ (7 * i)), pos + length (uleb_encode n))"
      using "1.IH" [OF False i(1) uleb_digit_bound [OF "1.prems"(2), of n] i(2) pos(2)]
      unfolding uleb_digit_value using False by (simp add: uleb_encode.simps [of n])
    then show ?thesis
      using read_uleb_step [OF pos(1) "1.prems"(2), of "map ((*) 7) [Suc i..<5]"]
      unfolding b shifts by (simp del: read_uleb_loop.simps of_nat_add)
  qed
qed

lemma read_uleb_encode:
  assumes "n < 2 ^ 35" and "drop pos bytes = uleb_encode n @ post"
  shows "read_uleb bytes pos = Some (word_of_nat n, pos + length (uleb_encode n))"
proof -
  have "[0, 7, 14, 21, 28] = map ((*) 7) [0..<5::nat]" by (simp add: upt_rec)
  with read_uleb_loop_encode [of 0 0 n pos bytes post] assms show ?thesis
    by (simp add: read_uleb_def)
qed

lemma uleb_digit_no_room:
  fixes n i :: nat
  assumes "i < 5" and "2 ^ (35 - 7 * i) \<le> n"
  shows "128 \<le> n \<and> 2 ^ (35 - 7 * Suc i) \<le> n div 128"
proof -
  from assms(1) have split: "35 - 7 * i = 7 + (35 - 7 * Suc i)" by simp
  have *: "128 * 2 ^ (35 - 7 * Suc i) \<le> n"
    using assms(2) unfolding split power_add by simp
  moreover have "(1::nat) \<le> 2 ^ (35 - 7 * Suc i)" by simp
  ultimately have "128 \<le> n" by linarith
  with * show ?thesis by (simp add: less_eq_div_iff_mult_less_eq mult.commute)
qed

lemma read_uleb_loop_too_long:
  "i \<le> 5 \<Longrightarrow> r < 2 ^ (7 * i) \<Longrightarrow> 2 ^ (35 - 7 * i) \<le> n \<Longrightarrow> drop pos bytes = uleb_encode n @ post \<Longrightarrow>
   read_uleb_loop bytes pos (map ((*) 7) [i..<5]) (word_of_nat r) = None"
proof (induction n arbitrary: i r pos rule: uleb_encode.induct)
  case (1 n)
  show ?case
  proof (cases "i = 5")
    case False
    with "1.prems"(1) have i: "i < 5" by simp
    from uleb_digit_no_room [OF i "1.prems"(3)] have n: "\<not> n < 128" "2 ^ (35 - 7 * Suc i) \<le> n div 128"
      by simp_all
    let ?b = "word_of_nat (128 + n mod 128) :: byte"
    have b: "unat ?b = 128 + n mod 128"
      by (rule unat_uleb_byte) simp
    have "drop pos bytes = ?b # uleb_encode (n div 128) @ post"
      using "1.prems"(4) n(1) by (simp add: uleb_encode.simps [of n])
    note hd = get_at_drop [OF this]
    have "read_uleb_loop bytes (Suc pos) (map ((*) 7) [Suc i..<5])
            (word_of_nat (r + (n mod 128) * 2 ^ (7 * i))) = None"
      using "1.IH" [OF n(1) _ uleb_digit_bound [OF "1.prems"(2)] n(2) conjunct2 [OF hd]] i by simp
    then show ?thesis
      using read_uleb_step [OF conjunct1 [OF hd] "1.prems"(2), of "map ((*) 7) [Suc i..<5]"] b i
      by (simp add: upt_rec [of i] del: read_uleb_loop.simps of_nat_add)
  qed simp
qed

lemma read_uleb_too_long:
  assumes "2 ^ 35 \<le> n" and "drop pos bytes = uleb_encode n @ post"
  shows "read_uleb bytes pos = None"
proof -
  have "[0, 7, 14, 21, 28] = map ((*) 7) [0..<5::nat]" by (simp add: upt_rec)
  with read_uleb_loop_too_long [of 0 0 n pos bytes post] assms show ?thesis
    by (simp add: read_uleb_def)
qed

text \<open>Reading one number off the front of what is left.\<close>

lemma read_uleb_front:
  assumes "drop pos bytes = uleb_encode n @ post" and "n < 2 ^ 32"
  shows "read_uleb bytes pos = Some (word_of_nat n, pos + length (uleb_encode n))"
    and "drop (pos + length (uleb_encode n)) bytes = post"
proof -
  show "read_uleb bytes pos = Some (word_of_nat n, pos + length (uleb_encode n))"
    using assms by (intro read_uleb_encode) simp_all
  have "drop (length (uleb_encode n)) (drop pos bytes) = post"
    by (simp add: assms(1))
  then show "drop (pos + length (uleb_encode n)) bytes = post"
    by (simp add: add.commute)
qed

lemma read_memories_Cons_None:
  assumes "drop inner body = encode_memory (mn, None) @ post" and "mn < 2 ^ 32"
  shows "\<exists>inner'. drop inner' body = post \<and>
    read_memories body (Suc count) inner mp = read_memories body count inner' (max mp mn)"
proof -
  note f = read_uleb_front [of inner body 0 "uleb_encode mn @ post"]
  note m = read_uleb_front [of "inner + length (uleb_encode 0)" body mn post]
  show ?thesis
    using f m assms by (auto simp: unat_of_nat)
qed

lemma read_memories_Cons_Some:
  assumes "drop inner body = encode_memory (mn, Some mx) @ post" and "mn < 2 ^ 32" and "mx < 2 ^ 32"
  shows "\<exists>inner'. drop inner' body = post \<and>
    read_memories body (Suc count) inner mp = read_memories body count inner' (max mp mn)"
proof -
  note f = read_uleb_front [of inner body 1 "uleb_encode mn @ uleb_encode mx @ post"]
  note m = read_uleb_front [of "inner + length (uleb_encode 1)" body mn "uleb_encode mx @ post"]
  note x = read_uleb_front [of "inner + length (uleb_encode 1) + length (uleb_encode mn)" body mx post]
  show ?thesis
    using f m x assms by (auto simp: unat_of_nat)
qed

lemma read_memories_encode:
  "\<forall>(mn, mx) \<in> set ms. mn < 2 ^ 32 \<and> (case mx of None \<Rightarrow> True | Some m \<Rightarrow> m < 2 ^ 32) \<Longrightarrow>
   drop inner body = concat (map encode_memory ms) \<Longrightarrow>
   read_memories body (length ms) inner mp = Some (foldl max mp (map fst ms))"
proof (induction ms arbitrary: inner mp)
  case Nil
  then show ?case by simp
next
  case (Cons m ms)
  obtain mn mx where m: "m = (mn, mx)" by (cases m)
  have "\<exists>inner'. drop inner' body = concat (map encode_memory ms) \<and>
      read_memories body (Suc (length ms)) inner mp = read_memories body (length ms) inner' (max mp mn)"
    using read_memories_Cons_None [of inner body mn] read_memories_Cons_Some [of inner body mn] Cons.prems m
    by (cases mx) auto
  then show ?case
    using Cons.IH Cons.prems(1) m by fastforce
qed

lemma foldl_max: "foldl max (a::nat) xs = max a (foldl max 0 xs)"
proof (induction xs arbitrary: a)
  case (Cons x xs)
  show ?case
    using Cons [of "max a x"] Cons [of x] by simp
qed simp

lemma section_scan:
  assumes "wf_section s"
  shows "(if section_id s = 5 then read_memory_section (section_body s) mp else Some mp)
         = Some (max mp (section_pages s))"
proof (cases s)
  case (Memory_Section ms)
  let ?b = "section_body (Memory_Section ms)"
  have c: "read_uleb ?b 0 = Some (word_of_nat (length ms), length (uleb_encode (length ms)))"
    using read_uleb_front(1) [of 0 ?b "length ms" "concat (map encode_memory ms)"] assms Memory_Section
    by simp
  have "read_memories ?b (length ms) (length (uleb_encode (length ms))) mp =
        Some (foldl max mp (map fst ms))"
    using assms Memory_Section by (intro read_memories_encode) simp_all
  with c assms Memory_Section show ?thesis
    by (simp add: read_memory_section_def unat_of_nat foldl_max [of mp])
qed (use assms in simp)

lemma scan_sections_encode:
  "\<forall>s \<in> set ss. wf_section s \<Longrightarrow> length wasm \<le> usize_max \<Longrightarrow>
   drop pos wasm = concat (map encode_section ss) \<Longrightarrow> pos \<le> length wasm \<Longrightarrow>
   scan_sections wasm pos mp = Some (foldl max mp (map section_pages ss))"
proof (induction ss arbitrary: pos mp)
  case Nil
  then show ?case by (simp add: scan_sections.simps [of wasm pos])
next
  case (Cons s ss)
  let ?b = "section_body s" and ?rest = "concat (map encode_section ss)"
  let ?l = "uleb_encode (length ?b)"
  let ?p = "Suc pos + length ?l"
  have wf: "wf_section s" and len: "length ?b < 2 ^ 32"
    using Cons.prems(1) by (cases s; simp)+
  have d0: "drop pos wasm = section_id s # ?l @ ?b @ ?rest"
    using Cons.prems(3) by (simp add: encode_section_def [of s])
  then have lt: "pos < length wasm"
    by (metis drop_all list.distinct(1) not_le)
  note hd = get_at_drop [OF d0]
  note len_read = read_uleb_front [OF conjunct2 [OF hd] len]
  have bnd: "?p + length ?b \<le> length wasm"
    using arg_cong [OF d0, of length] lt by simp
  have body: "get_range wasm ?p (?p + length ?b) = Some ?b"
    using bnd len_read(2) by (simp add: get_range_def)
  have rest: "drop (?p + length ?b) wasm = ?rest"
    using len_read(2) by (metis add.commute append_eq_conv_conj drop_drop)
  have "scan_sections wasm pos mp = scan_sections wasm (?p + length ?b) (max mp (section_pages s))"
    using lt hd len_read(1) body bnd Cons.prems(2) section_scan [OF wf, of mp] len
    by (subst scan_sections.simps) (simp add: unat_of_nat checked_add_def)
  also have "\<dots> = Some (foldl max (max mp (section_pages s)) (map section_pages ss))"
    by (rule Cons.IH) (use Cons.prems rest bnd in auto)
  finally show ?case by simp
qed

lemma foldl_max_less: "a < b \<Longrightarrow> \<forall>x \<in> set xs. x < b \<Longrightarrow> foldl max a xs < b" for a b :: nat
  by (induction xs arbitrary: a) auto

lemma module_pages_bound:
  assumes "\<forall>s \<in> set ss. wf_section s"
  shows "module_pages ss < 2 ^ 32"
proof -
  have "section_pages s < 2 ^ 32" if "wf_section s" for s
    using that by (cases s) (fastforce intro!: foldl_max_less)+
  then show ?thesis
    unfolding module_pages_def using assms by (intro foldl_max_less) auto
qed

section \<open>Properties\<close>

lemma config_uniform:
  "create_secure_wasmtime_config (build ram cores) = create_secure_wasmtime_config default_limits"
  by (simp add: create_secure_wasmtime_config_def build_fields default_limits_def)

text \<open>
  The engine configuration is the same on every machine: fuel metering and NaN
  canonicalisation are on, the optimisation level is \<open>Speed\<close>, and even the stack bound does
  not depend on RAM or cores, so equal modules compile to equal code across the fleet.
\<close>

lemma config_machine_independent:
  "create_secure_wasmtime_config (build ram cores) = create_secure_wasmtime_config (build ram' cores')
   \<and> consume_fuel (create_secure_wasmtime_config limits)
   \<and> cranelift_nan_canonicalization (create_secure_wasmtime_config limits)
   \<and> cranelift_opt_level (create_secure_wasmtime_config limits) = Speed"
  by (simp add: create_secure_wasmtime_config_def build_fields)

text \<open>
  (C28) The LEB128 reader against the encoder: a number of at most 35 bits is read back modulo
  \<open>2 ^ 32\<close> and the position moves past exactly its bytes, whatever precedes and follows; a
  longer number is rejected. So every \<open>u32\<close> round-trips, and the numbers between
  \<open>2 ^ 32\<close> and \<open>2 ^ 35\<close> are truncated silently instead of being reported as overflow.
\<close>

theorem read_uleb_of_encode:
  "read_uleb (pre @ uleb_encode n @ post) (length pre) =
     (if n < 2 ^ 35 then Some (word_of_nat (n mod 2 ^ 32), length pre + length (uleb_encode n))
      else None)"
proof -
  have d: "drop (length pre) (pre @ uleb_encode n @ post) = uleb_encode n @ post" by simp
  have w: "(word_of_nat n :: u32) = word_of_nat (n mod 2 ^ 32)"
    by (simp add: word_of_nat_eq_iff take_bit_eq_mod)
  show ?thesis
    using read_uleb_encode [OF _ d] read_uleb_too_long [OF _ d] w by (simp add: not_less)
qed

lemma declared_pages:
  assumes "\<forall>s \<in> set ss. wf_section s" and "length (encode_module ss) \<le> usize_max"
  shows "declared_min_memory_bytes (encode_module ss) = Some (65536 * module_pages ss)"
proof -
  let ?w = "encode_module ss"
  have "scan_sections ?w 8 0 = Some (module_pages ss)"
    unfolding module_pages_def
    by (rule scan_sections_encode) (use assms in \<open>simp_all add: encode_module_def MAGIC_def\<close>)
  moreover have "get_range ?w 0 8 = Some (MAGIC @ [1, 0, 0, 0])"
    by (simp add: get_range_def encode_module_def MAGIC_def)
  ultimately show ?thesis
    using module_pages_bound [OF assms(1)]
    by (simp add: declared_min_memory_bytes_def MAGIC_def saturating_mul_def WASM_PAGE_BYTES_def
        usize_max_def)
qed

text \<open>
  (C26) The memory gate reads what the binary format says: for every module made of well-formed
  memory sections and arbitrary other sections, the result is the largest declared minimum over
  all memories, in bytes.
\<close>

theorem declared_min_memory_bytes_encode:
  assumes "\<forall>s \<in> set ss. wf_section s" and "length (encode_module ss) \<le> usize_max"
  shows "declared_min_memory_bytes (encode_module ss) = Some (65536 * module_pages ss)"
  using assms by (rule declared_pages)

theorem declared_min_memory_bytes_encode_witness:
  "declared_min_memory_bytes
     (encode_module [Other_Section 1 [0], Memory_Section [(3, Some 9), (600, None)]]) = Some (65536 * 600)"
proof -
  let ?ss = "[Other_Section 1 [0], Memory_Section [(3, Some 9), (600, None)]]"
  have "\<forall>s \<in> set ?ss. wf_section s"
    by (simp add: uleb_encode.simps)
  moreover have "length (encode_module ?ss) \<le> usize_max"
    by (simp add: encode_module_def encode_section_def MAGIC_def uleb_encode.simps usize_max_def)
  moreover have "module_pages ?ss = 600"
    by (simp add: module_pages_def)
  ultimately show ?thesis
    using declared_min_memory_bytes_encode [of ?ss] by simp
qed

text \<open>
  (C40) The limits of a machine in closed form: each memory limit is a fixed multiple of the number
  of 512 MiB steps of RAM, clamped to one to eight steps: 4 MiB of linear memory, 3 MiB of staging
  memory and 1 MiB per allocation for each step, on a fixed 1 MiB stack. So the inner clamp of the
  single-allocation cap never changes its value, three allocations of the maximal size always fit
  the total, and no limit goes down when RAM goes up. The table limit is 256 elements per core, for at least two cores and
  at most 2048 elements, as long as the product fits 64 bits; a machine that reports \<open>2 ^ 56\<close> cores
  wraps around to a limit of zero elements, because this product is not saturating as the two memory
  products are.
\<close>

theorem build_closed_form:
  "wl_memory_size (build ram cores) = 4 * 1024 * 1024 * ram_steps ram \<and>
   wl_max_total_memory (build ram cores) = 3 * 1024 * 1024 * ram_steps ram \<and>
   wl_max_single_alloc (build ram cores) = 1024 * 1024 * ram_steps ram \<and>
   wl_max_total_memory (build ram cores) = 3 * wl_max_single_alloc (build ram cores) \<and>
   wl_max_wasm_stack (build ram cores) = 1024 * 1024 \<and>
   1 \<le> ram_steps ram \<and> ram_steps ram \<le> 8 \<and>
   (ram \<le> ram' \<longrightarrow> ram_steps ram \<le> ram_steps ram') \<and>
   (cores < 2 ^ 56 \<longrightarrow> wl_max_table_elements (build ram cores) = min (256 * max cores 2) 2048) \<and>
   wl_max_table_elements (build ram (2 ^ 56)) = 0"
proof -
  have "wl_max_table_elements (build ram (2 ^ 56)) = 0" by (simp add: build_def Let_def wrapping_mul_def)
  moreover have "ram \<le> ram' \<longrightarrow> ram_steps ram \<le> ram_steps ram'"
    by (simp add: ram_steps_def clamp_mono div_le_mono)
  ultimately show ?thesis
    using ram_steps_bounds [of ram] by (simp add: build_fields build_max_table_elements)
qed

theorem build_closed_form_witness:
  "wl_max_table_elements (build 4096 4) = 1024"
  using build_closed_form [of 4096 4] by simp

end
