(* ===== verification/Ave_Scan_Loop.thy ===== *)
theory Ave_Scan_Loop
  imports Ave_Config "HOL-Library.While_Combinator"
begin

text \<open>
  The loops of \<open>declared_min_memory_bytes\<close> (\<open>src/runtime/config.rs\<close>) as loops. The reader runs on
  untrusted module bytes before anything has checked them, and its inner loop runs up to a count of
  32 bits that the module declares. Here the section loop is a \<open>while_option\<close>, for which
  not returning is the value \<open>None\<close>, and its state carries a counter of the iterations of the
  section loop and of the loop over memory entries. It always returns, with the result of the
  recursive definition, after at most one iteration per byte of the module.
\<close>

section \<open>The loop over memory entries\<close>

text \<open>The number of iterations that are started, with the early returns of \<open>read_memories\<close>. Each
  makes at most three calls of \<open>read_uleb\<close>, of at most five bytes.\<close>

fun memories_ticks :: "byte list \<Rightarrow> nat \<Rightarrow> nat \<Rightarrow> nat" where
  "memories_ticks body 0 inner = 0"
| "memories_ticks body (Suc count) inner =
     1 + (case read_uleb body inner of
            None \<Rightarrow> 0
          | Some (flags, inner1) \<Rightarrow>
              (case read_uleb body inner1 of
                 None \<Rightarrow> 0
               | Some (mn, inner2) \<Rightarrow>
                   if flags AND 1 \<noteq> 0
                   then (case read_uleb body inner2 of
                           None \<Rightarrow> 0
                         | Some (_, inner3) \<Rightarrow> memories_ticks body count inner3)
                   else memories_ticks body count inner2))"

definition memory_section_ticks :: "byte list \<Rightarrow> nat" where
  "memory_section_ticks body =
     (case read_uleb body 0 of None \<Rightarrow> 0 | Some (count, inner) \<Rightarrow> memories_ticks body (unat count) inner)"

section \<open>The section loop\<close>

text \<open>One iteration: the position and maximum after it, or \<open>None\<close> for an early return, and the
  iterations it makes, itself included.\<close>

definition section_step :: "byte list \<Rightarrow> nat \<times> nat \<Rightarrow> (nat \<times> nat) option \<times> nat" where
  "section_step wasm = (\<lambda>(pos, max_pages).
     case get_at wasm pos of
       None \<Rightarrow> (None, 1)
     | Some sid \<Rightarrow>
         (case read_uleb wasm (pos + 1) of
            None \<Rightarrow> (None, 1)
          | Some (section_len, pos1) \<Rightarrow>
              (case checked_add pos1 (unat section_len) of
                 None \<Rightarrow> (None, 1)
               | Some body_end \<Rightarrow>
                   (case get_range wasm pos1 body_end of
                      None \<Rightarrow> (None, 1)
                    | Some body \<Rightarrow>
                        if sid = 5
                        then (case read_memory_section body max_pages of
                                None \<Rightarrow> (None, 1 + memory_section_ticks body)
                              | Some max_pages' \<Rightarrow>
                                  (Some (pos1 + unat section_len, max_pages'), 1 + memory_section_ticks body))
                        else (Some (pos1 + unat section_len, max_pages), 1)))))"

definition section_guard :: "byte list \<Rightarrow> (nat \<times> nat) option \<times> nat \<Rightarrow> bool" where
  "section_guard wasm = (\<lambda>(s, _). case s of None \<Rightarrow> False | Some (pos, _) \<Rightarrow> pos < length wasm)"

definition section_iteration :: "byte list \<Rightarrow> (nat \<times> nat) option \<times> nat \<Rightarrow> (nat \<times> nat) option \<times> nat" where
  "section_iteration wasm = (\<lambda>(s, ticks).
     case s of
       None \<Rightarrow> (None, ticks)
     | Some st \<Rightarrow> (case section_step wasm st of (s', n) \<Rightarrow> (s', ticks + n)))"

definition section_loop :: "byte list \<Rightarrow> (nat \<times> nat) option \<times> nat \<Rightarrow> ((nat \<times> nat) option \<times> nat) option" where
  "section_loop wasm = while_option (section_guard wasm) (section_iteration wasm)"

definition declared_min_memory_loop :: "byte list \<Rightarrow> (nat option \<times> nat) option" where
  "declared_min_memory_loop wasm =
     (case get_range wasm 0 8 of
        None \<Rightarrow> Some (None, 0)
      | Some cursor \<Rightarrow>
          if take 4 cursor \<noteq> MAGIC \<or> drop 4 cursor \<noteq> [1, 0, 0, 0] then Some (None, 0)
          else (case section_loop wasm (Some (8, 0), 0) of
                  None \<Rightarrow> None
                | Some (s, ticks) \<Rightarrow>
                    Some (map_option (\<lambda>(_, max_pages). saturating_mul max_pages WASM_PAGE_BYTES) s, ticks)))"

section \<open>Lemmas\<close>

text \<open>An entry takes at least two bytes, whatever count the section declares.\<close>

lemma memories_ticks_le: "2 * memories_ticks body count inner \<le> length body - inner + 2"
proof (induction count arbitrary: inner)
  case (Suc count)
  note ih = Suc.IH and adv = read_uleb_advances [of body]
  show ?case
  proof (cases "read_uleb body inner")
    case (Some a)
    obtain flags inner1 where a: "a = (flags, inner1)" by (cases a)
    with Some adv have i1: "inner < inner1" "inner1 \<le> length body" by blast+
    show ?thesis
    proof (cases "read_uleb body inner1")
      case (Some b)
      obtain mn inner2 where b: "b = (mn, inner2)" by (cases b)
      with Some adv have i2: "inner1 < inner2" "inner2 \<le> length body" by blast+
      have rest: "2 * memories_ticks body count k \<le> length body - inner" if "inner2 \<le> k" "k \<le> length body" for k
        using ih [of k] i1 i2 that by simp
      show ?thesis
      proof (cases "read_uleb body inner2")
        case (Some c)
        then show ?thesis
          using rest [of inner2] rest [of "snd c"] adv [of inner2 "fst c" "snd c"] i2 a b
            \<open>read_uleb body inner = Some a\<close> \<open>read_uleb body inner1 = Some b\<close>
          by (cases c) auto
      qed (use rest [of inner2] i2 a b \<open>read_uleb body inner = Some a\<close> \<open>read_uleb body inner1 = Some b\<close> in auto)
    qed (use i1 a \<open>read_uleb body inner = Some a\<close> in auto)
  qed auto
qed simp

lemma memory_section_ticks_le: "memory_section_ticks body \<le> length body"
proof (cases "read_uleb body 0")
  case (Some a)
  then obtain count inner where a: "read_uleb body 0 = Some (count, inner)" by (cases a) auto
  then show ?thesis
    using read_uleb_advances [OF a] memories_ticks_le [of body "unat count" inner]
    by (auto simp: memory_section_ticks_def)
qed (simp add: memory_section_ticks_def)

text \<open>An iteration that goes on has moved past all it counted; an early return has counted no more
  than the bytes that were left.\<close>

lemma section_step_ticks:
  assumes "section_step wasm (pos, mp) = (s, n)" and "pos < length wasm"
  shows "case s of None \<Rightarrow> n \<le> length wasm - pos
    | Some (pos', _) \<Rightarrow> pos + n \<le> pos' \<and> pos < pos' \<and> pos' \<le> length wasm"
proof (cases "read_uleb wasm (pos + 1)")
  case (Some a)
  obtain len pos1 where a: "read_uleb wasm (pos + 1) = Some (len, pos1)" using Some by (cases a) auto
  note adv = read_uleb_advances [OF a]
  show ?thesis
  proof (cases "get_range wasm pos1 (pos1 + unat len)")
    case (Some body)
    then have "length body = unat len" "pos1 + unat len \<le> length wasm"
      by (auto simp: get_range_def split: if_splits)
    with Some show ?thesis
      using assms a adv memory_section_ticks_le [of body]
      by (auto simp: section_step_def checked_add_def split: option.splits if_splits)
  qed (use assms a adv in \<open>auto simp: section_step_def checked_add_def split: option.splits if_splits\<close>)
qed (use assms in \<open>auto simp: section_step_def split: option.splits\<close>)

lemma section_loop_unfold:
  "section_loop wasm s = (if section_guard wasm s then section_loop wasm (section_iteration wasm s) else Some s)"
  unfolding section_loop_def by (rule while_option_unfold)

lemma section_loop_returned: "section_loop wasm (None, n) = Some (None, n)"
  by (subst section_loop_unfold) (simp add: section_guard_def)

lemma scan_sections_step:
  "scan_sections wasm pos mp =
     (if pos < length wasm
      then (case fst (section_step wasm (pos, mp)) of
              None \<Rightarrow> None
            | Some (pos', mp') \<Rightarrow> scan_sections wasm pos' mp')
      else Some mp)"
  by (subst scan_sections.simps) (auto simp: section_step_def split: option.split)

lemma section_loop_scan:
  "pos \<le> length wasm \<Longrightarrow>
   \<exists>s n. section_loop wasm (Some (pos, mp), t) = Some (s, n) \<and>
     map_option snd s = scan_sections wasm pos mp \<and> n \<le> t + (length wasm - pos)"
proof (induction "length wasm - pos" arbitrary: pos mp t rule: less_induct)
  case less
  show ?case
  proof (cases "pos < length wasm")
    case True
    obtain s n where st: "section_step wasm (pos, mp) = (s, n)" by (cases "section_step wasm (pos, mp)")
    have loop: "section_loop wasm (Some (pos, mp), t) = section_loop wasm (s, t + n)"
      using True by (subst section_loop_unfold) (simp add: section_guard_def section_iteration_def st)
    note tk = section_step_ticks [OF st True]
    show ?thesis
    proof (cases s)
      case None
      then show ?thesis
        using tk by (simp add: loop section_loop_returned scan_sections_step [of wasm pos] True st)
    next
      case (Some a)
      obtain pos' mp' where a: "a = (pos', mp')" by (cases a)
      with tk Some have adv: "pos + n \<le> pos'" "pos < pos'" "pos' \<le> length wasm" by simp_all
      with True have "length wasm - pos' < length wasm - pos" by simp
      from less.hyps [OF this adv(3), of mp' "t + n"] show ?thesis
        using adv Some a by (force simp: loop scan_sections_step [of wasm pos] True st)
    qed
  next
    case False
    then show ?thesis
      by (subst section_loop_unfold) (simp add: section_guard_def scan_sections_step [of wasm pos])
  qed
qed

section \<open>Properties\<close>

text \<open>
  (C27) The reader of declared memory terminates on every input, however malformed: the program with
  its loops written as loops returns, the value it returns is the one of the recursive definition,
  and the section loop and the loop over memory entries together make at most as many iterations as
  the module has bytes. A section that declares 4294967295 memories in a few bytes does not change
  that.
\<close>

theorem declared_min_memory_terminates:
  "\<exists>iterations. declared_min_memory_loop wasm = Some (declared_min_memory_bytes wasm, iterations) \<and>
     iterations \<le> length wasm"
proof (cases "get_range wasm 0 8")
  case (Some cursor)
  then have "8 \<le> length wasm" by (simp add: get_range_def split: if_splits)
  then obtain s n where loop: "section_loop wasm (Some (8, 0), 0) = Some (s, n)"
    and s: "map_option snd s = scan_sections wasm 8 0" and n: "n \<le> length wasm"
    using section_loop_scan [of 8 wasm 0 0] by fastforce
  have "map_option (\<lambda>(_, mp). saturating_mul mp WASM_PAGE_BYTES) s =
      map_option (\<lambda>mp. saturating_mul mp WASM_PAGE_BYTES) (map_option snd s)"
    by (cases s) auto
  with Some loop s n show ?thesis
    by (auto simp: declared_min_memory_loop_def declared_min_memory_bytes_def split: option.split)
qed (simp add: declared_min_memory_loop_def declared_min_memory_bytes_def)

end
