(* ===== verification/Ave_Host_Abi.thy ===== *)
theory Ave_Host_Abi
  imports Ave_Errors
begin

text \<open>
  The boundary between the guest SDK (\<open>src/lib.rs\<close>) and a host. \<open>host_ops\<close> collects what
  the SDK calls: \<open>externf::pointer_len\<close>, \<open>externf::alloc\<close>, and the two wrappers
  \<open>read_host_bytes\<close> and \<open>write_host_bytes\<close> whose bodies depend on the build. \<open>Err\<close> is a
  trap that ends the guest, \<open>Panic\<close> a panic of test code.

  The locale \<open>host_abi\<close> is the contract the SDK relies on: a host has an invariant and a view
  that maps guest-visible pointers to contents, and each call does to the view what its name says.
  \<open>host_abi_live\<close> adds that the calls return, given room. The contract has two providers, each
  with its own theory: the mock host of the unit tests and the linker of the runtime.
\<close>

record ('h, 't) host_ops =
  ho_pointer_len :: "'h \<Rightarrow> i32 \<Rightarrow> i32"
  ho_alloc :: "'h \<Rightarrow> u32 \<Rightarrow> (i32 \<times> 'h, 't) outcome"
  ho_read :: "'h \<Rightarrow> i32 \<Rightarrow> byte list \<Rightarrow> (byte list \<times> 'h, 't) outcome"
  ho_write :: "'h \<Rightarrow> i32 \<Rightarrow> byte list \<Rightarrow> ('h, 't) outcome"

locale host_abi =
  fixes ops :: "('h, 't) host_ops"
    and inv :: "'h \<Rightarrow> bool"
    and view :: "'h \<Rightarrow> i32 \<Rightarrow> byte list option"
  assumes len_view: "inv h \<Longrightarrow> view h p = Some bs \<Longrightarrow> sint (ho_pointer_len ops h p) = int (length bs)"
    and read_view: "inv h \<Longrightarrow> view h p = Some bs \<Longrightarrow>
      ho_read ops h p (replicate (length bs) 0) = Ok (ds, h') \<Longrightarrow> ds = bs \<and> inv h' \<and> view h' = view h"
    and read_no_panic: "inv h \<Longrightarrow> view h p = Some bs \<Longrightarrow>
      ho_read ops h p (replicate (length bs) 0) \<noteq> Panic"
    and alloc_fresh: "inv h \<Longrightarrow> 0 < unat n \<Longrightarrow> unat n \<le> i32_max \<Longrightarrow> ho_alloc ops h n = Ok (p, h') \<Longrightarrow>
      p \<noteq> 0 \<Longrightarrow> inv h' \<and> view h p = None \<and> view h' = (view h)(p \<mapsto> replicate (unat n) 0)"
    and alloc_null: "inv h \<Longrightarrow> unat n \<le> i32_max \<Longrightarrow> ho_alloc ops h n = Ok (0, h') \<Longrightarrow>
      inv h' \<and> view h \<subseteq>\<^sub>m view h'"
    and write_view: "inv h \<Longrightarrow> view h p = Some bs \<Longrightarrow> length d = length bs \<Longrightarrow>
      ho_write ops h p d = Ok h' \<Longrightarrow> inv h' \<and> view h' = (view h)(p \<mapsto> d)"
    and write_no_panic: "inv h \<Longrightarrow> view h p = Some bs \<Longrightarrow> length d = length bs \<Longrightarrow>
      ho_write ops h p d \<noteq> Panic"

text \<open>A host that also makes progress: reads and writes of known regions return, and so does an
  allocation for which there is room. Reading does not use up room.\<close>

locale host_abi_live = host_abi ops inv view
  for ops :: "('h, 't) host_ops" and inv :: "'h \<Rightarrow> bool" and view :: "'h \<Rightarrow> i32 \<Rightarrow> byte list option" +
  fixes room :: "'h \<Rightarrow> nat \<Rightarrow> bool"
  assumes read_returns: "inv h \<Longrightarrow> view h p = Some bs \<Longrightarrow>
      \<exists>h'. ho_read ops h p (replicate (length bs) 0) = Ok (bs, h') \<and> (\<forall>k. room h' k = room h k)"
    and alloc_returns: "inv h \<Longrightarrow> 0 < unat n \<Longrightarrow> room h (unat n) \<Longrightarrow>
      \<exists>p h'. ho_alloc ops h n = Ok (p, h') \<and> p \<noteq> 0"
    and write_returns: "inv h \<Longrightarrow> view h p = Some bs \<Longrightarrow> length d = length bs \<Longrightarrow>
      \<exists>h'. ho_write ops h p d = Ok h'"
    and room_bound: "room h k \<Longrightarrow> k \<le> i32_max"

end
