(* ===== verification/Ave_Sdk.thy ===== *)
theory Ave_Sdk
  imports Ave_Host_Abi
begin

text \<open>
  \<open>src/lib.rs\<close>: the guest SDK. A function of the crate that crosses the WASM boundary takes
  the host operations and the host state and returns an \<open>outcome\<close>: \<open>Ok (v, h)\<close> when it
  returns \<open>v\<close> with the host in state \<open>h\<close>, \<open>Err\<close> when a host call traps. A Rust
  \<open>Result\<close> inside is a sum, \<open>Inl\<close> the error.

  Code outside the repository is a parameter: \<open>sdk_ext\<close> holds the Borsh codecs and the
  constructors of \<open>ave_common\<close>, \<open>serde\<close> the JSON codecs of a contract's state and event
  types. The contract itself is the callback, a function on the result record.
\<close>

section \<open>Data\<close>

text \<open>The two records of \<open>ave_common\<close> that the source builds and reads by field name.\<close>

record contract_result_data =
  crd_final_state :: "byte list"
  crd_success :: bool
  crd_error :: string

record contract_init_check_data =
  cid_success :: bool
  cid_error :: string

record sdk_ext =
  borsh_data_de :: "byte list \<Rightarrow> string + byte list"
  borsh_result_ser :: "contract_result_data \<Rightarrow> string + byte list"
  borsh_result_de :: "byte list \<Rightarrow> string + contract_result_data"
  borsh_init_ser :: "contract_init_check_data \<Rightarrow> string + byte list"
  borsh_init_de :: "byte list \<Rightarrow> string + contract_init_check_data"
  result_data_error :: "string \<Rightarrow> contract_result_data"
  init_data_ok :: contract_init_check_data
  init_data_error :: "string \<Rightarrow> contract_init_check_data"

record ('s, 'e) serde =
  json_state_de :: "byte list \<Rightarrow> string + 's"
  json_state_ser :: "'s \<Rightarrow> string + byte list"
  json_event_de :: "byte list \<Rightarrow> string + 'e"

record 'e sdk_context =
  event :: 'e
  is_owner :: bool

record 's contract_result =
  state :: 's
  success :: bool
  error :: string

record contract_init_check =
  ic_success :: bool
  ic_error :: string

definition MAX_DATA_SIZE :: int where
  "MAX_DATA_SIZE = 10000000"

definition OWNER_FLAG :: i32 where
  "OWNER_FLAG = 1"

definition ERR_INIT_REJECTED :: string where
  "ERR_INIT_REJECTED = ''Error running init contract data''"

definition ERR_EVENT_REJECTED :: string where
  "ERR_EVENT_REJECTED = ''Error running contract event''"

definition ERR_FINAL_STATE_SER :: string where
  "ERR_FINAL_STATE_SER = ''Cannot serialize contract final state into JSON bytes''"

definition ERR_RETURN_INIT_RESULT :: string where
  "ERR_RETURN_INIT_RESULT = ''Cannot return init contract result''"

definition ERR_RETURN_RESULT :: string where
  "ERR_RETURN_RESULT = ''Cannot return contract result''"

section \<open>Results\<close>

definition contract_result_new :: "'s \<Rightarrow> 's contract_result" where
  "contract_result_new st = \<lparr>state = st, success = False, error = ''''\<rparr>"

definition accept :: "'s contract_result \<Rightarrow> 's contract_result" where
  "accept r = r\<lparr>success := True\<rparr>"

definition reject :: "'s contract_result \<Rightarrow> string \<Rightarrow> 's contract_result" where
  "reject r msg = r\<lparr>success := False, error := msg\<rparr>"

definition contract_init_check_default :: contract_init_check where
  "contract_init_check_default = \<lparr>ic_success = False, ic_error = ''''\<rparr>"

definition ic_accept :: "contract_init_check \<Rightarrow> contract_init_check" where
  "ic_accept c = c\<lparr>ic_success := True\<rparr>"

definition ic_reject :: "contract_init_check \<Rightarrow> string \<Rightarrow> contract_init_check" where
  "ic_reject c msg = c\<lparr>ic_success := False, ic_error := msg\<rparr>"

definition require_owner :: "'e sdk_context \<Rightarrow> 's contract_result \<Rightarrow> bool \<times> 's contract_result" where
  "require_owner ctx result =
     (if is_owner ctx then (True, result)
      else (False, reject result ''Only the owner can perform this action''))"

section \<open>Reading from the host\<close>

definition deserialize :: "sdk_ext \<Rightarrow> byte list \<Rightarrow> error + byte list" where
  "deserialize ext bytes =
     (case borsh_data_de ext bytes of Inl e \<Rightarrow> Inl (Deserialization e) | Inr d \<Rightarrow> Inr d)"

definition validate_host_len :: "i32 \<Rightarrow> error + nat" where
  "validate_host_len len =
     (if sint len > MAX_DATA_SIZE
      then Inl (MemoryLimitExceeded (nat (sint len)) (nat MAX_DATA_SIZE))
      else if sint len < 0 then Inl (Deserialization ''Invalid negative length from host'')
      else Inr (nat (sint len)))"

definition get_from_context ::
    "('h, 't) host_ops \<Rightarrow> i32 \<Rightarrow> 'h \<Rightarrow> ((error + byte list) \<times> 'h, 't) outcome" where
  "get_from_context ops pointer h =
     (case validate_host_len (ho_pointer_len ops h pointer) of
        Inl e \<Rightarrow> Ok (Inl e, h)
      | Inr len \<Rightarrow>
          obind (ho_read ops h pointer (replicate len 0)) (\<lambda>(dat, h'). Ok (Inr dat, h')))"

definition read_and_parse ::
    "('h, 't) host_ops \<Rightarrow> sdk_ext \<Rightarrow> (byte list \<Rightarrow> string + 'a) \<Rightarrow> i32 \<Rightarrow> string \<Rightarrow> 'h \<Rightarrow>
     ((string + 'a) \<times> 'h, 't) outcome" where
  "read_and_parse ops ext from_slice ptr context_name h =
     obind (get_from_context ops ptr h) (\<lambda>(r, h').
       case r of
         Inl e \<Rightarrow>
           Ok (Inl (''Cannot read '' @ context_name @ '' from host memory: '' @ error_display e), h')
       | Inr bytes \<Rightarrow>
           (case deserialize ext bytes of
              Inl e \<Rightarrow> Ok (Inl (''Cannot deserialize '' @ context_name @ '': '' @ error_display e), h')
            | Inr dat \<Rightarrow>
                (case from_slice dat of
                   Inl e \<Rightarrow>
                     Ok (Inl (''Cannot parse '' @ context_name @ '' from JSON bytes: '' @ e), h')
                 | Inr v \<Rightarrow> Ok (Inr v, h'))))"

section \<open>Returning to the host\<close>

text \<open>\<open>serialize\<close> for a type whose Borsh encoder is \<open>ser\<close>.\<close>

definition serialize :: "('a \<Rightarrow> string + byte list) \<Rightarrow> 'a \<Rightarrow> error + byte list" where
  "serialize ser dat = (case ser dat of Inl e \<Rightarrow> Inl (Serialization e) | Inr bytes \<Rightarrow> Inr bytes)"

definition validate_serialized_len :: "byte list \<Rightarrow> error + u32" where
  "validate_serialized_len bytes =
     (if length bytes > i32_max
      then Inl (IntegerOverflow
        (''Serialized data too large: '' @ show_nat (length bytes) @ '' bytes exceeds i32::MAX''))
      else Inr (usize_as_u32 (length bytes)))"

definition store ::
    "('h, 't) host_ops \<Rightarrow> ('a \<Rightarrow> string + byte list) \<Rightarrow> 'a \<Rightarrow> 'h \<Rightarrow>
     ((error + u32) \<times> 'h, 't) outcome" where
  "store ops ser dat h =
     (case serialize ser dat of
        Inl e \<Rightarrow> Ok (Inl (Serialization (error_display e)), h)
      | Inr bytes \<Rightarrow>
          (case validate_serialized_len bytes of
             Inl e \<Rightarrow> Ok (Inl e, h)
           | Inr len \<Rightarrow>
               obind (ho_alloc ops h len) (\<lambda>(raw_ptr, h1).
                 if raw_ptr = 0 then Ok (Inl (HostAllocationFailed (length bytes)), h1)
                 else obind (ho_write ops h1 raw_ptr bytes) (\<lambda>h2. Ok (Inr raw_ptr, h2)))))"

text \<open>\<open>.map_err(|_| msg.to_owned())\<close> and \<open>.unwrap_or(0)\<close> on the result of \<open>store\<close>.\<close>

definition replace_err :: "string \<Rightarrow> error + 'a \<Rightarrow> string + 'a" where
  "replace_err msg r = (case r of Inl _ \<Rightarrow> Inl msg | Inr v \<Rightarrow> Inr v)"

definition unwrap_or_zero :: "error + u32 \<Rightarrow> u32" where
  "unwrap_or_zero r = (case r of Inl _ \<Rightarrow> 0 | Inr p \<Rightarrow> p)"

section \<open>Entry points\<close>

definition try_check_init_data ::
    "('h, 't) host_ops \<Rightarrow> sdk_ext \<Rightarrow> ('s, 'e) serde \<Rightarrow> i32 \<Rightarrow>
     ('s \<Rightarrow> contract_init_check \<Rightarrow> contract_init_check) \<Rightarrow> 'h \<Rightarrow> ((string + u32) \<times> 'h, 't) outcome" where
  "try_check_init_data ops ext sd state_ptr callback h =
     obind (read_and_parse ops ext (json_state_de sd) state_ptr ''State'' h) (\<lambda>(r, h1).
       case r of
         Inl e \<Rightarrow> Ok (Inl e, h1)
       | Inr st \<Rightarrow>
           (let contract_result = callback st contract_init_check_default
            in if \<not> ic_success contract_result
               then Ok (Inl (ERR_INIT_REJECTED @ '': '' @ ic_error contract_result), h1)
               else obind (store ops (borsh_init_ser ext) (init_data_ok ext) h1) (\<lambda>(s, h2).
                 Ok (replace_err ERR_RETURN_INIT_RESULT s, h2))))"

definition check_init_data ::
    "('h, 't) host_ops \<Rightarrow> sdk_ext \<Rightarrow> ('s, 'e) serde \<Rightarrow> i32 \<Rightarrow>
     ('s \<Rightarrow> contract_init_check \<Rightarrow> contract_init_check) \<Rightarrow> 'h \<Rightarrow> (u32 \<times> 'h, 't) outcome" where
  "check_init_data ops ext sd state_ptr callback h =
     obind (try_check_init_data ops ext sd state_ptr callback h) (\<lambda>(r, h1).
       case r of
         Inr ptr \<Rightarrow> Ok (ptr, h1)
       | Inl e \<Rightarrow>
           obind (store ops (borsh_init_ser ext) (init_data_error ext e) h1) (\<lambda>(s, h2).
             Ok (unwrap_or_zero s, h2)))"

text \<open>The state, or the initial state when the state cannot be read.\<close>

definition read_state_or_init ::
    "('h, 't) host_ops \<Rightarrow> sdk_ext \<Rightarrow> ('s, 'e) serde \<Rightarrow> i32 \<Rightarrow> i32 \<Rightarrow> 'h \<Rightarrow>
     ((string + 's) \<times> 'h, 't) outcome" where
  "read_state_or_init ops ext sd state_ptr init_state_ptr h =
     obind (read_and_parse ops ext (json_state_de sd) state_ptr ''State'' h) (\<lambda>(r, h1).
       case r of
         Inr st \<Rightarrow> Ok (Inr st, h1)
       | Inl first \<Rightarrow>
           obind (read_and_parse ops ext (json_state_de sd) init_state_ptr ''Init State'' h1) (\<lambda>(r2, h2).
             case r2 of
               Inr st \<Rightarrow> Ok (Inr st, h2)
             | Inl second \<Rightarrow>
                 Ok (Inl (first @ ''; fallback to init state also failed: '' @ second), h2)))"

definition result_data :: "'s contract_result \<Rightarrow> byte list \<Rightarrow> contract_result_data" where
  "result_data r state_bytes =
     \<lparr>crd_final_state = state_bytes,
      crd_success = success r,
      crd_error = (if success r then '''' else ERR_EVENT_REJECTED @ '': '' @ error r)\<rparr>"

definition try_execute_contract ::
    "('h, 't) host_ops \<Rightarrow> sdk_ext \<Rightarrow> ('s, 'e) serde \<Rightarrow> i32 \<Rightarrow> i32 \<Rightarrow> i32 \<Rightarrow> i32 \<Rightarrow>
     ('e sdk_context \<Rightarrow> 's contract_result \<Rightarrow> 's contract_result) \<Rightarrow> 'h \<Rightarrow> ((string + u32) \<times> 'h, 't) outcome" where
  "try_execute_contract ops ext sd state_ptr init_state_ptr event_ptr owner callback h =
     obind (read_state_or_init ops ext sd state_ptr init_state_ptr h) (\<lambda>(r, h1).
       case r of
         Inl e \<Rightarrow> Ok (Inl e, h1)
       | Inr st \<Rightarrow>
           obind (read_and_parse ops ext (json_event_de sd) event_ptr ''Event'' h1) (\<lambda>(r2, h2).
             case r2 of
               Inl e \<Rightarrow> Ok (Inl e, h2)
             | Inr ev \<Rightarrow>
                 (let ctx = \<lparr>event = ev, is_owner = (owner = OWNER_FLAG)\<rparr>;
                      contract_result = callback ctx (contract_result_new st)
                  in case json_state_ser sd (state contract_result) of
                       Inl _ \<Rightarrow> Ok (Inl ERR_FINAL_STATE_SER, h2)
                     | Inr state_bytes \<Rightarrow>
                         obind (store ops (borsh_result_ser ext) (result_data contract_result state_bytes) h2)
                           (\<lambda>(s, h3). Ok (replace_err ERR_RETURN_RESULT s, h3)))))"

definition execute_contract ::
    "('h, 't) host_ops \<Rightarrow> sdk_ext \<Rightarrow> ('s, 'e) serde \<Rightarrow> i32 \<Rightarrow> i32 \<Rightarrow> i32 \<Rightarrow> i32 \<Rightarrow>
     ('e sdk_context \<Rightarrow> 's contract_result \<Rightarrow> 's contract_result) \<Rightarrow> 'h \<Rightarrow> (u32 \<times> 'h, 't) outcome" where
  "execute_contract ops ext sd state_ptr init_state_ptr event_ptr owner callback h =
     obind (try_execute_contract ops ext sd state_ptr init_state_ptr event_ptr owner callback h) (\<lambda>(r, h1).
       case r of
         Inr ptr \<Rightarrow> Ok (ptr, h1)
       | Inl e \<Rightarrow>
           obind (store ops (borsh_result_ser ext) (result_data_error ext e) h1) (\<lambda>(s, h2).
             Ok (unwrap_or_zero s, h2)))"

section \<open>What an entry point answers, without the host\<close>

text \<open>
  The specification of the two entry points: the answer as a function of the bytes behind the
  three pointers, with no memory, pointers or allocation in it.
\<close>

definition parse_payload ::
    "sdk_ext \<Rightarrow> (byte list \<Rightarrow> string + 'a) \<Rightarrow> string \<Rightarrow> byte list \<Rightarrow> string + 'a" where
  "parse_payload ext from_slice context_name bytes =
     (case borsh_data_de ext bytes of
        Inl e \<Rightarrow> Inl (''Cannot deserialize '' @ context_name @ '': '' @ error_display (Deserialization e))
      | Inr dat \<Rightarrow>
          (case from_slice dat of
             Inl e \<Rightarrow> Inl (''Cannot parse '' @ context_name @ '' from JSON bytes: '' @ e)
           | Inr v \<Rightarrow> Inr v))"

definition chosen_state :: "sdk_ext \<Rightarrow> ('s, 'e) serde \<Rightarrow> byte list \<Rightarrow> byte list \<Rightarrow> string + 's" where
  "chosen_state ext sd sb ib =
     (case parse_payload ext (json_state_de sd) ''State'' sb of
        Inr st \<Rightarrow> Inr st
      | Inl e1 \<Rightarrow>
          (case parse_payload ext (json_state_de sd) ''Init State'' ib of
             Inr st \<Rightarrow> Inr st
           | Inl e2 \<Rightarrow> Inl (e1 @ ''; fallback to init state also failed: '' @ e2)))"

definition event_outcome ::
    "sdk_ext \<Rightarrow> ('s, 'e) serde \<Rightarrow> byte list \<Rightarrow> byte list \<Rightarrow> byte list \<Rightarrow> i32 \<Rightarrow>
     ('e sdk_context \<Rightarrow> 's contract_result \<Rightarrow> 's contract_result) \<Rightarrow> string + contract_result_data" where
  "event_outcome ext sd sb ib eb owner callback =
     (case chosen_state ext sd sb ib of
        Inl e \<Rightarrow> Inl e
      | Inr st \<Rightarrow>
          (case parse_payload ext (json_event_de sd) ''Event'' eb of
             Inl e \<Rightarrow> Inl e
           | Inr ev \<Rightarrow>
               (let r = callback \<lparr>event = ev, is_owner = (owner = OWNER_FLAG)\<rparr> (contract_result_new st)
                in case json_state_ser sd (state r) of
                     Inl _ \<Rightarrow> Inl ERR_FINAL_STATE_SER
                   | Inr bytes \<Rightarrow> Inr (result_data r bytes))))"

definition event_response ::
    "sdk_ext \<Rightarrow> ('s, 'e) serde \<Rightarrow> byte list \<Rightarrow> byte list \<Rightarrow> byte list \<Rightarrow> i32 \<Rightarrow>
     ('e sdk_context \<Rightarrow> 's contract_result \<Rightarrow> 's contract_result) \<Rightarrow> contract_result_data" where
  "event_response ext sd sb ib eb owner callback =
     (case event_outcome ext sd sb ib eb owner callback of
        Inl e \<Rightarrow> result_data_error ext e
      | Inr d \<Rightarrow> d)"

definition init_response ::
    "sdk_ext \<Rightarrow> ('s, 'e) serde \<Rightarrow> byte list \<Rightarrow>
     ('s \<Rightarrow> contract_init_check \<Rightarrow> contract_init_check) \<Rightarrow> contract_init_check_data" where
  "init_response ext sd sb callback =
     (case parse_payload ext (json_state_de sd) ''State'' sb of
        Inl e \<Rightarrow> init_data_error ext e
      | Inr st \<Rightarrow>
          (let c = callback st contract_init_check_default
           in if ic_success c then init_data_ok ext
              else init_data_error ext (ERR_INIT_REJECTED @ '': '' @ ic_error c)))"

section \<open>The implementation against the specification, on any lawful host\<close>

lemma validate_host_len_ok: "sint w = int n \<Longrightarrow> int n \<le> MAX_DATA_SIZE \<Longrightarrow> validate_host_len w = Inr n"
  by (simp add: validate_host_len_def)

lemma deserialize_eq:
  "deserialize ext bytes = (case borsh_data_de ext bytes of Inl e \<Rightarrow> Inl (Deserialization e) | Inr d \<Rightarrow> Inr d)"
  by (simp add: deserialize_def)

lemma read_and_parse_bytes:
  "get_from_context ops ptr h = Ok (Inr bytes, h') \<Longrightarrow>
   read_and_parse ops ext de ptr name h = Ok (parse_payload ext de name bytes, h')"
  by (simp add: read_and_parse_def parse_payload_def deserialize_eq split: sum.split)

text \<open>
  With the three arguments readable, and reading keeping \<open>R\<close>, the main entry point comes down to
  one \<open>store\<close> of the specified answer: it returns the pointer that \<open>store\<close> returns and traps when
  \<open>store\<close> traps.
\<close>

lemma execute_contract_via_store:
  assumes reads: "\<And>h' p bs. R h' \<Longrightarrow> (p, bs) \<in> {(sp, sb), (ip, ib), (ep, eb)} \<Longrightarrow>
      \<exists>h''. get_from_context ops p h' = Ok (Inr bs, h'') \<and> R h''"
    and start: "R h"
  obtains h1 where "R h1"
    and "\<And>t. store ops (borsh_result_ser ext) (event_response ext sd sb ib eb owner cb) h1 = Err t \<Longrightarrow>
      execute_contract ops ext sd sp ip ep owner cb h = Err t"
    and "\<And>p h2. store ops (borsh_result_ser ext) (event_response ext sd sb ib eb owner cb) h1 = Ok (Inr p, h2) \<Longrightarrow>
      execute_contract ops ext sd sp ip ep owner cb h = Ok (p, h2)"
proof -
  obtain h1 where h1: "R h1" "read_and_parse ops ext (json_state_de sd) sp ''State'' h =
      Ok (parse_payload ext (json_state_de sd) ''State'' sb, h1)"
    using reads [OF start, of sp sb] by (auto dest!: read_and_parse_bytes)
  obtain h2 where h2: "R h2" "read_and_parse ops ext (json_state_de sd) ip ''Init State'' h1 =
      Ok (parse_payload ext (json_state_de sd) ''Init State'' ib, h2)"
    using reads [OF h1(1), of ip ib] by (auto dest!: read_and_parse_bytes)
  obtain h3 where h3: "R h3" "read_state_or_init ops ext sd sp ip h = Ok (chosen_state ext sd sb ib, h3)"
  proof (cases "parse_payload ext (json_state_de sd) ''State'' sb")
    case (Inl e)
    show thesis
      by (rule that [OF h2(1)]) (simp add: read_state_or_init_def h1 h2 chosen_state_def Inl split: sum.split)
  next
    case (Inr st)
    show thesis by (rule that [OF h1(1)]) (simp add: read_state_or_init_def h1 chosen_state_def Inr)
  qed
  obtain h4 where h4: "R h4" "read_and_parse ops ext (json_event_de sd) ep ''Event'' h3 =
      Ok (parse_payload ext (json_event_de sd) ''Event'' eb, h4)"
    using reads [OF h3(1), of ep eb] by (auto dest!: read_and_parse_bytes)
  show thesis
  proof (cases "chosen_state ext sd sb ib")
    case (Inl e)
    show thesis
      by (rule that [OF h3(1)])
        (simp_all add: execute_contract_def try_execute_contract_def h3 event_response_def event_outcome_def Inl
          unwrap_or_zero_def)
  next
    case (Inr st)
    show thesis
      by (rule that [OF h4(1)])
        (auto simp: execute_contract_def try_execute_contract_def h3 h4 event_response_def event_outcome_def Inr
          Let_def replace_err_def unwrap_or_zero_def split: sum.split sum.split_asm)
  qed
qed

context host_abi_live
begin

text \<open>What a call leaves unchanged: the invariant, all regions, and the room.\<close>

definition same_host :: "'h \<Rightarrow> 'h \<Rightarrow> bool" where
  "same_host h h' \<longleftrightarrow> inv h' \<and> view h' = view h \<and> (\<forall>k. room h' k = room h k)"

lemma get_from_context_known:
  assumes "inv h" and "view h p = Some bs" and "int (length bs) \<le> MAX_DATA_SIZE"
  shows "\<exists>h'. get_from_context ops p h = Ok (Inr bs, h') \<and> same_host h h'"
proof -
  have "validate_host_len (ho_pointer_len ops h p) = Inr (length bs)"
    using len_view [OF assms(1,2)] assms(3) by (rule validate_host_len_ok)
  with read_returns [OF assms(1,2)] show ?thesis
    using read_view [OF assms(1,2)] by (fastforce simp: get_from_context_def same_host_def)
qed

lemma read_and_parse_known:
  assumes "inv h" and "view h p = Some bs" and "int (length bs) \<le> MAX_DATA_SIZE"
  shows "\<exists>h'. read_and_parse ops ext de p name h = Ok (parse_payload ext de name bs, h') \<and> same_host h h'"
  using get_from_context_known [OF assms] by (auto dest!: read_and_parse_bytes)

lemma store_known:
  assumes "inv h" and "ser d = Inr bytes" and "bytes \<noteq> []" and "room h (length bytes)"
  shows "\<exists>p h'. store ops ser d h = Ok (Inr p, h') \<and> p \<noteq> 0 \<and> inv h' \<and> view h p = None \<and>
    view h' = (view h)(p \<mapsto> bytes)"
proof -
  let ?n = "usize_as_u32 (length bytes)"
  have le: "length bytes \<le> i32_max" using room_bound [OF assms(4)] .
  then have n: "unat ?n = length bytes"
    by (intro usize_as_u32_id) (simp add: i32_max_def)
  have pos: "0 < unat ?n" using assms(3) n by simp
  from alloc_returns [OF assms(1) pos] assms(4) n
  obtain p h1 where a: "ho_alloc ops h ?n = Ok (p, h1)" "p \<noteq> 0" by auto
  from alloc_fresh [OF assms(1) pos _ a] n le
  have h1: "inv h1" "view h p = None" "view h1 = (view h)(p \<mapsto> replicate (length bytes) 0)"
    by simp_all
  then have v: "view h1 p = Some (replicate (length bytes) 0)" by simp
  obtain h2 where w: "ho_write ops h1 p bytes = Ok h2"
    using write_returns [OF h1(1) v, of bytes] by auto
  from write_view [OF h1(1) v _ w] h1(3) have "inv h2" "view h2 = (view h)(p \<mapsto> bytes)" by simp_all
  moreover have "store ops ser d h = Ok (Inr p, h2)"
    using assms(2) le a w by (simp add: store_def serialize_def validate_serialized_len_def)
  ultimately show ?thesis using a(2) h1(2) by blast
qed

lemma read_state_or_init_known:
  assumes "inv h" and "view h sp = Some sb" and "int (length sb) \<le> MAX_DATA_SIZE"
    and "view h ip = Some ib" and "int (length ib) \<le> MAX_DATA_SIZE"
  shows "\<exists>h'. read_state_or_init ops ext sd sp ip h = Ok (chosen_state ext sd sb ib, h') \<and> same_host h h'"
proof -
  obtain h1 where r1: "read_and_parse ops ext (json_state_de sd) sp ''State'' h =
      Ok (parse_payload ext (json_state_de sd) ''State'' sb, h1)" and s1: "same_host h h1"
    using read_and_parse_known [OF assms(1-3)] by blast
  then have "inv h1" "view h1 ip = Some ib" using assms(4) by (simp_all add: same_host_def)
  then obtain h2 where r2: "read_and_parse ops ext (json_state_de sd) ip ''Init State'' h1 =
      Ok (parse_payload ext (json_state_de sd) ''Init State'' ib, h2)" and s2: "same_host h1 h2"
    using read_and_parse_known [OF _ _ assms(5)] by blast
  have "same_host h h2" using s1 s2 by (simp add: same_host_def)
  with r1 r2 s1 show ?thesis
    by (auto simp: read_state_or_init_def chosen_state_def split: sum.split)
qed

text \<open>The main entry point computes its specification and stores the answer in a fresh region.\<close>

lemma execute_contract_known:
  assumes inv: "inv h" and s: "view h sp = Some sb" "int (length sb) \<le> MAX_DATA_SIZE"
    and i: "view h ip = Some ib" "int (length ib) \<le> MAX_DATA_SIZE"
    and e: "view h ep = Some eb" "int (length eb) \<le> MAX_DATA_SIZE"
    and ser: "borsh_result_ser ext (event_response ext sd sb ib eb owner cb) = Inr bytes"
    and ne: "bytes \<noteq> []" and room: "room h (length bytes)"
  shows "\<exists>p h'. execute_contract ops ext sd sp ip ep owner cb h = Ok (p, h') \<and> p \<noteq> 0 \<and> inv h' \<and>
    view h p = None \<and> view h' = (view h)(p \<mapsto> bytes)"
proof -
  let ?R = "\<lambda>h'. same_host h h'"
  have reads: "\<exists>h''. get_from_context ops p h' = Ok (Inr bs, h'') \<and> ?R h''"
    if "?R h'" "(p, bs) \<in> {(sp, sb), (ip, ib), (ep, eb)}" for h' p bs
    using that s i e get_from_context_known [of h' p bs] by (auto simp: same_host_def)
  have "?R h" using inv by (simp add: same_host_def)
  from execute_contract_via_store [of ?R, OF reads this] obtain h1 where h1: "?R h1"
    and ret: "\<And>p h2. store ops (borsh_result_ser ext) (event_response ext sd sb ib eb owner cb) h1 = Ok (Inr p, h2) \<Longrightarrow>
      execute_contract ops ext sd sp ip ep owner cb h = Ok (p, h2)" by metis
  then have "inv h1" "view h1 = view h" "room h1 (length bytes)" using room by (simp_all add: same_host_def)
  with store_known [where ser = "borsh_result_ser ext", OF _ ser ne] ret show ?thesis by metis
qed

lemma check_init_data_known:
  assumes inv: "inv h" and s: "view h sp = Some sb" "int (length sb) \<le> MAX_DATA_SIZE"
    and ser: "borsh_init_ser ext (init_response ext sd sb cb) = Inr bytes"
    and ne: "bytes \<noteq> []" and room: "room h (length bytes)"
  shows "\<exists>p h'. check_init_data ops ext sd sp cb h = Ok (p, h') \<and> p \<noteq> 0 \<and> inv h' \<and>
    view h p = None \<and> view h' = (view h)(p \<mapsto> bytes)"
proof -
  obtain h1 where r1: "read_and_parse ops ext (json_state_de sd) sp ''State'' h =
      Ok (parse_payload ext (json_state_de sd) ''State'' sb, h1)" and s1: "same_host h h1"
    using read_and_parse_known [OF inv s] by blast
  have h1: "inv h1" "view h1 = view h" "room h1 (length bytes)"
    using s1 room by (simp_all add: same_host_def)
  note st = store_known [where ser = "borsh_init_ser ext", OF h1(1) ser ne h1(3), unfolded h1(2)]
  show ?thesis
    using ser st
    by (auto simp: check_init_data_def try_check_init_data_def r1 init_response_def Let_def
        replace_err_def unwrap_or_zero_def split: sum.splits if_splits)
qed

end

section \<open>Properties of the answer\<close>

text \<open>A contract's verdict after a sequence of \<open>accept\<close> and \<open>reject\<close> calls.\<close>

datatype verdict_call = Accept | Reject string

fun apply_verdict :: "'s contract_result \<Rightarrow> verdict_call \<Rightarrow> 's contract_result" where
  "apply_verdict r Accept = accept r"
| "apply_verdict r (Reject m) = reject r m"

lemma parse_payload_name:
  "parse_payload ext de name bs = Inr v \<Longrightarrow> parse_payload ext de name' bs = Inr v"
  by (auto simp: parse_payload_def split: sum.splits)

lemma result_data_simps [simp]:
  "crd_success (result_data r bs) = success r" "crd_final_state (result_data r bs) = bs"
  by (simp_all add: result_data_def)

text \<open>When the specified answer is a success, and what it is then.\<close>

lemma event_response_success:
  assumes "\<And>e. \<not> crd_success (result_data_error ext e)"
  shows "crd_success (event_response ext sd sb ib eb owner cb) \<longleftrightarrow>
    (\<exists>st ev bytes.
       chosen_state ext sd sb ib = Inr st \<and>
       parse_payload ext (json_event_de sd) ''Event'' eb = Inr ev \<and>
       (let r = cb \<lparr>event = ev, is_owner = (owner = 1)\<rparr> (contract_result_new st)
        in success r \<and> json_state_ser sd (state r) = Inr bytes \<and>
           event_response ext sd sb ib eb owner cb =
             \<lparr>crd_final_state = bytes, crd_success = True, crd_error = ''''\<rparr>))"
  using assms
  by (auto simp: event_response_def event_outcome_def Let_def OWNER_FLAG_def result_data_def
      split: sum.splits)

text \<open>The specified answer when the current state cannot be decoded.\<close>

lemma event_response_fallback:
  assumes "parse_payload ext (json_state_de sd) ''State'' sb = Inl e1"
  shows "(\<forall>st. parse_payload ext (json_state_de sd) ''Init State'' ib = Inr st \<longrightarrow>
      event_response ext sd sb ib eb owner cb = event_response ext sd ib ib eb owner cb) \<and>
    (\<forall>e2. parse_payload ext (json_state_de sd) ''Init State'' ib = Inl e2 \<longrightarrow>
      event_response ext sd sb ib eb owner cb =
        result_data_error ext (e1 @ ''; fallback to init state also failed: '' @ e2))"
  using assms parse_payload_name [of ext "json_state_de sd" "''Init State''" ib _ "''State''"]
  by (auto simp: event_response_def event_outcome_def chosen_state_def)

text \<open>
  The last call decides: after any sequence of \<open>accept\<close> and \<open>reject\<close> calls on a new
  result the state is untouched, the result is successful exactly when the last call was an
  \<open>accept\<close>, and the error is the message of the last \<open>reject\<close>, if there was one.
\<close>

lemma verdict_last_call:
  "let r = foldl apply_verdict (contract_result_new st) vs
   in state r = st \<and>
      (success r \<longleftrightarrow> vs \<noteq> [] \<and> last vs = Accept) \<and>
      error r = last ('''' # [m. Reject m \<leftarrow> vs])"
proof (induction vs rule: rev_induct)
  case Nil
  then show ?case by (simp add: contract_result_new_def)
next
  case (snoc v vs)
  then show ?case
    by (cases v) (auto simp: Let_def accept_def reject_def)
qed

text \<open>On a host whose calls return, whatever they return, so does every step of the SDK.\<close>

definition answers :: "('h, 't) host_ops \<Rightarrow> bool" where
  "answers ops \<longleftrightarrow>
     (\<forall>h n. unat n \<le> i32_max \<longrightarrow> (\<exists>p h'. ho_alloc ops h n = Ok (p, h'))) \<and>
     (\<forall>h p bs. length bs \<le> 10000000 \<longrightarrow> (\<exists>d h'. ho_read ops h p bs = Ok (d, h'))) \<and>
     (\<forall>h p bs. p \<noteq> 0 \<longrightarrow> length bs \<le> i32_max \<longrightarrow> (\<exists>h'. ho_write ops h p bs = Ok h'))"

lemma get_from_context_returns:
  assumes "answers ops"
  shows "\<exists>r h'. get_from_context ops p h = Ok (r, h')"
proof (cases "validate_host_len (ho_pointer_len ops h p)")
  case (Inr n)
  then have "length (replicate n (0 :: byte)) \<le> 10000000"
    by (auto simp: validate_host_len_def MAX_DATA_SIZE_def split: if_splits)
  with assms obtain d h' where "ho_read ops h p (replicate n 0) = Ok (d, h')"
    unfolding answers_def by blast
  with Inr show ?thesis by (simp add: get_from_context_def)
qed (simp add: get_from_context_def)

lemma read_and_parse_returns:
  assumes "answers ops"
  shows "\<exists>r h'. read_and_parse ops ext de p name h = Ok (r, h')"
  using get_from_context_returns [OF assms, of p h]
  by (auto simp: read_and_parse_def split: sum.split)

lemma store_returns:
  assumes "answers ops"
  shows "\<exists>r h'. store ops ser d h = Ok (r, h')"
proof (cases "serialize ser d")
  case (Inr bytes)
  show ?thesis
  proof (cases "validate_serialized_len bytes")
    case (Inr n)
    then have n: "length bytes \<le> i32_max" "n = usize_as_u32 (length bytes)"
      by (auto simp: validate_serialized_len_def split: if_splits)
    then have "unat n \<le> i32_max" by (simp add: usize_as_u32_id i32_max_def)
    with assms obtain p h1 where a: "ho_alloc ops h n = Ok (p, h1)" unfolding answers_def by blast
    have "\<exists>h2. ho_write ops h1 p bytes = Ok h2" if "p \<noteq> 0"
      using assms n(1) that unfolding answers_def by blast
    with Inr a \<open>serialize ser d = Inr bytes\<close> show ?thesis by (auto simp: store_def)
  qed (use Inr in \<open>simp add: store_def\<close>)
qed (simp add: store_def)

lemma store_total:
  assumes "answers ops"
  shows "\<exists>f g. \<forall>d h. store ops ser d h = Ok (f d h, g d h)"
proof -
  have "\<forall>d h. \<exists>x. store ops ser d h = Ok x" using store_returns [OF assms, of ser] by blast
  then obtain k where "\<And>d h. store ops ser d h = Ok (k d h)" by metis
  then show ?thesis
    by (intro exI [of _ "\<lambda>d h. fst (k d h)"] exI [of _ "\<lambda>d h. snd (k d h)"]) simp
qed

lemma read_state_or_init_returns:
  assumes "answers ops"
  shows "\<exists>r h'. read_state_or_init ops ext sd sp ip h = Ok (r, h')"
proof -
  obtain r1 h1 where 1: "read_and_parse ops ext (json_state_de sd) sp ''State'' h = Ok (r1, h1)"
    using read_and_parse_returns [OF assms] by blast
  obtain r2 h2 where "read_and_parse ops ext (json_state_de sd) ip ''Init State'' h1 = Ok (r2, h2)"
    using read_and_parse_returns [OF assms] by blast
  with 1 show ?thesis by (auto simp: read_state_or_init_def split: sum.split)
qed

lemma try_execute_contract_returns:
  assumes "answers ops"
  shows "\<exists>r h'. try_execute_contract ops ext sd sp ip ep owner cb h = Ok (r, h')"
proof -
  obtain r1 h1 where 1: "read_state_or_init ops ext sd sp ip h = Ok (r1, h1)"
    using read_state_or_init_returns [OF assms] by blast
  obtain r2 h2 where 2: "read_and_parse ops ext (json_event_de sd) ep ''Event'' h1 = Ok (r2, h2)"
    using read_and_parse_returns [OF assms] by blast
  obtain f g where "\<forall>d h. store ops (borsh_result_ser ext) d h = Ok (f d h, g d h)"
    using store_total [OF assms, of "borsh_result_ser ext"] by blast
  with 1 2 show ?thesis by (auto simp: try_execute_contract_def Let_def split: sum.split)
qed

lemma try_check_init_data_returns:
  assumes "answers ops"
  shows "\<exists>r h'. try_check_init_data ops ext sd sp cb h = Ok (r, h')"
proof -
  obtain r1 h1 where 1: "read_and_parse ops ext (json_state_de sd) sp ''State'' h = Ok (r1, h1)"
    using read_and_parse_returns [OF assms] by blast
  obtain f g where "\<forall>d h. store ops (borsh_init_ser ext) d h = Ok (f d h, g d h)"
    using store_total [OF assms, of "borsh_init_ser ext"] by blast
  with 1 show ?thesis by (auto simp: try_check_init_data_def Let_def split: sum.split)
qed

text \<open>
  (C17) The guest side never fails on its own: on any host whose calls return, however wrong their
  answers are (forged lengths, short or garbage reads, null pointers), and for any codecs, both
  entry points return a pointer; and they only ever ask the host to fill buffers of at most
  10,000,000 bytes, to allocate and to copy at most \<open>i32::MAX\<close> bytes, and never to write
  through a null pointer.
\<close>

theorem entry_points_return:
  assumes "answers ops"
  shows "(\<exists>p h'. execute_contract ops ext sd sp ip ep owner cb h = Ok (p, h')) \<and>
    (\<exists>p h'. check_init_data ops ext sd sp ccb h = Ok (p, h'))"
proof -
  obtain r1 h1 r2 h2 where
    "try_execute_contract ops ext sd sp ip ep owner cb h = Ok (r1, h1)"
    "try_check_init_data ops ext sd sp ccb h = Ok (r2, h2)"
    using try_execute_contract_returns [OF assms] try_check_init_data_returns [OF assms] by metis
  moreover obtain f g where "\<forall>d h. store ops (borsh_result_ser ext) d h = Ok (f d h, g d h)"
    using store_total [OF assms, of "borsh_result_ser ext"] by blast
  moreover obtain f' g' where "\<forall>d h. store ops (borsh_init_ser ext) d h = Ok (f' d h, g' d h)"
    using store_total [OF assms, of "borsh_init_ser ext"] by blast
  ultimately show ?thesis
    by (auto simp: execute_contract_def check_init_data_def split: sum.split)
qed

text \<open>
  The two length checks of the guest at 32 bits: a host length is accepted exactly between 0
  and 10,000,000 and then keeps its value; a serialised answer is accepted exactly up to
  \<open>i32::MAX\<close> bytes and then the length passed to the allocator is exact. On any host, a read
  with a refused length makes no further host call: it answers the matching error (an unknown
  pointer, whose length is -1, is the negative case) and leaves the host as it is; with an accepted
  length it asks for exactly that many bytes.
\<close>

lemma guest_length_checks:
  "(validate_host_len len = Inr n \<longleftrightarrow> 0 \<le> sint len \<and> sint len \<le> 10000000 \<and> int n = sint len) \<and>
   ((\<exists>w. validate_serialized_len bytes = Inr w) \<longleftrightarrow> length bytes < 2 ^ 31) \<and>
   (\<forall>w. validate_serialized_len bytes = Inr w \<longrightarrow> unat w = length bytes) \<and>
   (let l = sint (ho_pointer_len ops h p)
    in get_from_context ops p h =
         (if l < 0 then Ok (Inl (Deserialization ''Invalid negative length from host''), h)
          else if l > 10000000 then Ok (Inl (MemoryLimitExceeded (nat l) 10000000), h)
          else obind (ho_read ops h p (replicate (nat l) 0)) (\<lambda>(dat, h'). Ok (Inr dat, h'))))"
  by (auto simp: validate_host_len_def MAX_DATA_SIZE_def validate_serialized_len_def i32_max_def
      usize_as_u32_id get_from_context_def Let_def)


end
