(* ===== verification/Ave_Codecs.thy ===== *)
theory Ave_Codecs
  imports Ave_Sdk
begin

text \<open>
  What the program relies on of the Borsh codecs and of \<open>ave_common\<close>, as one named predicate,
  \<open>codec_laws\<close>: a \<open>ContractData\<close> is decoded from its documented framing (a little-endian
  \<open>u32\<close> length and the bytes); what is serialised is decoded to the same value and is not
  empty; the \<open>error\<close> constructors build unsuccessful values with the given message and
  \<open>ok\<close> a successful one.

  \<open>ref_ext\<close> is a concrete instance, the Borsh format written out (vectors and strings with a
  \<open>u32\<close> length, \<open>bool\<close> as one byte, structs as the concatenation of their fields, all
  input consumed). It shows that the laws can hold and evaluates the witnesses.

  With the laws, the main entry point is characterised on every host that implements the boundary:
  when an event succeeds, and how the initial state stands in for a state that does not parse.
\<close>

section \<open>The laws\<close>

text \<open>The framing of \<open>ContractData\<close> on the wire.\<close>

definition borsh_frame :: "byte list \<Rightarrow> byte list" where
  "borsh_frame payload = u32_to_le_bytes (usize_as_u32 (length payload)) @ payload"

definition codec_laws :: "sdk_ext \<Rightarrow> bool" where
  "codec_laws ext \<longleftrightarrow>
     (\<forall>p. length p < 2 ^ 32 \<longrightarrow> borsh_data_de ext (borsh_frame p) = Inr p) \<and>
     (\<forall>d bs. borsh_result_ser ext d = Inr bs \<longrightarrow> bs \<noteq> [] \<and> borsh_result_de ext bs = Inr d) \<and>
     (\<forall>d bs. borsh_init_ser ext d = Inr bs \<longrightarrow> bs \<noteq> [] \<and> borsh_init_de ext bs = Inr d) \<and>
     (\<forall>e. \<not> crd_success (result_data_error ext e) \<and> crd_error (result_data_error ext e) = e) \<and>
     (\<forall>e. \<not> cid_success (init_data_error ext e) \<and> cid_error (init_data_error ext e) = e) \<and>
     cid_success (init_data_ok ext)"

lemma codec_lawsD:
  assumes "codec_laws ext"
  shows "length p < 2 ^ 32 \<Longrightarrow> borsh_data_de ext (borsh_frame p) = Inr p"
    and "borsh_result_ser ext d = Inr bs \<Longrightarrow> borsh_result_de ext bs = Inr d"
    and "borsh_result_ser ext d = Inr bs \<Longrightarrow> bs \<noteq> []"
    and "borsh_init_ser ext i = Inr bs \<Longrightarrow> borsh_init_de ext bs = Inr i"
    and "borsh_init_ser ext i = Inr bs \<Longrightarrow> bs \<noteq> []"
    and "\<not> crd_success (result_data_error ext e)" and "crd_error (result_data_error ext e) = e"
    and "\<not> cid_success (init_data_error ext e)" and "cid_error (init_data_error ext e) = e"
    and "cid_success (init_data_ok ext)"
  using assms unfolding codec_laws_def by blast+

lemma length_borsh_frame [simp]: "length (borsh_frame p) = 4 + length p"
  by (simp add: borsh_frame_def)

lemma parse_payload_frame:
  assumes "codec_laws ext" and "length p < 2 ^ 32"
  shows "parse_payload ext de name (borsh_frame p) =
    (case de p of Inl e \<Rightarrow> Inl (''Cannot parse '' @ name @ '' from JSON bytes: '' @ e) | Inr v \<Rightarrow> Inr v)"
  using codec_lawsD(1) [OF assms] by (simp add: parse_payload_def)

section \<open>Little-endian lengths\<close>

definition le_nat :: "byte list \<Rightarrow> nat" where
  "le_nat bs = foldr (\<lambda>b acc. unat b + 256 * acc) bs 0"

lemma unat_low_byte: "unat (ucast w :: byte) = unat w mod 256" for w :: u32
  by (simp add: unsigned_ucast_eq take_bit_eq_mod)

lemma unat_shifted_byte: "unat (drop_bit k w) = unat w div 2 ^ k" for w :: u32
  by (simp only: unat_drop_bit_eq) (simp only: drop_bit_eq_div)

lemma base_256:
  "n < 2 ^ 32 \<Longrightarrow>
   n mod 256 + 256 * (n div 2 ^ 8 mod 256 + 256 * (n div 2 ^ 16 mod 256 + 256 * (n div 2 ^ 24 mod 256))) = n"
  for n :: nat
proof -
  assume "n < 2 ^ 32"
  then have "n div 256 div 256 div 256 < 256" by (simp add: less_mult_imp_div_less)
  then have "n div 256 div 256 div 256 mod 256 = n div 256 div 256 div 256" by (rule mod_less)
  moreover have "n div 2 ^ 16 = n div 256 div 256" "n div 2 ^ 24 = n div 256 div 256 div 256"
    by (simp_all add: div_mult2_eq [symmetric])
  ultimately show ?thesis by (simp only: mod_mult_div_eq) simp
qed

lemma le_nat_u32: "le_nat (u32_to_le_bytes w) = unat w"
proof -
  have b: "unat w < 2 ^ 32"
    using unsigned_less [of w, where ?'a = nat] by simp
  have "le_nat (u32_to_le_bytes w) =
    unat w mod 256 + 256 * (unat w div 2 ^ 8 mod 256 + 256 * (unat w div 2 ^ 16 mod 256 +
      256 * (unat w div 2 ^ 24 mod 256)))"
    by (simp only: le_nat_def u32_to_le_bytes_def foldr.simps o_apply id_apply unat_low_byte
        unat_shifted_byte mult_0_right add_0_right)
  also have "\<dots> = unat w" using b by (rule base_256)
  finally show ?thesis .
qed

section \<open>A reference instance\<close>

definition dec_bytes :: "byte list \<Rightarrow> (byte list \<times> byte list) option" where
  "dec_bytes bs =
     (let n = le_nat (take 4 bs); rest = drop 4 bs
      in if length bs < 4 \<or> length rest < n then None else Some (take n rest, drop n rest))"

lemma dec_bytes_frame: "length p < 2 ^ 32 \<Longrightarrow> dec_bytes (borsh_frame p @ rest) = Some (p, rest)"
  by (simp add: dec_bytes_def borsh_frame_def le_nat_u32 usize_as_u32_id)

fun dec_bool :: "byte list \<Rightarrow> (bool \<times> byte list) option" where
  "dec_bool [] = None"
| "dec_bool (b # bs) = (if b = 0 then Some (False, bs) else if b = 1 then Some (True, bs) else None)"

definition enc_bool :: "bool \<Rightarrow> byte list" where
  "enc_bool b = [if b then 1 else 0]"

lemma dec_enc_bool [simp]: "dec_bool (enc_bool b @ bs) = Some (b, bs)"
  by (simp add: enc_bool_def)

definition string_bytes :: "string \<Rightarrow> byte list" where
  "string_bytes s = map (\<lambda>c. word_of_nat (of_char c)) s"

definition bytes_string :: "byte list \<Rightarrow> string" where
  "bytes_string bs = map (\<lambda>b. char_of (unat b)) bs"

lemma bytes_string_bytes [simp]: "bytes_string (string_bytes s) = s"
proof -
  have "char_of (unat (word_of_nat (of_char c) :: byte)) = c" for c
    by (simp add: unat_of_nat)
  then show ?thesis by (simp add: bytes_string_def string_bytes_def map_idI)
qed

lemma length_string_bytes [simp]: "length (string_bytes s) = length s"
  by (simp add: string_bytes_def)

definition ref_result_ser :: "contract_result_data \<Rightarrow> string + byte list" where
  "ref_result_ser d =
     (if length (crd_final_state d) < 2 ^ 32 \<and> length (crd_error d) < 2 ^ 32
      then Inr (borsh_frame (crd_final_state d) @ enc_bool (crd_success d) @
                borsh_frame (string_bytes (crd_error d)))
      else Inl ''invalid input'')"

definition ref_result_de :: "byte list \<Rightarrow> string + contract_result_data" where
  "ref_result_de bs =
     (case dec_bytes bs of
        None \<Rightarrow> Inl ''Unexpected length of input''
      | Some (st, bs1) \<Rightarrow>
          (case dec_bool bs1 of
             None \<Rightarrow> Inl ''Invalid bool representation''
           | Some (ok, bs2) \<Rightarrow>
               (case dec_bytes bs2 of
                  None \<Rightarrow> Inl ''Unexpected length of input''
                | Some (e, bs3) \<Rightarrow>
                    if bs3 \<noteq> [] then Inl ''Not all bytes read''
                    else Inr \<lparr>crd_final_state = st, crd_success = ok, crd_error = bytes_string e\<rparr>)))"

definition ref_init_ser :: "contract_init_check_data \<Rightarrow> string + byte list" where
  "ref_init_ser d =
     (if length (cid_error d) < 2 ^ 32
      then Inr (enc_bool (cid_success d) @ borsh_frame (string_bytes (cid_error d)))
      else Inl ''invalid input'')"

definition ref_init_de :: "byte list \<Rightarrow> string + contract_init_check_data" where
  "ref_init_de bs =
     (case dec_bool bs of
        None \<Rightarrow> Inl ''Invalid bool representation''
      | Some (ok, bs1) \<Rightarrow>
          (case dec_bytes bs1 of
             None \<Rightarrow> Inl ''Unexpected length of input''
           | Some (e, bs2) \<Rightarrow>
               if bs2 \<noteq> [] then Inl ''Not all bytes read''
               else Inr \<lparr>cid_success = ok, cid_error = bytes_string e\<rparr>))"

definition ref_data_de :: "byte list \<Rightarrow> string + byte list" where
  "ref_data_de bs =
     (case dec_bytes bs of
        None \<Rightarrow> Inl ''Unexpected length of input''
      | Some (p, rest) \<Rightarrow> if rest \<noteq> [] then Inl ''Not all bytes read'' else Inr p)"

text \<open>The final state of an error answer is the JSON text \<open>null\<close>.\<close>

definition ref_ext :: sdk_ext where
  "ref_ext =
     \<lparr>borsh_data_de = ref_data_de,
      borsh_result_ser = ref_result_ser, borsh_result_de = ref_result_de,
      borsh_init_ser = ref_init_ser, borsh_init_de = ref_init_de,
      result_data_error = (\<lambda>e. \<lparr>crd_final_state = [0x6E, 0x75, 0x6C, 0x6C], crd_success = False, crd_error = e\<rparr>),
      init_data_ok = \<lparr>cid_success = True, cid_error = ''''\<rparr>,
      init_data_error = (\<lambda>e. \<lparr>cid_success = False, cid_error = e\<rparr>)\<rparr>"

lemma ref_result_round_trip: "ref_result_ser d = Inr bs \<Longrightarrow> ref_result_de bs = Inr d \<and> bs \<noteq> []"
  using dec_bytes_frame [of "string_bytes (crd_error d)" "[]"]
  by (auto simp: ref_result_ser_def ref_result_de_def dec_bytes_frame enc_bool_def split: if_splits)

lemma ref_init_round_trip: "ref_init_ser d = Inr bs \<Longrightarrow> ref_init_de bs = Inr d \<and> bs \<noteq> []"
  using dec_bytes_frame [of "string_bytes (cid_error d)" "[]"]
  by (auto simp: ref_init_ser_def ref_init_de_def enc_bool_def split: if_splits)

lemma ref_data_frame: "length p < 2 ^ 32 \<Longrightarrow> ref_data_de (borsh_frame p) = Inr p"
  using dec_bytes_frame [of p "[]"] by (simp add: ref_data_de_def)

lemma codec_laws_ref_ext: "codec_laws ref_ext"
  using ref_result_round_trip ref_init_round_trip ref_data_frame
  by (simp add: codec_laws_def ref_ext_def)

section \<open>The main entry point on any lawful host\<close>

text \<open>
  The host is any implementation of the boundary: operations with an invariant, a view and room
  that satisfy the locale. The three pointers lead to framed payloads within the guest's limit.
\<close>

lemma framed_size: "length p < 9999997 \<Longrightarrow> int (length (borsh_frame p)) \<le> MAX_DATA_SIZE"
  by (simp add: MAX_DATA_SIZE_def)

lemma execute_contract_framed:
  assumes "host_abi_live ops hinv view room" and "codec_laws ext" and "hinv h"
    and "view h sp = Some (borsh_frame s)" "view h ip = Some (borsh_frame i)" "view h ep = Some (borsh_frame e)"
    and "length s < 9999997" "length i < 9999997" "length e < 9999997"
    and "borsh_result_ser ext
           (event_response ext sd (borsh_frame s) (borsh_frame i) (borsh_frame e) owner cb) = Inr bytes"
    and "room h (length bytes)"
  shows "\<exists>p h'. execute_contract ops ext sd sp ip ep owner cb h = Ok (p, h') \<and> p \<noteq> 0 \<and>
    view h p = None \<and> view h' = (view h)(p \<mapsto> bytes)"
  using host_abi_live.execute_contract_known [OF assms(1,3,4) framed_size [OF assms(7)] assms(5)
      framed_size [OF assms(8)] assms(6) framed_size [OF assms(9)] assms(10)
      codec_lawsD(3) [OF assms(2,10)] assms(11)]
  by blast

text \<open>
  (C16) When an event succeeds, on any lawful host: \<open>execute_contract\<close> returns a fresh non-null
  pointer, the answer behind it decodes, and it is a success exactly when the current state (or,
  failing that, the initial state) and the event parse, the contract accepts the event with the
  ownership flag it was called with, and its final state serialises. The answer then carries
  exactly that final state and an empty error, even if the contract rejected before it accepted.
\<close>

theorem event_success_iff:
  assumes "host_abi_live ops hinv view room" and "codec_laws ext" and "hinv h"
    and "view h sp = Some (borsh_frame s)" "view h ip = Some (borsh_frame i)" "view h ep = Some (borsh_frame e)"
    and "length s < 9999997" "length i < 9999997" "length e < 9999997"
    and "borsh_result_ser ext
           (event_response ext sd (borsh_frame s) (borsh_frame i) (borsh_frame e) owner cb) = Inr bytes"
    and "room h (length bytes)"
  shows "\<exists>p h' d. execute_contract ops ext sd sp ip ep owner cb h = Ok (p, h') \<and> p \<noteq> 0 \<and>
    view h p = None \<and> view h' = (view h)(p \<mapsto> bytes) \<and> borsh_result_de ext bytes = Inr d \<and>
    (crd_success d \<longleftrightarrow>
      (\<exists>st ev final.
        (json_state_de sd s = Inr st \<or> (\<exists>err. json_state_de sd s = Inl err) \<and> json_state_de sd i = Inr st) \<and>
        json_event_de sd e = Inr ev \<and>
        (let r = cb \<lparr>event = ev, is_owner = (owner = 1)\<rparr> (contract_result_new st)
         in success r \<and> json_state_ser sd (state r) = Inr final \<and>
            d = \<lparr>crd_final_state = final, crd_success = True, crd_error = ''''\<rparr>)))"
proof -
  have len: "length s < 2 ^ 32" "length i < 2 ^ 32" "length e < 2 ^ 32" using assms(7-9) by simp_all
  note parse = len [THEN parse_payload_frame [OF assms(2)]]
  have "crd_success (event_response ext sd (borsh_frame s) (borsh_frame i) (borsh_frame e) owner cb) \<longleftrightarrow>
      (\<exists>st ev final.
        (json_state_de sd s = Inr st \<or> (\<exists>err. json_state_de sd s = Inl err) \<and> json_state_de sd i = Inr st) \<and>
        json_event_de sd e = Inr ev \<and>
        (let r = cb \<lparr>event = ev, is_owner = (owner = 1)\<rparr> (contract_result_new st)
         in success r \<and> json_state_ser sd (state r) = Inr final \<and>
            event_response ext sd (borsh_frame s) (borsh_frame i) (borsh_frame e) owner cb =
              \<lparr>crd_final_state = final, crd_success = True, crd_error = ''''\<rparr>))"
    by (subst event_response_success [OF codec_lawsD(6) [OF assms(2)]])
      (auto simp: chosen_state_def parse Let_def split: sum.splits)
  with execute_contract_framed [OF assms] codec_lawsD(2) [OF assms(2,10)] show ?thesis by blast
qed

text \<open>
  (C33) Bootstrapping from the initial state, on any lawful host: when the current state does not
  parse, \<open>read_state_or_init\<close> changes nothing and answers the initial state, or an error that
  chains both causes. So with an initial state that parses, \<open>execute_contract\<close> returns the
  same bytes as for a subject whose current state is the initial state; with one that does not, it
  returns the encoded chained error, whatever the event and the contract are.
\<close>

theorem init_state_fallback:
  assumes "host_abi_live ops hinv view room" and "codec_laws ext" and "hinv h"
    and "view h sp = Some (borsh_frame s)" "view h ip = Some (borsh_frame i)" "view h ep = Some (borsh_frame e)"
    and "length s < 9999997" "length i < 9999997" "length e < 9999997"
    and "borsh_result_ser ext
           (event_response ext sd (borsh_frame s) (borsh_frame i) (borsh_frame e) owner cb) = Inr bytes"
    and "room h (length bytes)" and "json_state_de sd s = Inl e1"
  shows "\<exists>h1 p h2.
    read_state_or_init ops ext sd sp ip h =
      Ok (case json_state_de sd i of
            Inr st \<Rightarrow> Inr st
          | Inl e2 \<Rightarrow> Inl (''Cannot parse State from JSON bytes: '' @ e1 @
              ''; fallback to init state also failed: Cannot parse Init State from JSON bytes: '' @ e2), h1) \<and>
    view h1 = view h \<and>
    execute_contract ops ext sd sp ip ep owner cb h = Ok (p, h2) \<and> view h2 p = Some bytes \<and>
    (\<forall>st. json_state_de sd i = Inr st \<longrightarrow>
      (\<exists>q h3. execute_contract ops ext sd ip ip ep owner cb h = Ok (q, h3) \<and> view h3 q = Some bytes)) \<and>
    (\<forall>e2. json_state_de sd i = Inl e2 \<longrightarrow>
      borsh_result_de ext bytes =
        Inr (result_data_error ext (''Cannot parse State from JSON bytes: '' @ e1 @
          ''; fallback to init state also failed: Cannot parse Init State from JSON bytes: '' @ e2)))"
proof -
  have len: "length s < 2 ^ 32" "length i < 2 ^ 32" using assms(7,8) by simp_all
  note parse = len [THEN parse_payload_frame [OF assms(2)]]
  have bad: "parse_payload ext (json_state_de sd) ''State'' (borsh_frame s) =
      Inl (''Cannot parse State from JSON bytes: '' @ e1)"
    using assms(12) by (simp add: parse)
  note fallback = event_response_fallback [OF bad, of "borsh_frame i" "borsh_frame e" owner cb]
  have chosen: "\<exists>h1. read_state_or_init ops ext sd sp ip h =
      Ok (chosen_state ext sd (borsh_frame s) (borsh_frame i), h1) \<and> view h1 = view h"
    using host_abi_live.read_state_or_init_known [OF assms(1,3,4) framed_size [OF assms(7)] assms(5)
        framed_size [OF assms(8)]] host_abi_live.same_host_def [OF assms(1)] by metis
  have again: "\<exists>q h3. execute_contract ops ext sd ip ip ep owner cb h = Ok (q, h3) \<and> view h3 q = Some bytes"
    if "json_state_de sd i = Inr st" for st
  proof -
    have "event_response ext sd (borsh_frame i) (borsh_frame i) (borsh_frame e) owner cb =
        event_response ext sd (borsh_frame s) (borsh_frame i) (borsh_frame e) owner cb"
      using fallback that by (simp add: parse)
    then have "borsh_result_ser ext
        (event_response ext sd (borsh_frame i) (borsh_frame i) (borsh_frame e) owner cb) = Inr bytes"
      using assms(10) by simp
    from execute_contract_framed [OF assms(1-3,5,5,6,8,8,9) this assms(11)] show ?thesis by auto
  qed
  have chained: "borsh_result_de ext bytes =
      Inr (result_data_error ext (''Cannot parse State from JSON bytes: '' @ e1 @
        ''; fallback to init state also failed: Cannot parse Init State from JSON bytes: '' @ e2))"
    if "json_state_de sd i = Inl e2" for e2
    using codec_lawsD(2) [OF assms(2,10)] fallback that by (simp add: parse)
  have spec: "chosen_state ext sd (borsh_frame s) (borsh_frame i) =
      (case json_state_de sd i of
         Inr st \<Rightarrow> Inr st
       | Inl e2 \<Rightarrow> Inl (''Cannot parse State from JSON bytes: '' @ e1 @
           ''; fallback to init state also failed: Cannot parse Init State from JSON bytes: '' @ e2))"
    by (simp add: chosen_state_def parse assms(12) split: sum.split)
  obtain p h2 where "execute_contract ops ext sd sp ip ep owner cb h = Ok (p, h2)" "view h2 p = Some bytes"
    using execute_contract_framed [OF assms(1-11)] by auto
  with chosen again chained show ?thesis unfolding spec by blast
qed

end
