(* ===== verification/Ave_Contracts.thy ===== *)
theory Ave_Contracts
  imports Ave_Codecs
begin

text \<open>
  The contracts of the repository: \<open>example\<close>, \<open>example2\<close> and \<open>example-malicious\<close>, each
  with its state, its events, its callback \<open>contract_logic\<close>, its \<open>init_logic\<close> and the two
  exported functions. Constants of the second and third crate carry the suffix \<open>2\<close> and
  \<open>_mal\<close>. The JSON codecs of the derived \<open>Serialize\<close> and \<open>Deserialize\<close> instances
  stay parameters; \<open>ref_serde\<close> is one concrete pair for evaluation.

  What a ledger does with a contract is the fold \<open>apply_events\<close>: an event that succeeds replaces
  the state by the result's state, an event that fails leaves it.
\<close>

section \<open>The example contract\<close>

record example_state =
  one :: u32
  two :: u32
  three :: u32

datatype state_event =
    ModOne u32
  | ModTwo u32
  | ModThree u32
  | ModAll u32 u32 u32
  | ResetAll

text \<open>The mutations go through \<open>&mut contract_result.state\<close>: they update the state field of the
  result, and an early \<open>return\<close> skips the final \<open>accept\<close>.\<close>

definition contract_logic ::
    "state_event sdk_context \<Rightarrow> example_state contract_result \<Rightarrow> example_state contract_result" where
  "contract_logic context r =
     (let st = state r in
      case event context of
        ModOne d \<Rightarrow> accept (r\<lparr>state := st\<lparr>one := d\<rparr>\<rparr>)
      | ModTwo d \<Rightarrow> accept (r\<lparr>state := st\<lparr>two := d\<rparr>\<rparr>)
      | ModThree d \<Rightarrow>
          if d = 50 then reject r ''Can not change three value, 50 is a invalid value''
          else accept (r\<lparr>state := st\<lparr>three := d\<rparr>\<rparr>)
      | ModAll a b c \<Rightarrow> accept (r\<lparr>state := st\<lparr>one := a, two := b, three := c\<rparr>\<rparr>)
      | ResetAll \<Rightarrow>
          (case require_owner context r of
             (False, r') \<Rightarrow> r'
           | (True, r') \<Rightarrow> accept (r'\<lparr>state := st\<lparr>one := 0, two := 0, three := 0\<rparr>\<rparr>)))"

definition init_logic :: "example_state \<Rightarrow> contract_init_check \<Rightarrow> contract_init_check" where
  "init_logic st check = ic_accept check"

definition main_function ::
    "('h, 't) host_ops \<Rightarrow> sdk_ext \<Rightarrow> (example_state, state_event) serde \<Rightarrow> i32 \<Rightarrow> i32 \<Rightarrow> i32 \<Rightarrow> i32 \<Rightarrow> 'h \<Rightarrow>
     (u32 \<times> 'h, 't) outcome" where
  "main_function ops ext sd state_ptr init_state_ptr event_ptr owner h =
     execute_contract ops ext sd state_ptr init_state_ptr event_ptr owner contract_logic h"

definition init_check_function ::
    "('h, 't) host_ops \<Rightarrow> sdk_ext \<Rightarrow> (example_state, state_event) serde \<Rightarrow> i32 \<Rightarrow> 'h \<Rightarrow>
     (u32 \<times> 'h, 't) outcome" where
  "init_check_function ops ext sd state_ptr h = check_init_data ops ext sd state_ptr init_logic h"

section \<open>The second example\<close>

record example2_state =
  data2 :: string

datatype state_event2 = ChangeData string

definition contract_logic2 ::
    "state_event2 sdk_context \<Rightarrow> example2_state contract_result \<Rightarrow> example2_state contract_result" where
  "contract_logic2 context r =
     (case event context of ChangeData d \<Rightarrow> accept (r\<lparr>state := (state r)\<lparr>data2 := d\<rparr>\<rparr>))"

definition init_logic2 :: "example2_state \<Rightarrow> contract_init_check \<Rightarrow> contract_init_check" where
  "init_logic2 st check = ic_accept check"

definition main_function2 ::
    "('h, 't) host_ops \<Rightarrow> sdk_ext \<Rightarrow> (example2_state, state_event2) serde \<Rightarrow> i32 \<Rightarrow> i32 \<Rightarrow> i32 \<Rightarrow> i32 \<Rightarrow> 'h \<Rightarrow>
     (u32 \<times> 'h, 't) outcome" where
  "main_function2 ops ext sd state_ptr init_state_ptr event_ptr owner h =
     execute_contract ops ext sd state_ptr init_state_ptr event_ptr owner contract_logic2 h"

definition init_check_function2 ::
    "('h, 't) host_ops \<Rightarrow> sdk_ext \<Rightarrow> (example2_state, state_event2) serde \<Rightarrow> i32 \<Rightarrow> 'h \<Rightarrow>
     (u32 \<times> 'h, 't) outcome" where
  "init_check_function2 ops ext sd state_ptr h = check_init_data ops ext sd state_ptr init_logic2 h"

section \<open>The malicious example\<close>

text \<open>
  \<open>env!(..)\<close> is evaluated by the compiler: the build environment is a map from names to values,
  and without the variable there is no contract at all.
\<close>

record malicious_state =
  one_mal :: u32

datatype state_event_mal = ModOne_mal u32

definition STOLEN :: "(string \<rightharpoonup> string) \<Rightarrow> string option" where
  "STOLEN build_env = build_env ''AVE_SECRET_SENTINEL''"

definition contract_logic_mal ::
    "state_event_mal sdk_context \<Rightarrow> malicious_state contract_result \<Rightarrow> malicious_state contract_result" where
  "contract_logic_mal context r =
     (case event context of ModOne_mal d \<Rightarrow> accept (r\<lparr>state := (state r)\<lparr>one_mal := d\<rparr>\<rparr>))"

definition init_logic_mal :: "malicious_state \<Rightarrow> contract_init_check \<Rightarrow> contract_init_check" where
  "init_logic_mal st check = ic_accept check"

text \<open>The compiled entry point, if the crate compiles. The length of the stolen value is computed and
  dropped.\<close>

definition main_function_mal ::
    "(string \<rightharpoonup> string) \<Rightarrow> ('h, 't) host_ops \<Rightarrow> sdk_ext \<Rightarrow> (malicious_state, state_event_mal) serde \<Rightarrow>
     (i32 \<Rightarrow> i32 \<Rightarrow> i32 \<Rightarrow> i32 \<Rightarrow> 'h \<Rightarrow> (u32 \<times> 'h, 't) outcome) option" where
  "main_function_mal build_env ops ext sd =
     (case STOLEN build_env of
        None \<Rightarrow> None
      | Some stolen \<Rightarrow>
          Some (\<lambda>state_ptr init_state_ptr event_ptr owner h.
            let _ = length stolen
            in execute_contract ops ext sd state_ptr init_state_ptr event_ptr owner contract_logic_mal h))"

definition init_check_function_mal ::
    "(string \<rightharpoonup> string) \<Rightarrow> ('h, 't) host_ops \<Rightarrow> sdk_ext \<Rightarrow> (malicious_state, state_event_mal) serde \<Rightarrow>
     (i32 \<Rightarrow> 'h \<Rightarrow> (u32 \<times> 'h, 't) outcome) option" where
  "init_check_function_mal build_env ops ext sd =
     (case STOLEN build_env of
        None \<Rightarrow> None
      | Some _ \<Rightarrow> Some (\<lambda>state_ptr h. check_init_data ops ext sd state_ptr init_logic_mal h))"

section \<open>A ledger over a contract\<close>

definition apply_event ::
    "('e sdk_context \<Rightarrow> 's contract_result \<Rightarrow> 's contract_result) \<Rightarrow> 's \<Rightarrow> 'e \<times> bool \<Rightarrow> 's" where
  "apply_event logic st = (\<lambda>(ev, own).
     let r = logic \<lparr>event = ev, is_owner = own\<rparr> (contract_result_new st)
     in if success r then state r else st)"

definition apply_events ::
    "('e sdk_context \<Rightarrow> 's contract_result \<Rightarrow> 's contract_result) \<Rightarrow> 's \<Rightarrow> ('e \<times> bool) list \<Rightarrow> 's" where
  "apply_events logic = foldl (apply_event logic)"

lemma apply_events_invariant:
  assumes "P st" and "\<And>s ev own. P s \<Longrightarrow> (ev, own) \<in> set evs \<Longrightarrow> P (apply_event logic s (ev, own))"
  shows "P (apply_events logic st evs)"
  using assms by (induction evs arbitrary: st) (auto simp: apply_events_def)

lemmas contract_logic_simps =
  contract_logic_def require_owner_def accept_def reject_def contract_result_new_def Let_def

text \<open>A successful event determines the fields it names and leaves the others.\<close>

fun expected :: "example_state \<Rightarrow> state_event \<Rightarrow> example_state" where
  "expected st (ModOne d) = st\<lparr>one := d\<rparr>"
| "expected st (ModTwo d) = st\<lparr>two := d\<rparr>"
| "expected st (ModThree d) = st\<lparr>three := d\<rparr>"
| "expected st (ModAll a b c) = \<lparr>one = a, two = b, three = c\<rparr>"
| "expected st ResetAll = \<lparr>one = 0, two = 0, three = 0\<rparr>"

definition permitted :: "state_event \<Rightarrow> bool \<Rightarrow> bool" where
  "permitted ev own \<longleftrightarrow> (ev = ResetAll \<longrightarrow> own) \<and> ev \<noteq> ModThree 50"

lemma contract_logic_cases:
  "let r = contract_logic \<lparr>event = ev, is_owner = own\<rparr> (contract_result_new st)
   in success r = permitted ev own \<and>
      state r = (if permitted ev own then expected st ev else st)"
  by (cases ev) (simp_all add: contract_logic_simps permitted_def)

lemma apply_event_example:
  "apply_event contract_logic st (ev, own) = (if permitted ev own then expected st ev else st)"
  using contract_logic_cases [of ev own st] by (simp add: apply_event_def Let_def)

section \<open>Properties\<close>

text \<open>
  (C32) The guard on the third counter over a whole history: whatever sequence of events from
  whatever senders is applied, the counter becomes 50 only if it was 50 at the start or the
  history contains a \<open>ModAll\<close> that sets it to 50, which the guard of \<open>ModThree\<close> does not
  cover; and such a \<open>ModAll\<close> is accepted from anyone.
\<close>

theorem example_three_fifty:
  "(three (apply_events contract_logic st evs) = 50 \<longrightarrow>
      three st = 50 \<or> (\<exists>a b own. (ModAll a b 50, own) \<in> set evs)) \<and>
   three (apply_events contract_logic st (evs @ [(ModAll a b 50, own)])) = 50"
proof
  show "three (apply_events contract_logic st evs) = 50 \<longrightarrow>
      three st = 50 \<or> (\<exists>a b own. (ModAll a b 50, own) \<in> set evs)"
  proof (rule impI, rule ccontr)
    assume fin: "three (apply_events contract_logic st evs) = 50"
      and no: "\<not> (three st = 50 \<or> (\<exists>a b own. (ModAll a b 50, own) \<in> set evs))"
    have "three (apply_event contract_logic s (ev, own)) \<noteq> 50"
      if "three s \<noteq> 50" "(ev, own) \<in> set evs" for s ev own
      using that no by (cases ev) (auto simp: apply_event_example permitted_def)
    then have "three (apply_events contract_logic st evs) \<noteq> 50"
      using no by (intro apply_events_invariant [where P = "\<lambda>s. three s \<noteq> 50"]) auto
    with fin show False by simp
  qed
next
  show "three (apply_events contract_logic st (evs @ [(ModAll a b 50, own)])) = 50"
    by (simp add: apply_events_def apply_event_example permitted_def)
qed

theorem example_three_fifty_witness:
  "three (apply_events contract_logic \<lparr>one = 1, two = 2, three = 3\<rparr> [(ModThree 50, True)]) \<noteq> 50"
  using example_three_fifty [of "\<lparr>one = 1, two = 2, three = 3\<rparr>" "[(ModThree 50, True)]"] by auto

text \<open>
  The compile-time secret: with a build environment that lacks the variable neither entry
  point of the malicious contract exists; with the variable, the entry point does not depend on
  its value, so the secret cannot reach the ledger through an answer of the contract.
\<close>

lemma malicious_contract_build:
  "(build_env ''AVE_SECRET_SENTINEL'' = None \<longrightarrow>
      main_function_mal build_env ops ext sd = None \<and> init_check_function_mal build_env ops ext sd = None) \<and>
   main_function_mal (build_env(''AVE_SECRET_SENTINEL'' \<mapsto> s1)) ops ext sd =
     main_function_mal (build_env(''AVE_SECRET_SENTINEL'' \<mapsto> s2)) ops ext sd"
  by (simp add: main_function_mal_def init_check_function_mal_def STOLEN_def)

section \<open>A concrete pair of codecs\<close>

definition le_word :: "byte list \<Rightarrow> u32" where
  "le_word bs = word_of_nat (le_nat bs)"

lemma le_word_u32 [simp]: "le_word (u32_to_le_bytes w) = w"
  by (simp add: le_word_def le_nat_u32)

definition ref_state_ser :: "example_state \<Rightarrow> string + byte list" where
  "ref_state_ser st = Inr (u32_to_le_bytes (one st) @ u32_to_le_bytes (two st) @ u32_to_le_bytes (three st))"

definition ref_state_de :: "byte list \<Rightarrow> string + example_state" where
  "ref_state_de bs =
     (if length bs \<noteq> 12 then Inl ''invalid length''
      else Inr \<lparr>one = le_word (take 4 bs), two = le_word (take 4 (drop 4 bs)), three = le_word (drop 8 bs)\<rparr>)"

definition ref_event_de :: "byte list \<Rightarrow> string + state_event" where
  "ref_event_de bs =
     (case bs of
        [] \<Rightarrow> Inl ''EOF while parsing a value''
      | t # ds \<Rightarrow>
          if t = 1 then Inr (ModOne (le_word ds))
          else if t = 2 then Inr (ModTwo (le_word ds))
          else if t = 3 then Inr (ModThree (le_word ds))
          else if t = 4 then Inr (ModAll (le_word (take 4 ds)) (le_word (take 4 (drop 4 ds))) (le_word (drop 8 ds)))
          else if t = 5 then Inr ResetAll
          else Inl ''unknown variant'')"

definition ref_serde :: "(example_state, state_event) serde" where
  "ref_serde = \<lparr>json_state_de = ref_state_de, json_state_ser = ref_state_ser, json_event_de = ref_event_de\<rparr>"

lemma ref_state_round_trip: "ref_state_ser st = Inr bs \<Longrightarrow> ref_state_de bs = Inr st"
  by (auto simp: ref_state_ser_def ref_state_de_def)

definition state_payload :: "example_state \<Rightarrow> byte list" where
  "state_payload st = u32_to_le_bytes (one st) @ u32_to_le_bytes (two st) @ u32_to_le_bytes (three st)"

lemma ref_serde_simps [simp]:
  "json_state_de ref_serde (state_payload st) = Inr st"
  "json_state_ser ref_serde st = Inr (state_payload st)"
  "json_event_de ref_serde [5] = Inr ResetAll"
  "json_state_de ref_serde [] = Inl ''invalid length''"
  "length (state_payload st) = 12"
  by (simp_all add: ref_serde_def state_payload_def ref_state_de_def ref_state_ser_def ref_event_de_def)

lemma ref_parse [simp]:
  "length p < 2 ^ 32 \<Longrightarrow> parse_payload ref_ext de name (borsh_frame p) =
    (case de p of Inl e \<Rightarrow> Inl (''Cannot parse '' @ name @ '' from JSON bytes: '' @ e) | Inr v \<Rightarrow> Inr v)"
  by (rule parse_payload_frame [OF codec_laws_ref_ext])

section \<open>The properties of the SDK at concrete inputs\<close>

text \<open>A host that lies about every length, answers garbage and always hands out the same pointer.\<close>

definition lying_ops :: "(unit, unit) host_ops" where
  "lying_ops =
     \<lparr>ho_pointer_len = (\<lambda>h p. 5), ho_alloc = (\<lambda>h n. Ok (7, ())),
      ho_read = (\<lambda>h p bs. Ok (replicate 900 255, ())), ho_write = (\<lambda>h p bs. Ok ())\<rparr>"

theorem entry_points_return_witness:
  "\<exists>p h'. execute_contract lying_ops ref_ext ref_serde 0 0 0 1 contract_logic () = Ok (p, h')"
proof -
  have "answers lying_ops" by (simp add: answers_def lying_ops_def)
  from entry_points_return [OF this, THEN conjunct1] show ?thesis .
qed

end
