(* ===== verification/Ave_Mock_Host.thy ===== *)
theory Ave_Mock_Host
  imports Ave_Contracts
begin

text \<open>
  \<open>src/externf.rs\<close>: the mock host of the unit tests, a map from pointers to byte vectors with
  a counter for fresh pointers and two switches that force failures. It is one of the two
  providers of the \<open>host_abi\<close> contract; the interpretation \<open>mock\<close> makes every lemma of the
  SDK available for it, which is what the unit tests of the crate exercise on examples.

  The thread-local cells are the fields of one record. The counter is an \<open>i32\<close>; its increment
  panics at \<open>i32::MAX\<close>, as it does in the test profile.
\<close>

section \<open>State and operations\<close>

record mock_host =
  HOST_MEMORY :: "i32 \<rightharpoonup> byte list"
  NEXT_ID :: i32
  FORCE_ALLOC_ZERO :: bool
  FORCE_POINTER_LEN :: "i32 option"

definition reset :: mock_host where
  "reset = \<lparr>HOST_MEMORY = Map.empty, NEXT_ID = 1000, FORCE_ALLOC_ZERO = False, FORCE_POINTER_LEN = None\<rparr>"

text \<open>\<open>MockHostGuard::hold\<close> and its \<open>drop\<close> both reset whatever was there.\<close>

definition hold :: "mock_host \<Rightarrow> mock_host" where
  "hold h = reset"

definition drop_guard :: "mock_host \<Rightarrow> mock_host" where
  "drop_guard h = reset"

definition set_force_alloc_zero :: "mock_host \<Rightarrow> bool \<Rightarrow> mock_host" where
  "set_force_alloc_zero h value = h\<lparr>FORCE_ALLOC_ZERO := value\<rparr>"

definition set_force_pointer_len :: "mock_host \<Rightarrow> i32 \<Rightarrow> mock_host" where
  "set_force_pointer_len h value = h\<lparr>FORCE_POINTER_LEN := Some value\<rparr>"

text \<open>\<open>let current = *id; *id += 1; current\<close>\<close>

definition next_id :: "mock_host \<Rightarrow> (i32 \<times> mock_host, unit) outcome" where
  "next_id h =
     (if sint (NEXT_ID h) = int i32_max then Panic
      else Ok (NEXT_ID h, h\<lparr>NEXT_ID := NEXT_ID h + 1\<rparr>))"

definition store_data :: "mock_host \<Rightarrow> byte list \<Rightarrow> (i32 \<times> mock_host, unit) outcome" where
  "store_data h dat =
     obind (next_id h) (\<lambda>(ptr, h1). Ok (ptr, h1\<lparr>HOST_MEMORY := (HOST_MEMORY h1)(ptr \<mapsto> dat)\<rparr>))"

definition get_data :: "mock_host \<Rightarrow> i32 \<Rightarrow> byte list option" where
  "get_data h ptr = HOST_MEMORY h ptr"

definition mock_pointer_len :: "mock_host \<Rightarrow> i32 \<Rightarrow> i32" where
  "mock_pointer_len h pointer =
     (case FORCE_POINTER_LEN h of
        Some forced \<Rightarrow> forced
      | None \<Rightarrow> (case HOST_MEMORY h pointer of None \<Rightarrow> 0 | Some d \<Rightarrow> usize_as_u32 (length d)))"

definition mock_alloc :: "mock_host \<Rightarrow> u32 \<Rightarrow> (i32 \<times> mock_host, unit) outcome" where
  "mock_alloc h len =
     (if FORCE_ALLOC_ZERO h then Ok (0, h)
      else obind (next_id h) (\<lambda>(ptr, h1).
        Ok (ptr, h1\<lparr>HOST_MEMORY := (HOST_MEMORY h1)(ptr \<mapsto> replicate (unat len) 0)\<rparr>)))"

definition read_bytes_into_vec ::
    "mock_host \<Rightarrow> i32 \<Rightarrow> byte list \<Rightarrow> (byte list, unit) outcome" where
  "read_bytes_into_vec h src_ptr dst =
     (let dat = (case HOST_MEMORY h src_ptr of None \<Rightarrow> [] | Some d \<Rightarrow> d)
      in copy_range dst 0 (length dat) dat)"

definition write_bytes_from_slice :: "mock_host \<Rightarrow> i32 \<Rightarrow> byte list \<Rightarrow> mock_host" where
  "write_bytes_from_slice h dst_ptr src = h\<lparr>HOST_MEMORY := (HOST_MEMORY h)(dst_ptr \<mapsto> src)\<rparr>"

text \<open>The test builds of \<open>read_host_bytes\<close> and \<open>write_host_bytes\<close> in \<open>src/lib.rs\<close>.\<close>

definition mock_read_host_bytes ::
    "mock_host \<Rightarrow> i32 \<Rightarrow> byte list \<Rightarrow> (byte list \<times> mock_host, unit) outcome" where
  "mock_read_host_bytes h pointer dat =
     obind (read_bytes_into_vec h pointer dat) (\<lambda>dat'. Ok (dat', h))"

definition mock_write_host_bytes ::
    "mock_host \<Rightarrow> i32 \<Rightarrow> byte list \<Rightarrow> (mock_host, unit) outcome" where
  "mock_write_host_bytes h ptr bytes = Ok (write_bytes_from_slice h ptr bytes)"

definition mock_ops :: "(mock_host, unit) host_ops" where
  "mock_ops =
     \<lparr>ho_pointer_len = mock_pointer_len,
      ho_alloc = mock_alloc,
      ho_read = mock_read_host_bytes,
      ho_write = mock_write_host_bytes\<rparr>"

section \<open>The mock host meets the contract\<close>

definition mock_inv :: "mock_host \<Rightarrow> bool" where
  "mock_inv h \<longleftrightarrow>
     FORCE_POINTER_LEN h = None \<and> 0 < sint (NEXT_ID h) \<and>
     (\<forall>p d. HOST_MEMORY h p = Some d \<longrightarrow> sint p < sint (NEXT_ID h) \<and> length d \<le> i32_max)"

definition mock_room :: "mock_host \<Rightarrow> nat \<Rightarrow> bool" where
  "mock_room h n \<longleftrightarrow> \<not> FORCE_ALLOC_ZERO h \<and> sint (NEXT_ID h) \<noteq> int i32_max \<and> n \<le> i32_max"

lemma sint_suc:
  fixes w :: i32
  assumes "0 \<le> sint w" and "sint w \<noteq> int i32_max"
  shows "sint (w + 1) = sint w + 1"
proof -
  have w: "sint w = int (unat w)" "unat w < 2 ^ 31"
    using assms(1) sint_eq_unat_nonneg sint_nonneg_imp_lt by blast+
  with assms(2) have lt: "unat w + 1 < 2 ^ 31"
    by (simp only: of_nat_eq_iff i32_max_def)
  then have eq: "unat (w + 1) = unat w + 1"
    by (simp add: unat_word_ariths)
  with lt have "sint (w + 1) = int (unat (w + 1))"
    by (intro unat_lt_imp_sint) simp
  then show ?thesis by (simp only: eq w(1))
qed

lemma mock_inv_reset: "mock_inv reset"
  by (simp add: mock_inv_def reset_def)

lemma next_id_fresh:
  assumes "mock_inv h" and "next_id h = Ok (p, h1)" and "length d \<le> i32_max"
  shows "mock_inv (h1\<lparr>HOST_MEMORY := (HOST_MEMORY h1)(p \<mapsto> d)\<rparr>)" and "HOST_MEMORY h p = None"
    and "HOST_MEMORY h1 = HOST_MEMORY h" and "p \<noteq> 0"
proof -
  from assms(2) have p: "p = NEXT_ID h" "h1 = h\<lparr>NEXT_ID := NEXT_ID h + 1\<rparr>" "sint (NEXT_ID h) \<noteq> int i32_max"
    by (auto simp: next_id_def split: if_splits)
  have suc: "sint (NEXT_ID h + 1) = sint (NEXT_ID h) + 1"
    using assms(1) p(3) by (intro sint_suc) (simp_all add: mock_inv_def)
  show "mock_inv (h1\<lparr>HOST_MEMORY := (HOST_MEMORY h1)(p \<mapsto> d)\<rparr>)"
    using assms(1,3) suc by (fastforce simp: mock_inv_def p)
  show "HOST_MEMORY h p = None"
    using assms(1) p(1) by (cases "HOST_MEMORY h p") (auto simp: mock_inv_def)
  show "HOST_MEMORY h1 = HOST_MEMORY h" "p \<noteq> 0"
    using assms(1) p by (auto simp: mock_inv_def)
qed

lemma mock_len_known:
  assumes "mock_inv h" and "HOST_MEMORY h p = Some bs"
  shows "sint (mock_pointer_len h p) = int (length bs)"
proof -
  have "FORCE_POINTER_LEN h = None" and "length bs \<le> i32_max"
    using assms unfolding mock_inv_def by blast+
  then show ?thesis
    using assms(2) by (simp add: mock_pointer_len_def sint_usize_as_u32 i32_max_def)
qed

lemma mock_read_known:
  "HOST_MEMORY h p = Some bs \<Longrightarrow> mock_read_host_bytes h p (replicate (length bs) 0) = Ok (bs, h)"
  by (simp add: mock_read_host_bytes_def read_bytes_into_vec_def copy_range_def)

lemma mock_alloc_cases:
  assumes "mock_alloc h n = Ok (p, h')"
  obtains (forced) "FORCE_ALLOC_ZERO h" "p = 0" "h' = h"
  | (fresh) h1 where "next_id h = Ok (p, h1)"
      "h' = h1\<lparr>HOST_MEMORY := (HOST_MEMORY h1)(p \<mapsto> replicate (unat n) 0)\<rparr>"
  using assms by (auto simp: mock_alloc_def obind_eq_Ok split: if_splits)

lemma mock_alloc_fresh:
  assumes "mock_inv h" and "unat n \<le> i32_max" and "mock_alloc h n = Ok (p, h')" and "p \<noteq> 0"
  shows "mock_inv h' \<and> HOST_MEMORY h p = None \<and> HOST_MEMORY h' = (HOST_MEMORY h)(p \<mapsto> replicate (unat n) 0)"
  using assms(3)
proof (cases rule: mock_alloc_cases)
  case forced
  with assms(4) show ?thesis by simp
next
  case (fresh h1)
  then show ?thesis
    using next_id_fresh [OF assms(1) fresh(1), of "replicate (unat n) 0"] assms(2) by simp
qed

lemma mock_alloc_null:
  assumes "mock_inv h" and "mock_alloc h n = Ok (0, h')"
  shows "h' = h"
  using assms(2)
proof (cases rule: mock_alloc_cases)
  case (fresh h1)
  then show ?thesis using next_id_fresh(4) [OF assms(1) fresh(1), of "[]"] by simp
qed simp

lemma mock_write_keeps:
  assumes "mock_inv h" and "HOST_MEMORY h p = Some bs" and "length d = length bs"
  shows "mock_inv (write_bytes_from_slice h p d)"
  using assms by (auto simp: mock_inv_def write_bytes_from_slice_def)

interpretation mock: host_abi_live mock_ops mock_inv HOST_MEMORY mock_room
proof (unfold_locales, goal_cases)
  case (1 h p bs)
  then show ?case
    by (simp add: mock_ops_def mock_len_known)
next
  case (4 h n p h')
  then show ?case using mock_alloc_fresh [of h n p h'] by (simp add: mock_ops_def)
next
  case (5 h n h')
  then show ?case using mock_alloc_null [of h n h'] by (simp add: mock_ops_def)
next
  case (6 h p bs d h')
  then show ?case
    using mock_write_keeps [of h p bs d]
    by (auto simp: mock_ops_def mock_write_host_bytes_def write_bytes_from_slice_def)
next
  case (9 h n)
  then obtain p h1 where "next_id h = Ok (p, h1)" by (auto simp: next_id_def mock_room_def)
  with 9 next_id_fresh(4) [OF 9(1) this, of "[]"] show ?case
    by (auto simp: mock_ops_def mock_alloc_def mock_room_def)
qed (auto simp: mock_ops_def mock_read_known mock_write_host_bytes_def mock_room_def)

section \<open>The SDK on the mock host\<close>

lemma store_data_eq_Ok:
  "store_data h d = Ok (p, h') \<longleftrightarrow>
     (\<exists>h1. next_id h = Ok (p, h1) \<and> h' = h1\<lparr>HOST_MEMORY := (HOST_MEMORY h1)(p \<mapsto> d)\<rparr>)"
  by (auto simp: store_data_def obind_eq_Ok)

lemma store_data_fresh:
  assumes "mock_inv h" and "store_data h d = Ok (p, h')" and "length d \<le> i32_max"
  shows "mock_inv h'" and "HOST_MEMORY h p = None" and "HOST_MEMORY h' = (HOST_MEMORY h)(p \<mapsto> d)"
    and "p \<noteq> 0"
proof -
  obtain h1 where n: "next_id h = Ok (p, h1)"
    and h': "h' = h1\<lparr>HOST_MEMORY := (HOST_MEMORY h1)(p \<mapsto> d)\<rparr>"
    using assms(2) by (auto simp: store_data_eq_Ok)
  note fresh = next_id_fresh [OF assms(1) n assms(3)]
  show "mock_inv h'" "HOST_MEMORY h p = None" "p \<noteq> 0" using fresh h' by simp_all
  show "HOST_MEMORY h' = (HOST_MEMORY h)(p \<mapsto> d)" using fresh(3) h' by simp
qed

text \<open>Any read leaves the mock host as it is, whatever the pointer.\<close>

lemma mock_get_from_context_pure:
  assumes "mock_inv h"
  shows "\<exists>r. get_from_context mock_ops p h = Ok (r, h)"
proof (cases "HOST_MEMORY h p")
  case None
  moreover have "FORCE_POINTER_LEN h = None" using assms by (simp add: mock_inv_def)
  ultimately show ?thesis
    by (simp add: get_from_context_def mock_ops_def mock_pointer_len_def validate_host_len_def
        MAX_DATA_SIZE_def mock_read_host_bytes_def read_bytes_into_vec_def copy_range_def)
next
  case (Some bs)
  with mock_len_known [OF assms Some] show ?thesis
    by (simp add: get_from_context_def mock_ops_def validate_host_len_def mock_read_known)
qed

lemma mock_read_and_parse_pure:
  "mock_inv h \<Longrightarrow> \<exists>r. read_and_parse mock_ops ext de p name h = Ok (r, h)"
  using mock_get_from_context_pure [of h p]
  by (auto simp: read_and_parse_def split: sum.split)

lemma mock_store_forced:
  "FORCE_ALLOC_ZERO h \<Longrightarrow> \<exists>e. store mock_ops ser d h = Ok (Inl e, h)"
  by (auto simp: store_def mock_ops_def mock_alloc_def split: sum.split)

lemma mock_try_check_forced:
  assumes "mock_inv h" and "FORCE_ALLOC_ZERO h"
  shows "\<exists>e. try_check_init_data mock_ops ext sd sp cb h = Ok (Inl e, h)"
  using mock_read_and_parse_pure [OF assms(1), of ext "json_state_de sd" sp "''State''"]
    mock_store_forced [OF assms(2), of "borsh_init_ser ext" "init_data_ok ext"]
  by (auto simp: try_check_init_data_def Let_def replace_err_def split: sum.split)

lemma mock_read_state_pure:
  assumes "mock_inv h"
  shows "\<exists>r. read_state_or_init mock_ops ext sd sp ip h = Ok (r, h)"
  using mock_read_and_parse_pure [OF assms, of ext "json_state_de sd" sp "''State''"]
    mock_read_and_parse_pure [OF assms, of ext "json_state_de sd" ip "''Init State''"]
  by (auto simp: read_state_or_init_def split: sum.split)

lemma mock_try_execute_forced:
  assumes "mock_inv h" and "FORCE_ALLOC_ZERO h"
  shows "\<exists>e. try_execute_contract mock_ops ext sd sp ip ep owner cb h = Ok (Inl e, h)"
proof -
  have "\<exists>e. store mock_ops (borsh_result_ser ext) d h = Ok (Inl e, h)" for d
    using mock_store_forced [OF assms(2)] .
  then obtain f where "store mock_ops (borsh_result_ser ext) d h = Ok (Inl (f d), h)" for d
    by metis
  then show ?thesis
    using mock_read_state_pure [OF assms(1), of ext sd sp ip]
      mock_read_and_parse_pure [OF assms(1), of ext "json_event_de sd" ep "''Event''"]
    by (auto simp: try_execute_contract_def Let_def replace_err_def split: sum.split)
qed

text \<open>
  (C19) The main entry point on the mock host: for three framed payloads stored one after the other,
  \<open>execute_contract\<close> returns a fresh, non-null pointer behind which there is exactly the
  encoding of the specified answer, so decoding it gives that answer; the three payloads are still
  there. The hypotheses ask for payloads within the guest's size limit, an answer that serialises
  and a mock host that can allocate.
\<close>

theorem mock_execute_contract:
  assumes "codec_laws ext" and "mock_inv h"
    and "store_data h (borsh_frame s) = Ok (sp, h1)" and "store_data h1 (borsh_frame i) = Ok (ip, h2)"
    and "store_data h2 (borsh_frame e) = Ok (ep, h3)"
    and "length s < 9999997" and "length i < 9999997" and "length e < 9999997"
    and "borsh_result_ser ext
           (event_response ext sd (borsh_frame s) (borsh_frame i) (borsh_frame e) owner cb) = Inr bytes"
    and "mock_room h3 (length bytes)"
  shows "\<exists>p h'. execute_contract mock_ops ext sd sp ip ep owner cb h3 = Ok (p, h') \<and> p \<noteq> 0 \<and>
    get_data h3 p = None \<and> get_data h' p = Some bytes \<and>
    borsh_result_de ext bytes =
      Inr (event_response ext sd (borsh_frame s) (borsh_frame i) (borsh_frame e) owner cb) \<and>
    get_data h' sp = Some (borsh_frame s) \<and> get_data h' ip = Some (borsh_frame i) \<and>
    get_data h' ep = Some (borsh_frame e)"
proof -
  note len = assms(6-8) i32_max_def MAX_DATA_SIZE_def
  note h1 = store_data_fresh [OF assms(2,3)]
  have inv1: "mock_inv h1" using h1(1) len by simp
  note h2 = store_data_fresh [OF inv1 assms(4)]
  have inv2: "mock_inv h2" using h2(1) len by simp
  note h3 = store_data_fresh [OF inv2 assms(5)]
  have inv3: "mock_inv h3" using h3(1) len by simp
  have distinct: "sp \<noteq> ip" "sp \<noteq> ep" "ip \<noteq> ep"
    using h1(3) h2(2,3) h3(2) len by (auto split: if_splits)
  have v: "HOST_MEMORY h3 sp = Some (borsh_frame s)" "HOST_MEMORY h3 ip = Some (borsh_frame i)"
      "HOST_MEMORY h3 ep = Some (borsh_frame e)"
    using distinct h1(3) h2(3) h3(3) len by simp_all
  from execute_contract_framed [OF mock.host_abi_live_axioms assms(1) inv3 v assms(6-10)]
  obtain p h' where run: "execute_contract mock_ops ext sd sp ip ep owner cb h3 = Ok (p, h')" "p \<noteq> 0"
    and fresh: "HOST_MEMORY h3 p = None" and h': "HOST_MEMORY h' = (HOST_MEMORY h3)(p \<mapsto> bytes)"
    by blast
  from fresh v have "p \<noteq> sp" "p \<noteq> ip" "p \<noteq> ep" by auto
  then show ?thesis
    using run fresh h' v codec_lawsD(2) [OF assms(1,9)] by (auto simp: get_data_def)
qed

lemma store_data_reset:
  "store_data (reset\<lparr>HOST_MEMORY := m, NEXT_ID := n\<rparr>) d =
     (if sint n = int i32_max then Panic
      else Ok (n, reset\<lparr>HOST_MEMORY := m(n \<mapsto> d), NEXT_ID := n + 1\<rparr>))"
  by (simp add: store_data_def next_id_def reset_def)

lemma reset_owner_answer:
  "event_response ref_ext ref_serde (borsh_frame (state_payload st)) ib (borsh_frame [5]) 1 contract_logic =
     \<lparr>crd_final_state = state_payload \<lparr>one = 0, two = 0, three = 0\<rparr>, crd_success = True, crd_error = ''''\<rparr>"
  by (simp add: event_response_def event_outcome_def chosen_state_def OWNER_FLAG_def result_data_def
      contract_logic_simps) (simp add: state_payload_def)

theorem mock_execute_contract_witness:
  "\<exists>h bytes p h'.
     execute_contract mock_ops ref_ext ref_serde 1000 1001 1002 1 contract_logic h = Ok (p, h') \<and>
     get_data h' p = Some bytes \<and>
     borsh_result_de ref_ext bytes =
       Inr \<lparr>crd_final_state = state_payload \<lparr>one = 0, two = 0, three = 0\<rparr>, crd_success = True, crd_error = ''''\<rparr>"
proof -
  let ?s = "state_payload \<lparr>one = 1, two = 2, three = 3\<rparr>"
  let ?m1 = "[1000 \<mapsto> borsh_frame ?s]"
  let ?m2 = "?m1(1001 \<mapsto> borsh_frame ?s)"
  let ?m3 = "?m2(1002 \<mapsto> borsh_frame [5])"
  let ?h = "\<lambda>m n. reset\<lparr>HOST_MEMORY := m, NEXT_ID := n\<rparr>"
  have st1: "store_data reset (borsh_frame ?s) = Ok (1000, ?h ?m1 1001)"
    using store_data_reset [where m = Map.empty and n = 1000] by (simp add: reset_def i32_max_def)
  have st2: "store_data (?h ?m1 1001) (borsh_frame ?s) = Ok (1001, ?h ?m2 1002)"
    by (subst store_data_reset) (simp add: i32_max_def)
  have st3: "store_data (?h ?m2 1002) (borsh_frame [5]) = Ok (1002, ?h ?m3 1003)"
    by (subst store_data_reset) (simp add: i32_max_def)
  let ?d = "\<lparr>crd_final_state = state_payload \<lparr>one = 0, two = 0, three = 0\<rparr>, crd_success = True, crd_error = ''''\<rparr>"
  let ?bytes = "borsh_frame (crd_final_state ?d) @ enc_bool True @ borsh_frame []"
  have ser: "borsh_result_ser ref_ext ?d = Inr ?bytes"
    by (simp add: ref_ext_def ref_result_ser_def string_bytes_def)
  have room: "mock_room (?h ?m3 1003) (length ?bytes)"
    by (simp add: mock_room_def reset_def i32_max_def enc_bool_def)
  have len: "length ?s < 9999997" "length [5 :: byte] < 9999997" by simp_all
  show ?thesis
    using mock_execute_contract [OF codec_laws_ref_ext mock_inv_reset st1 st2 st3 len(1,1,2),
        of ref_serde 1 contract_logic, unfolded reset_owner_answer, OF ser room] by blast
qed

text \<open>
  (C34) The init entry point on the mock host: for a framed state, \<open>check_init_data\<close> returns a
  fresh non-null pointer, and the answer behind it decodes to a success exactly when the state
  parses and the contract's check accepts it.
\<close>

theorem mock_check_init_data:
  assumes "codec_laws ext" and "mock_inv h" and "store_data h (borsh_frame s) = Ok (sp, h1)"
    and "length s < 9999997"
    and "borsh_init_ser ext (init_response ext sd (borsh_frame s) cb) = Inr bytes"
    and "mock_room h1 (length bytes)"
  shows "\<exists>p h' d. check_init_data mock_ops ext sd sp cb h1 = Ok (p, h') \<and> p \<noteq> 0 \<and> get_data h1 p = None \<and>
    get_data h' p = Some bytes \<and> borsh_init_de ext bytes = Inr d \<and>
    (cid_success d \<longleftrightarrow>
       (\<exists>st. json_state_de sd s = Inr st \<and> ic_success (cb st \<lparr>ic_success = False, ic_error = ''''\<rparr>)))"
proof -
  have len: "length (borsh_frame s) \<le> i32_max" "int (length (borsh_frame s)) \<le> MAX_DATA_SIZE"
      "length s < 2 ^ 32"
    using assms(4) by (simp_all add: i32_max_def MAX_DATA_SIZE_def)
  note h1 = store_data_fresh [OF assms(2,3) len(1)]
  then have v: "HOST_MEMORY h1 sp = Some (borsh_frame s)" by simp
  from mock.check_init_data_known [OF h1(1) v len(2) assms(5) codec_lawsD(5) [OF assms(1,5)] assms(6)]
  obtain p h' where run: "check_init_data mock_ops ext sd sp cb h1 = Ok (p, h')" "p \<noteq> 0"
    "HOST_MEMORY h1 p = None" "HOST_MEMORY h' = (HOST_MEMORY h1)(p \<mapsto> bytes)"
    by blast
  have "cid_success (init_response ext sd (borsh_frame s) cb) \<longleftrightarrow>
       (\<exists>st. json_state_de sd s = Inr st \<and> ic_success (cb st \<lparr>ic_success = False, ic_error = ''''\<rparr>))"
    using codec_lawsD(8,10) [OF assms(1)]
    by (auto simp: init_response_def parse_payload_frame [OF assms(1) len(3)] Let_def
        contract_init_check_default_def split: sum.split)
  with run codec_lawsD(4) [OF assms(1,5)] show ?thesis by (auto simp: get_data_def)
qed

theorem mock_check_init_data_witness:
  "\<exists>h p h' d. check_init_data mock_ops ref_ext ref_serde 1000 init_logic h = Ok (p, h') \<and> p \<noteq> 0 \<and>
     (\<exists>bytes. get_data h' p = Some bytes \<and> borsh_init_de ref_ext bytes = Inr d) \<and> cid_success d"
proof -
  let ?s = "state_payload \<lparr>one = 1, two = 2, three = 3\<rparr>"
  let ?h1 = "reset\<lparr>HOST_MEMORY := [1000 \<mapsto> borsh_frame ?s], NEXT_ID := 1001\<rparr>"
  have st: "store_data reset (borsh_frame ?s) = Ok (1000, ?h1)"
    using store_data_reset [where m = Map.empty and n = 1000] by (simp add: reset_def i32_max_def)
  have resp: "init_response ref_ext ref_serde (borsh_frame ?s) init_logic = init_data_ok ref_ext"
    by (simp add: init_response_def init_logic_def ic_accept_def)
  let ?bytes = "enc_bool True @ borsh_frame []"
  have ser: "borsh_init_ser ref_ext (init_response ref_ext ref_serde (borsh_frame ?s) init_logic) = Inr ?bytes"
    by (simp only: resp) (simp add: ref_ext_def ref_init_ser_def string_bytes_def)
  have room: "mock_room ?h1 (length ?bytes)"
    by (simp add: mock_room_def reset_def i32_max_def enc_bool_def)
  have "ic_success (init_logic st \<lparr>ic_success = False, ic_error = ''''\<rparr>)" for st
    by (simp add: init_logic_def ic_accept_def)
  with mock_check_init_data [OF codec_laws_ref_ext mock_inv_reset st _ ser room]
  obtain p h' d where "check_init_data mock_ops ref_ext ref_serde 1000 init_logic ?h1 = Ok (p, h')"
    "p \<noteq> 0" "get_data h' p = Some ?bytes" "borsh_init_de ref_ext ?bytes = Inr d" "cid_success d"
    by auto
  then show ?thesis by blast
qed

text \<open>
  (C35) Double fault: when the mock host refuses to allocate, both entry points answer the null
  pointer and leave the host as it was, whatever the pointers, the codecs and the contract: there
  is no trap, no panic and no write. This is the protocol's signal for a result that could not be
  returned.
\<close>

theorem mock_double_fault:
  assumes "mock_inv h" and "FORCE_ALLOC_ZERO h"
  shows "execute_contract mock_ops ext sd sp ip ep owner cb h = Ok (0, h) \<and>
    check_init_data mock_ops ext sd sp ccb h = Ok (0, h)"
proof -
  obtain e1 e2 where
    "try_execute_contract mock_ops ext sd sp ip ep owner cb h = Ok (Inl e1, h)"
    "try_check_init_data mock_ops ext sd sp ccb h = Ok (Inl e2, h)"
    using mock_try_execute_forced [OF assms] mock_try_check_forced [OF assms] by metis
  moreover obtain e3 e4 where
    "store mock_ops (borsh_result_ser ext) (result_data_error ext e1) h = Ok (Inl e3, h)"
    "store mock_ops (borsh_init_ser ext) (init_data_error ext e2) h = Ok (Inl e4, h)"
    using mock_store_forced [OF assms(2)] by metis
  ultimately show ?thesis
    by (simp add: execute_contract_def check_init_data_def unwrap_or_zero_def)
qed

theorem mock_double_fault_witness:
  "execute_contract mock_ops ref_ext ref_serde 7 8 9 1 contract_logic (set_force_alloc_zero reset True) =
     Ok (0, set_force_alloc_zero reset True)"
proof -
  have "mock_inv (set_force_alloc_zero reset True)" "FORCE_ALLOC_ZERO (set_force_alloc_zero reset True)"
    using mock_inv_reset by (simp_all add: set_force_alloc_zero_def mock_inv_def)
  with mock_double_fault show ?thesis by blast
qed

section \<open>Forged lengths\<close>

definition forged_error :: "i32 \<Rightarrow> error" where
  "forged_error len =
     (if sint len < 0 then Deserialization ''Invalid negative length from host''
      else MemoryLimitExceeded (nat (sint len)) 10000000)"

lemma forged_read:
  assumes "FORCE_POINTER_LEN h = Some len" and "sint len < 0 \<or> 10000000 < sint len"
  shows "read_and_parse mock_ops ext de p name h =
    Ok (Inl (''Cannot read '' @ name @ '' from host memory: '' @ error_display (forged_error len)), h)"
  using assms
  by (auto simp: read_and_parse_def get_from_context_def mock_ops_def mock_pointer_len_def validate_host_len_def
      MAX_DATA_SIZE_def forged_error_def)

text \<open>Storing does not ask for a length, so a forged one does not matter.\<close>

lemma mock_store_forged:
  assumes "mock_inv h0" and "h = set_force_pointer_len h0 len" and "ser d = Inr bytes" and "mock_room h (length bytes)"
  shows "\<exists>p h'. store mock_ops ser d h = Ok (Inr p, h') \<and> p \<noteq> 0 \<and> get_data h p = None \<and> get_data h' p = Some bytes"
proof -
  have len: "length bytes \<le> i32_max" using assms(4) by (simp add: mock_room_def)
  have id: "next_id h0 = Ok (NEXT_ID h0, h0\<lparr>NEXT_ID := NEXT_ID h0 + 1\<rparr>)"
    using assms(2,4) by (simp add: next_id_def mock_room_def set_force_pointer_len_def)
  note fresh = next_id_fresh(2,4) [OF assms(1) id len]
  have "store mock_ops ser d h = Ok (Inr (NEXT_ID h0),
      h\<lparr>NEXT_ID := NEXT_ID h0 + 1, HOST_MEMORY := (HOST_MEMORY h0)(NEXT_ID h0 \<mapsto> bytes)\<rparr>)"
    using assms(2-4) len fresh(2)
    by (simp add: store_def serialize_def validate_serialized_len_def mock_ops_def mock_alloc_def next_id_def
        mock_room_def mock_write_host_bytes_def write_bytes_from_slice_def set_force_pointer_len_def)
  with fresh assms(2) show ?thesis by (simp add: get_data_def set_force_pointer_len_def)
qed

text \<open>
  (C36) A host that forges lengths: with any negative length, or any above 10,000,000, forced on the
  mock host, whatever its memory holds and whatever the pointers and the contract are, the main
  entry point neither reads nor panics: it returns a fresh non-null pointer to an answer that
  decodes to a failure and names the length error for the state and for the initial state.
\<close>

theorem mock_forged_length:
  assumes "codec_laws ext" and "mock_inv h0" and "h = set_force_pointer_len h0 len"
    and "sint len < 0 \<or> 10000000 < sint len"
    and "msg = ''Cannot read State from host memory: '' @ error_display (forged_error len) @
      ''; fallback to init state also failed: Cannot read Init State from host memory: '' @
      error_display (forged_error len)"
    and "borsh_result_ser ext (result_data_error ext msg) = Inr bytes" and "mock_room h (length bytes)"
  shows "\<exists>p h' answer. execute_contract mock_ops ext sd sp ip ep owner cb h = Ok (p, h') \<and> p \<noteq> 0 \<and>
    get_data h p = None \<and> get_data h' p = Some bytes \<and> borsh_result_de ext bytes = Inr answer \<and>
    \<not> crd_success answer \<and> crd_error answer = msg"
proof -
  have forced: "FORCE_POINTER_LEN h = Some len" using assms(3) by (simp add: set_force_pointer_len_def)
  have failed: "try_execute_contract mock_ops ext sd sp ip ep owner cb h = Ok (Inl msg, h)"
    by (simp add: try_execute_contract_def read_state_or_init_def forged_read [OF forced assms(4)] assms(5))
  obtain p h' where st: "store mock_ops (borsh_result_ser ext) (result_data_error ext msg) h = Ok (Inr p, h')"
    and p: "p \<noteq> 0" "get_data h p = None" "get_data h' p = Some bytes"
    using mock_store_forged [where ser = "borsh_result_ser ext", OF assms(2,3,6,7)] by blast
  have "execute_contract mock_ops ext sd sp ip ep owner cb h = Ok (p, h')"
    by (simp add: execute_contract_def failed st unwrap_or_zero_def)
  with p show ?thesis
    using codec_lawsD(2) [OF assms(1,6)] codec_lawsD(6,7) [OF assms(1), of msg] by blast
qed

theorem mock_forged_length_witness:
  "\<exists>p h' bytes answer.
     execute_contract mock_ops ref_ext ref_serde 7 8 9 1 contract_logic (set_force_pointer_len reset (- 1)) = Ok (p, h') \<and>
     p \<noteq> 0 \<and> get_data h' p = Some bytes \<and> borsh_result_de ref_ext bytes = Inr answer \<and> \<not> crd_success answer"
proof -
  let ?h = "set_force_pointer_len reset (- 1)"
  let ?e = "error_display (forged_error (- 1))"
  let ?msg = "''Cannot read State from host memory: '' @ ?e @
    ''; fallback to init state also failed: Cannot read Init State from host memory: '' @ ?e"
  let ?bytes = "borsh_frame [0x6E, 0x75, 0x6C, 0x6C] @ enc_bool False @ borsh_frame (string_bytes ?msg)"
  have ser: "borsh_result_ser ref_ext (result_data_error ref_ext ?msg) = Inr ?bytes"
    by (simp add: ref_ext_def ref_result_ser_def forged_error_def)
  have room: "mock_room ?h (length ?bytes)"
    by (simp add: mock_room_def reset_def i32_max_def enc_bool_def set_force_pointer_len_def forged_error_def)
  have neg: "sint (- 1 :: i32) < 0 \<or> 10000000 < sint (- 1 :: i32)" by simp
  show ?thesis
    using mock_forged_length [OF codec_laws_ref_ext mock_inv_reset refl neg refl ser room] by blast
qed

section \<open>The properties of the main entry point at concrete payloads\<close>

definition demo_host :: "byte list \<Rightarrow> byte list \<Rightarrow> byte list \<Rightarrow> mock_host" where
  "demo_host s i e = reset
     \<lparr>HOST_MEMORY := [1000 \<mapsto> borsh_frame s, 1001 \<mapsto> borsh_frame i, 1002 \<mapsto> borsh_frame e], NEXT_ID := 1003\<rparr>"

lemma demo_host_view [simp]:
  "HOST_MEMORY (demo_host s i e) 1000 = Some (borsh_frame s)"
  "HOST_MEMORY (demo_host s i e) 1001 = Some (borsh_frame i)"
  "HOST_MEMORY (demo_host s i e) 1002 = Some (borsh_frame e)"
  by (simp_all add: demo_host_def)

lemma demo_host_inv:
  assumes "length s < 9999997" "length i < 9999997" "length e < 9999997"
  shows "mock_inv (demo_host s i e)"
  using assms by (auto simp: demo_host_def mock_inv_def reset_def i32_max_def split: if_splits)

lemma demo_host_room: "n \<le> i32_max \<Longrightarrow> mock_room (demo_host s i e) n"
  by (simp add: demo_host_def mock_room_def reset_def i32_max_def)

lemma fallback_owner_answer:
  "event_response ref_ext ref_serde (borsh_frame []) (borsh_frame (state_payload st)) (borsh_frame [5]) 1
     contract_logic =
     \<lparr>crd_final_state = state_payload \<lparr>one = 0, two = 0, three = 0\<rparr>, crd_success = True, crd_error = ''''\<rparr>"
  by (simp add: event_response_def event_outcome_def chosen_state_def OWNER_FLAG_def result_data_def
      contract_logic_simps) (simp add: state_payload_def)

lemma reset_answer_bytes:
  "borsh_result_ser ref_ext
     \<lparr>crd_final_state = state_payload \<lparr>one = 0, two = 0, three = 0\<rparr>, crd_success = True, crd_error = ''''\<rparr> =
   Inr (borsh_frame (state_payload \<lparr>one = 0, two = 0, three = 0\<rparr>) @ enc_bool True @ borsh_frame [])"
  by (simp add: ref_ext_def ref_result_ser_def string_bytes_def)

theorem event_success_iff_witness:
  "\<exists>p h' bytes d.
     execute_contract mock_ops ref_ext ref_serde 1000 1001 1002 1 contract_logic
       (demo_host (state_payload \<lparr>one = 1, two = 2, three = 3\<rparr>) [] [5]) = Ok (p, h') \<and>
     get_data h' p = Some bytes \<and> borsh_result_de ref_ext bytes = Inr d \<and> crd_success d"
proof -
  let ?s = "state_payload \<lparr>one = 1, two = 2, three = 3\<rparr>"
  let ?bytes = "borsh_frame (state_payload \<lparr>one = 0, two = 0, three = 0\<rparr>) @ enc_bool True @ borsh_frame []"
  have de: "borsh_result_de ref_ext ?bytes =
      Inr \<lparr>crd_final_state = state_payload \<lparr>one = 0, two = 0, three = 0\<rparr>, crd_success = True, crd_error = ''''\<rparr>"
    by (rule codec_lawsD(2) [OF codec_laws_ref_ext reset_answer_bytes])
  have "mock_room (demo_host ?s [] [5]) (length ?bytes)"
    by (rule demo_host_room) (simp add: i32_max_def enc_bool_def)
  moreover have "mock_inv (demo_host ?s [] [5])" by (rule demo_host_inv) simp_all
  ultimately have "\<exists>p h' d.
      execute_contract mock_ops ref_ext ref_serde 1000 1001 1002 1 contract_logic (demo_host ?s [] [5]) = Ok (p, h') \<and>
      HOST_MEMORY h' = (HOST_MEMORY (demo_host ?s [] [5]))(p \<mapsto> ?bytes) \<and> borsh_result_de ref_ext ?bytes = Inr d"
    using event_success_iff [OF mock.host_abi_live_axioms codec_laws_ref_ext, of "demo_host ?s [] [5]" 1000 ?s
        1001 "[]" 1002 "[5]" ref_serde 1 contract_logic ?bytes]
    by (fastforce simp: reset_owner_answer reset_answer_bytes)
  then show ?thesis using de by (auto simp: get_data_def)
qed

theorem init_state_fallback_witness:
  "\<exists>h1. read_state_or_init mock_ops ref_ext ref_serde 1000 1001
     (demo_host [] (state_payload \<lparr>one = 1, two = 2, three = 3\<rparr>) [5]) =
     Ok (Inr \<lparr>one = 1, two = 2, three = 3\<rparr>, h1)"
proof -
  let ?i = "state_payload \<lparr>one = 1, two = 2, three = 3\<rparr>"
  let ?bytes = "borsh_frame (state_payload \<lparr>one = 0, two = 0, three = 0\<rparr>) @ enc_bool True @ borsh_frame []"
  have room: "mock_room (demo_host [] ?i [5]) (length ?bytes)"
    by (rule demo_host_room) (simp add: i32_max_def enc_bool_def)
  have inv: "mock_inv (demo_host [] ?i [5])" by (rule demo_host_inv) simp_all
  have ser: "borsh_result_ser ref_ext (event_response ref_ext ref_serde (borsh_frame []) (borsh_frame ?i)
      (borsh_frame [5]) 1 contract_logic) = Inr ?bytes"
    by (simp only: fallback_owner_answer reset_answer_bytes)
  from init_state_fallback [OF mock.host_abi_live_axioms codec_laws_ref_ext inv demo_host_view _ _ _ ser room]
  show ?thesis by fastforce
qed

end
