(* ===== verification/Ave_Host_Memory.thy ===== *)
theory Ave_Host_Memory
  imports Ave_Config
begin

text \<open>
  \<open>src/runtime/host.rs\<close>: the host-side memory manager. One flat byte vector backs all
  allocations; \<open>mm_map\<close> records the length of each allocation under its offset. The operations
  are the methods of \<open>MemoryManager\<close> with every check in the order of the code; slicing that
  could panic goes through \<open>index_range\<close> and \<open>copy_range\<close>, so that \<open>Panic\<close> is a
  possible result until it is proved away.

  The invariant \<open>mm_inv\<close> says that the recorded regions tile the vector. The abstraction
  \<open>mm_view\<close> forgets the vector and keeps a map from pointers to contents; the locale
  \<open>region_heap\<close> is the contract of such a heap, and the interpretation \<open>mm\<close> shows that
  the memory manager meets it. The staging code of the runtime is verified against the locale.
\<close>

section \<open>State\<close>

text \<open>The settings given to wasmtime's \<open>StoreLimitsBuilder\<close>.\<close>

record store_limits =
  sl_memory_size :: nat
  sl_table_elements :: nat
  sl_instances :: nat
  sl_tables :: nat
  sl_memories :: nat
  sl_trap_on_grow_failure :: bool

record memory_manager =
  mm_memory :: "byte list"
  mm_map :: "nat \<rightharpoonup> nat"
  mm_store_limits :: store_limits
  mm_max_single_alloc :: nat
  mm_max_total_memory :: nat

definition from_limits :: "wasm_limits \<Rightarrow> memory_manager" where
  "from_limits limits =
     \<lparr>mm_memory = [],
      mm_map = Map.empty,
      mm_store_limits =
        \<lparr>sl_memory_size = wl_memory_size limits,
         sl_table_elements = wl_max_table_elements limits,
         sl_instances = 1,
         sl_tables = 1,
         sl_memories = 1,
         sl_trap_on_grow_failure = True\<rparr>,
      mm_max_single_alloc = wl_max_single_alloc limits,
      mm_max_total_memory = wl_max_total_memory limits\<rparr>"

definition default_memory_manager :: memory_manager where
  "default_memory_manager = from_limits default_limits"

section \<open>Operations\<close>

text \<open>\<open>Vec::resize\<close>\<close>

definition resize :: "'a list \<Rightarrow> nat \<Rightarrow> 'a \<Rightarrow> 'a list" where
  "resize xs n v = take n xs @ replicate (n - length xs) v"

definition alloc :: "memory_manager \<Rightarrow> nat \<Rightarrow> (nat \<times> memory_manager, contract_error) outcome" where
  "alloc m len =
     (if len > mm_max_single_alloc m then Err (AllocationTooLarge len (mm_max_single_alloc m))
      else
        (let current_len = length (mm_memory m)
         in obind (ok_or (checked_add current_len len) AllocationOverflow) (\<lambda>new_len.
              if new_len > mm_max_total_memory m
              then Err (TotalMemoryExceeded new_len (mm_max_total_memory m))
              else
                (let m1 = m\<lparr>mm_memory := resize (mm_memory m) new_len 0\<rparr>;
                     m2 = (if len > 0 then m1\<lparr>mm_map := (mm_map m1)(current_len \<mapsto> len)\<rparr> else m1)
                 in Ok (current_len, m2)))))"

definition read_data :: "memory_manager \<Rightarrow> nat \<Rightarrow> (byte list, contract_error) outcome" where
  "read_data m ptr =
     obind (ok_or (mm_map m ptr) (InvalidPointer ptr)) (\<lambda>len.
     obind (ok_or (checked_add ptr len) (InvalidPointer ptr)) (\<lambda>end'.
       if end' > length (mm_memory m) then Err (InvalidPointer ptr)
       else index_range (mm_memory m) ptr end'))"

definition read_bytes :: "memory_manager \<Rightarrow> nat \<Rightarrow> nat \<Rightarrow> (byte list, contract_error) outcome" where
  "read_bytes m ptr len =
     obind (ok_or (checked_add ptr len) (InvalidPointer ptr)) (\<lambda>end'.
       if end' > length (mm_memory m) then Err (InvalidPointer ptr)
       else index_range (mm_memory m) ptr end')"

definition write_bytes ::
    "memory_manager \<Rightarrow> nat \<Rightarrow> byte list \<Rightarrow> (memory_manager, contract_error) outcome" where
  "write_bytes m ptr dat =
     obind (ok_or (mm_map m ptr) (InvalidPointer ptr)) (\<lambda>len.
       if length dat > len then Err (WriteOutOfBounds (length dat) len)
       else
         obind (ok_or (checked_add ptr (length dat)) (InvalidPointer ptr)) (\<lambda>end'.
           if end' > length (mm_memory m) then Err (InvalidPointer ptr)
           else obind (copy_range (mm_memory m) ptr end' dat) (\<lambda>mem. Ok (m\<lparr>mm_memory := mem\<rparr>))))"

definition write_bytes_at ::
    "memory_manager \<Rightarrow> nat \<Rightarrow> nat \<Rightarrow> byte list \<Rightarrow> (memory_manager, contract_error) outcome" where
  "write_bytes_at m ptr offset dat =
     obind (ok_or (mm_map m ptr) (InvalidPointer ptr)) (\<lambda>len.
     obind (ok_or (checked_add ptr offset) (InvalidPointer ptr)) (\<lambda>start.
     obind (ok_or (checked_add start (length dat)) (InvalidPointer ptr)) (\<lambda>end'.
       if end' > saturating_add ptr len \<or> end' > length (mm_memory m)
       then Err (WriteOutOfBounds (saturating_add offset (length dat)) len)
       else obind (copy_range (mm_memory m) start end' dat) (\<lambda>mem. Ok (m\<lparr>mm_memory := mem\<rparr>)))))"

definition add_data_raw ::
    "memory_manager \<Rightarrow> byte list \<Rightarrow> (nat \<times> memory_manager, contract_error) outcome" where
  "add_data_raw m bytes =
     obind (alloc m (length bytes)) (\<lambda>(ptr, m1).
     obind (copy_range (mm_memory m1) ptr (ptr + length bytes) bytes) (\<lambda>mem.
       Ok (ptr, m1\<lparr>mm_memory := mem\<rparr>)))"

text \<open>\<open>len as isize\<close>\<close>

definition usize_as_isize :: "nat \<Rightarrow> int" where
  "usize_as_isize n = sint (word_of_nat n :: 64 word)"

definition get_pointer_len :: "memory_manager \<Rightarrow> nat \<Rightarrow> int" where
  "get_pointer_len m ptr = (case mm_map m ptr of None \<Rightarrow> - 1 | Some len \<Rightarrow> usize_as_isize len)"

definition checked_guest_len :: "i32 \<Rightarrow> nat \<Rightarrow> (nat, contract_error) outcome" where
  "checked_guest_len len max_single_alloc =
     (if sint len < 0 then Err (InvalidLength len)
      else
        (let len' = i32_as_usize len
         in if len' > max_single_alloc then Err (AllocationTooLarge len' max_single_alloc)
            else Ok len'))"

section \<open>Invariant and abstraction\<close>

definition mm_inv :: "memory_manager \<Rightarrow> bool" where
  "mm_inv m \<longleftrightarrow>
     length (mm_memory m) \<le> mm_max_total_memory m \<and> mm_max_total_memory m \<le> usize_max \<and>
     (\<forall>p l. mm_map m p = Some l \<longrightarrow>
        0 < l \<and> l \<le> mm_max_single_alloc m \<and> p + l \<le> length (mm_memory m)) \<and>
     (\<forall>p l q k. mm_map m p = Some l \<longrightarrow> mm_map m q = Some k \<longrightarrow> p < q \<longrightarrow> p + l \<le> q) \<and>
     (\<forall>i < length (mm_memory m). \<exists>p l. mm_map m p = Some l \<and> p \<le> i \<and> i < p + l)"

definition mm_view :: "memory_manager \<Rightarrow> nat \<Rightarrow> byte list option" where
  "mm_view m p = map_option (\<lambda>l. take l (drop p (mm_memory m))) (mm_map m p)"

section \<open>The contract of a heap of regions\<close>

locale region_heap =
  fixes inv :: "'h \<Rightarrow> bool"
    and view :: "'h \<Rightarrow> nat \<Rightarrow> byte list option"
    and alloc :: "'h \<Rightarrow> nat \<Rightarrow> (nat \<times> 'h, 'e) outcome"
    and write_at :: "'h \<Rightarrow> nat \<Rightarrow> nat \<Rightarrow> byte list \<Rightarrow> ('h, 'e) outcome"
  assumes alloc_inv: "inv h \<Longrightarrow> alloc h n = Ok (p, h') \<Longrightarrow> inv h'"
    and alloc_no_panic: "inv h \<Longrightarrow> alloc h n \<noteq> Panic"
    and alloc_view: "inv h \<Longrightarrow> alloc h n = Ok (p, h') \<Longrightarrow> 0 < n \<Longrightarrow>
      view h p = None \<and> view h' = (view h)(p \<mapsto> replicate n 0)"
    and write_at_ok: "inv h \<Longrightarrow> view h p = Some bs \<Longrightarrow> off + length d \<le> length bs \<Longrightarrow>
      \<exists>h'. write_at h p off d = Ok h' \<and> inv h' \<and>
        view h' = (view h)(p \<mapsto> take off bs @ d @ drop (off + length d) bs)"
begin

text \<open>Filling a fresh region piece by piece: a header and the payload behind it.\<close>

lemma stage_two_pieces:
  assumes "inv h" and "alloc h (length hdr + length payload) = Ok (p, h1)" and "hdr \<noteq> []"
  shows "\<exists>h2 h3. write_at h1 p 0 hdr = Ok h2 \<and> write_at h2 p (length hdr) payload = Ok h3 \<and>
    inv h3 \<and> view h p = None \<and> view h3 = (view h)(p \<mapsto> hdr @ payload)"
proof -
  let ?n = "length hdr + length payload"
  from assms have i1: "inv h1" and fresh: "view h p = None"
    and v1: "view h1 = (view h)(p \<mapsto> replicate ?n 0)"
    using alloc_inv [OF assms(1,2)] alloc_view [OF assms(1,2)] by auto
  obtain h2 where h2: "write_at h1 p 0 hdr = Ok h2" "inv h2"
    "view h2 = (view h1)(p \<mapsto> take 0 (replicate ?n 0) @ hdr @ drop (0 + length hdr) (replicate ?n 0))"
    using write_at_ok [OF i1, of p "replicate ?n 0" 0 hdr] v1 by auto
  let ?b2 = "hdr @ replicate (length payload) 0"
  have v2: "view h2 p = Some ?b2" using h2(3) by simp
  obtain h3 where h3: "write_at h2 p (length hdr) payload = Ok h3" "inv h3"
    "view h3 = (view h2)(p \<mapsto> take (length hdr) ?b2 @ payload @ drop (length hdr + length payload) ?b2)"
    using write_at_ok [OF h2(2) v2, of "length hdr" payload] by auto
  have "view h3 = (view h)(p \<mapsto> hdr @ payload)"
    using h3(3) h2(3) v1 by simp
  with h2(1) h3(1,2) fresh show ?thesis by blast
qed

end

section \<open>Lemmas on the operations\<close>

lemma alloc_eq_Ok [outcome_simps]:
  "alloc m len = Ok (p, m') \<longleftrightarrow>
     len \<le> mm_max_single_alloc m \<and> length (mm_memory m) + len \<le> usize_max \<and>
     length (mm_memory m) + len \<le> mm_max_total_memory m \<and> p = length (mm_memory m) \<and>
     m' = m\<lparr>mm_memory := mm_memory m @ replicate len 0,
            mm_map := (if len > 0 then (mm_map m)(p \<mapsto> len) else mm_map m)\<rparr>"
  by (auto simp: alloc_def Let_def checked_add_def resize_def split: if_splits)

lemma mm_alloc_no_panic: "alloc m len \<noteq> Panic"
  by (auto simp: alloc_def Let_def checked_add_def)

lemma mm_view_eq_Some:
  "mm_view m p = Some bs \<longleftrightarrow> (\<exists>l. mm_map m p = Some l \<and> bs = take l (drop p (mm_memory m)))"
  by (auto simp: mm_view_def)

lemma mm_invD:
  assumes "mm_inv m" and "mm_map m p = Some l"
  shows "0 < l" and "l \<le> mm_max_single_alloc m" and "p + l \<le> length (mm_memory m)"
    and "p + l \<le> usize_max"
  using assms by (auto simp: mm_inv_def dest: spec) (meson le_trans)

lemma mm_view_length:
  "mm_inv m \<Longrightarrow> mm_map m p = Some l \<Longrightarrow> mm_view m p = Some bs \<Longrightarrow> length bs = l"
  using mm_invD(3) [of m p l] by (auto simp: mm_view_def)

lemma mm_inv_from_limits:
  "wl_max_total_memory limits \<le> usize_max \<Longrightarrow> mm_inv (from_limits limits)"
  by (simp add: mm_inv_def from_limits_def)

lemma from_limits_caps [simp]:
  "mm_max_total_memory (from_limits limits) = wl_max_total_memory limits"
  "mm_max_single_alloc (from_limits limits) = wl_max_single_alloc limits"
  "mm_memory (from_limits limits) = []" "mm_map (from_limits limits) = Map.empty"
  by (simp_all add: from_limits_def)

lemma mm_inv_disjoint:
  assumes "mm_inv m" "mm_map m p = Some l" "mm_map m q = Some k" "p \<noteq> q"
  shows "p + l \<le> q \<or> q + k \<le> p"
  using assms by (meson linorder_neqE_nat mm_inv_def)

subsection \<open>Allocation\<close>

text \<open>A region appended behind all others stays behind them.\<close>

lemma append_region_disjoint:
  assumes inv: "mm_inv m" and p: "p = length (mm_memory m)"
    and m1: "((mm_map m)(p \<mapsto> len)) q = Some k" and m2: "((mm_map m)(p \<mapsto> len)) q' = Some k'"
    and lt: "q < q'"
  shows "q + k \<le> q'"
proof -
  have below: "r + l \<le> p" if "mm_map m r = Some l" for r l
    using mm_invD(3) [OF inv that] p by simp
  consider "q = p" "mm_map m q' = Some k'" | "q' = p" "mm_map m q = Some k"
    | "mm_map m q = Some k" "mm_map m q' = Some k'"
    using m1 m2 lt by (auto split: if_splits)
  then show ?thesis
  proof cases
    case 1
    with below [OF 1(2)] lt show ?thesis by linarith
  next
    case 2
    with below [OF 2(2)] show ?thesis by simp
  next
    case 3
    with mm_inv_disjoint [OF inv 3] lt show ?thesis by linarith
  qed
qed

lemma alloc_mm_inv:
  assumes inv: "mm_inv m" and ok: "alloc m len = Ok (p, m')"
  shows "mm_inv m'"
proof -
  from ok have facts: "len \<le> mm_max_single_alloc m"
      "length (mm_memory m) + len \<le> mm_max_total_memory m" "p = length (mm_memory m)"
    and m': "m' = m\<lparr>mm_memory := mm_memory m @ replicate len 0,
            mm_map := (if len > 0 then (mm_map m)(p \<mapsto> len) else mm_map m)\<rparr>"
    by (simp_all add: outcome_simps)
  have below: "q + k \<le> p" if "mm_map m q = Some k" for q k
    using mm_invD(3) [OF inv that] facts(3) by simp
  have tile: "\<exists>q k. mm_map m' q = Some k \<and> q \<le> i \<and> i < q + k" if "i < length (mm_memory m')" for i
  proof (cases "i < p")
    case True
    with inv facts(3) obtain q k where "mm_map m q = Some k" "q \<le> i" "i < q + k"
      unfolding mm_inv_def by blast
    with True show ?thesis
      by (intro exI [of _ q] exI [of _ k]) (simp add: m')
  next
    case False
    with that facts(3) show ?thesis
      by (intro exI [of _ p] exI [of _ len]) (auto simp: m')
  qed
  have region: "0 < k \<and> k \<le> mm_max_single_alloc m' \<and> q + k \<le> length (mm_memory m')"
    if "mm_map m' q = Some k" for q k
    using that mm_invD(1-3) [OF inv, of q k] facts by (auto simp: m' split: if_splits)
  have disjoint: "q + k \<le> q'" if "mm_map m' q = Some k" and "mm_map m' q' = Some k'"
    and "q < q'" for q k q' k'
    using append_region_disjoint [OF inv facts(3), of len q k q' k'] that
      mm_inv_disjoint [OF inv, of q k q' k'] by (cases "len > 0") (simp_all add: m')
  have "length (mm_memory m') \<le> mm_max_total_memory m'" "mm_max_total_memory m' \<le> usize_max"
    using inv facts(2) by (simp_all add: m' mm_inv_def)
  then show ?thesis
    unfolding mm_inv_def using tile region disjoint by blast
qed

lemma alloc_mm_view:
  assumes inv: "mm_inv m" and ok: "alloc m len = Ok (p, m')" and "0 < len"
  shows "mm_view m p = None \<and> mm_view m' = (mm_view m)(p \<mapsto> replicate len 0)"
proof -
  from ok \<open>0 < len\<close> have p: "p = length (mm_memory m)"
    and m': "m' = m\<lparr>mm_memory := mm_memory m @ replicate len 0, mm_map := (mm_map m)(p \<mapsto> len)\<rparr>"
    by (simp_all add: outcome_simps)
  have old: "q + k \<le> p \<and> 0 < k" if "mm_map m q = Some k" for q k
    using mm_invD(1,3) [OF inv that] p by simp
  have "mm_map m p = None"
    using old [of p] by (cases "mm_map m p") auto
  moreover have "mm_view m' q = ((mm_view m)(p \<mapsto> replicate len 0)) q" for q
    using old [of q] p by (cases "mm_map m q") (auto simp: mm_view_def m' window_append)
  ultimately show ?thesis
    by (auto simp: mm_view_def)
qed

text \<open>A zero-length allocation is not tracked and changes nothing.\<close>

lemma alloc_zero: "mm_inv m \<Longrightarrow> alloc m 0 = Ok (length (mm_memory m), m)"
  by (auto simp: outcome_simps mm_inv_def intro: le_trans)

subsection \<open>Reading\<close>

lemma read_data_view:
  assumes "mm_inv m"
  shows "read_data m p = (case mm_view m p of None \<Rightarrow> Err (InvalidPointer p) | Some bs \<Rightarrow> Ok bs)"
proof (cases "mm_map m p")
  case None
  then show ?thesis by (simp add: read_data_def mm_view_def)
next
  case (Some l)
  with mm_invD [OF assms Some] show ?thesis
    by (simp add: read_data_def mm_view_def checked_add_def index_range_def)
qed

lemma read_bytes_cases:
  assumes "mm_inv m"
  shows "read_bytes m p n = (if p + n \<le> length (mm_memory m)
    then Ok (take n (drop p (mm_memory m))) else Err (InvalidPointer p))"
  using assms by (auto simp: read_bytes_def checked_add_def index_range_def mm_inv_def)

subsection \<open>Writing\<close>

text \<open>Both write operations are one update of the byte vector inside a region.\<close>

lemma splice_mm_inv:
  assumes "mm_inv m" and "length mem = length (mm_memory m)"
  shows "mm_inv (m\<lparr>mm_memory := mem\<rparr>)"
  using assms by (simp add: mm_inv_def)

lemma splice_mm_view:
  assumes inv: "mm_inv m" and l: "mm_map m p = Some l" and fit: "off + length d \<le> l"
    and bs: "mm_view m p = Some bs"
  shows "mm_view (m\<lparr>mm_memory := take (p + off) (mm_memory m) @ d @ drop (p + off + length d) (mm_memory m)\<rparr>)
    = (mm_view m)(p \<mapsto> take off bs @ d @ drop (off + length d) bs)"
proof (rule ext)
  fix q
  let ?m' = "m\<lparr>mm_memory := take (p + off) (mm_memory m) @ d @ drop (p + off + length d) (mm_memory m)\<rparr>"
  have b: "p + l \<le> length (mm_memory m)" using mm_invD(3) [OF inv l] .
  have bs': "bs = take l (drop p (mm_memory m))" using bs l by (simp add: mm_view_def)
  show "mm_view ?m' q = ((mm_view m)(p \<mapsto> take off bs @ d @ drop (off + length d) bs)) q"
  proof (cases "q = p")
    case True
    have "take l (drop p (take (p + off) (mm_memory m) @ d @ drop (p + off + length d) (mm_memory m)))
        = take (p + off - p) bs @ d @ drop (p + off - p + length d) bs"
      unfolding bs' by (rule window_after_splice_inside) (use b fit in auto)
    then show ?thesis using True l by (simp add: mm_view_def)
  next
    case False
    show ?thesis
    proof (cases "mm_map m q")
      case (Some k)
      have "q + k \<le> p + off \<or> p + off + length d \<le> q"
        using mm_inv_disjoint [OF inv l Some] False fit by auto
      then have "take k (drop q (take (p + off) (mm_memory m) @ d @ drop (p + off + length d) (mm_memory m)))
          = take k (drop q (mm_memory m))"
        by (intro window_after_splice_disjoint) (use b fit in auto)
      then show ?thesis using Some False by (simp add: mm_view_def)
    qed (use False in \<open>simp add: mm_view_def\<close>)
  qed
qed

lemma write_bytes_at_region:
  assumes inv: "mm_inv m" and l: "mm_map m p = Some l"
  shows "write_bytes_at m p off d =
    (if p + off > usize_max \<or> p + off + length d > usize_max then Err (InvalidPointer p)
     else if off + length d > l then Err (WriteOutOfBounds (saturating_add off (length d)) l)
     else Ok (m\<lparr>mm_memory := take (p + off) (mm_memory m) @ d @ drop (p + off + length d) (mm_memory m)\<rparr>))"
  using mm_invD(3,4) [OF inv l]
  by (auto simp: write_bytes_at_def l checked_add_def copy_range_def saturating_add_def)

lemma write_bytes_region:
  assumes inv: "mm_inv m" and l: "mm_map m p = Some l"
  shows "write_bytes m p d =
    (if length d > l then Err (WriteOutOfBounds (length d) l)
     else Ok (m\<lparr>mm_memory := take p (mm_memory m) @ d @ drop (p + length d) (mm_memory m)\<rparr>))"
  using mm_invD(3,4) [OF inv l]
  by (auto simp: write_bytes_def l checked_add_def copy_range_def)

lemma write_untracked:
  assumes "mm_map m p = None"
  shows "write_bytes m p d = Err (InvalidPointer p)" and "write_bytes_at m p off d = Err (InvalidPointer p)"
  using assms by (simp_all add: write_bytes_def write_bytes_at_def)

lemma write_bytes_at_refines:
  assumes inv: "mm_inv m" and bs: "mm_view m p = Some bs" and fit: "off + length d \<le> length bs"
  shows "\<exists>m'. write_bytes_at m p off d = Ok m' \<and> mm_inv m' \<and>
    mm_view m' = (mm_view m)(p \<mapsto> take off bs @ d @ drop (off + length d) bs)"
proof -
  from bs obtain l where l: "mm_map m p = Some l" by (auto simp: mm_view_eq_Some)
  have len: "length bs = l" using mm_view_length [OF inv l bs] .
  let ?m' = "m\<lparr>mm_memory := take (p + off) (mm_memory m) @ d @ drop (p + off + length d) (mm_memory m)\<rparr>"
  have "write_bytes_at m p off d = Ok ?m'"
    using fit len mm_invD(4) [OF inv l] by (simp add: write_bytes_at_region [OF inv l])
  moreover have "mm_inv ?m'"
    using fit len mm_invD(3) [OF inv l] by (intro splice_mm_inv [OF inv]) simp
  ultimately show ?thesis
    using splice_mm_view [OF inv l _ bs, of off d] fit len by auto
qed

text \<open>\<open>write_bytes\<close> is \<open>write_bytes_at\<close> with offset zero wherever both succeed.\<close>

lemma write_bytes_eq_at_zero:
  assumes "mm_inv m" and "mm_view m p = Some bs" and "length d \<le> length bs"
  shows "write_bytes m p d = write_bytes_at m p 0 d"
proof -
  from assms(2) obtain l where l: "mm_map m p = Some l" by (auto simp: mm_view_eq_Some)
  with assms show ?thesis
    using mm_view_length [OF assms(1) l assms(2)] mm_invD(4) [OF assms(1) l]
    by (simp add: write_bytes_region [OF assms(1) l] write_bytes_at_region [OF assms(1) l])
qed

interpretation mm: region_heap mm_inv mm_view alloc write_bytes_at
  by unfold_locales (simp_all add: alloc_mm_inv mm_alloc_no_panic alloc_mm_view write_bytes_at_refines)

lemma write_bytes_refines:
  assumes "mm_inv m" and "mm_view m p = Some bs" and "length d \<le> length bs"
  shows "\<exists>m'. write_bytes m p d = Ok m' \<and> mm_inv m' \<and>
    mm_view m' = (mm_view m)(p \<mapsto> d @ drop (length d) bs)"
  using mm.write_at_ok [OF assms(1,2), of 0 d] assms by (simp add: write_bytes_eq_at_zero)

lemma write_bytes_keeps:
  assumes "mm_inv m" and "write_bytes m p d = Ok m'"
  shows "mm_inv m' \<and> mm_map m' = mm_map m \<and> length (mm_memory m') = length (mm_memory m) \<and>
    mm_max_total_memory m' = mm_max_total_memory m \<and> mm_max_single_alloc m' = mm_max_single_alloc m"
proof -
  obtain l where l: "mm_map m p = Some l" "length d \<le> l"
    using assms(2) by (auto simp: write_bytes_def outcome_simps split: if_splits)
  then have m': "m' = m\<lparr>mm_memory := take p (mm_memory m) @ d @ drop (p + length d) (mm_memory m)\<rparr>"
    using assms by (simp add: write_bytes_region)
  have "p + l \<le> length (mm_memory m)" using mm_invD(3) [OF assms(1) l(1)] .
  with l(2) show ?thesis unfolding m' by (simp add: splice_mm_inv [OF assms(1)])
qed

lemma write_bytes_view:
  assumes "mm_inv m" and "write_bytes m p d = Ok m'"
  shows "\<exists>bs. mm_view m p = Some bs \<and> length d \<le> length bs \<and>
    mm_view m' = (mm_view m)(p \<mapsto> d @ drop (length d) bs)"
proof -
  obtain l where l: "mm_map m p = Some l" "length d \<le> l"
    using assms(2) by (auto simp: write_bytes_def outcome_simps split: if_splits)
  then obtain bs where bs: "mm_view m p = Some bs" by (simp add: mm_view_def)
  with mm_view_length [OF assms(1) l(1) bs] l(2) write_bytes_refines [OF assms(1) bs, of d] assms(2)
  show ?thesis by auto
qed

lemma write_bytes_at_keeps:
  assumes "mm_inv m" and "write_bytes_at m p off d = Ok m'"
  shows "mm_inv m'"
proof -
  obtain l where l: "mm_map m p = Some l"
    using assms(2) by (auto simp: write_bytes_at_def outcome_simps)
  then have "off + length d \<le> l"
    and m': "m' = m\<lparr>mm_memory := take (p + off) (mm_memory m) @ d @ drop (p + off + length d) (mm_memory m)\<rparr>"
    using assms by (auto simp: write_bytes_at_region split: if_splits)
  with mm_invD(3) [OF assms(1) l] show ?thesis
    unfolding m' by (intro splice_mm_inv [OF assms(1)]) simp
qed

lemma write_no_panic:
  assumes "mm_inv m"
  shows "write_bytes m p d \<noteq> Panic" and "write_bytes_at m p off d \<noteq> Panic"
  by (cases "mm_map m p"; simp add: write_untracked write_bytes_region [OF assms]
      write_bytes_at_region [OF assms])+

text \<open>\<open>add_data_raw\<close> never reaches the panic of its slice copy.\<close>

lemma add_data_raw_eq:
  "add_data_raw m bytes =
     obind (alloc m (length bytes)) (\<lambda>(p, m1). Ok (p, m1\<lparr>mm_memory := mm_memory m @ bytes\<rparr>))"
proof (cases "alloc m (length bytes)")
  case (Ok pm)
  obtain p m1 where pm: "pm = (p, m1)" by (cases pm)
  from Ok pm have "p = length (mm_memory m)" "mm_memory m1 = mm_memory m @ replicate (length bytes) 0"
    by (simp_all add: outcome_simps)
  then show ?thesis
    using Ok pm by (simp add: add_data_raw_def copy_range_def)
qed (simp_all add: add_data_raw_def)

lemma add_data_raw_view:
  assumes inv: "mm_inv m" and ok: "add_data_raw m bytes = Ok (p, m')"
  shows "mm_inv m'"
    and "bytes \<noteq> [] \<Longrightarrow> mm_view m p = None \<and> mm_view m' = (mm_view m)(p \<mapsto> bytes)"
proof -
  from ok obtain m1 where a: "alloc m (length bytes) = Ok (p, m1)"
    and m': "m' = m1\<lparr>mm_memory := mm_memory m @ bytes\<rparr>"
    by (auto simp: add_data_raw_eq outcome_simps)
  have mem: "mm_memory m1 = mm_memory m @ replicate (length bytes) 0" and p: "p = length (mm_memory m)"
    using a by (simp_all add: outcome_simps)
  note i1 = mm.alloc_inv [OF inv a]
  show "mm_inv m'"
    unfolding m' by (rule splice_mm_inv [OF i1]) (simp add: mem)
  assume ne: "bytes \<noteq> []"
  then have v: "mm_view m p = None" "mm_view m1 = (mm_view m)(p \<mapsto> replicate (length bytes) 0)"
    using mm.alloc_view [OF inv a] by simp_all
  have l: "mm_map m1 p = Some (length bytes)" using a ne by (simp add: outcome_simps)
  have "mm_view m' = (mm_view m1)(p \<mapsto> bytes)"
    using splice_mm_view [OF i1 l, of 0 bytes] v(2) p mem by (simp add: m')
  with v show "mm_view m p = None \<and> mm_view m' = (mm_view m)(p \<mapsto> bytes)" by simp
qed

lemma usize_as_isize_id:
  assumes "n < 2 ^ 63"
  shows "usize_as_isize n = int n"
proof -
  have "sint (word_of_int (int n) :: 64 word) = (int n + 2 ^ 63) mod 2 ^ 64 - 2 ^ 63"
    using int_word_sint [of "int n", where ?'a = 64] by simp
  also have "(int n + 2 ^ 63) mod 2 ^ 64 = int n + 2 ^ 63"
    using assms by (intro mod_pos_pos_trivial) simp_all
  finally show ?thesis by (simp add: usize_as_isize_def)
qed

lemma add_data_raw_no_panic: "add_data_raw m d \<noteq> Panic"
  using mm_alloc_no_panic [of m "length d"] by (auto simp: add_data_raw_eq outcome_simps)

lemma card_regions_le:
  assumes "mm_inv m"
  shows "finite (dom (mm_map m)) \<and> card (dom (mm_map m)) \<le> length (mm_memory m) \<and>
    card (dom (mm_map m)) \<le> mm_max_total_memory m"
proof -
  have sub: "dom (mm_map m) \<subseteq> {..<length (mm_memory m)}"
    using mm_invD(1,3) [OF assms] by fastforce
  then have "card (dom (mm_map m)) \<le> length (mm_memory m)"
    using card_mono [OF finite_lessThan sub] by simp
  moreover have "length (mm_memory m) \<le> mm_max_total_memory m"
    using assms by (simp add: mm_inv_def)
  ultimately show ?thesis
    using sub by (auto intro: finite_subset)
qed

lemma mm_inv_default: "mm_inv default_memory_manager"
  unfolding default_memory_manager_def default_limits_def
  using ram_steps_bounds [of 4096] by (intro mm_inv_from_limits) (simp add: build_fields usize_max_def)

section \<open>Properties\<close>

text \<open>
  (C3) The representation invariant of the memory manager (total size within the cap, tracked
  regions inside the vector, non-empty, pairwise disjoint and covering it) is kept by every
  operation that changes the manager, whatever pointers, offsets and data it is given.
\<close>

theorem memory_manager_invariant:
  assumes "mm_inv m"
  shows "(\<forall>n p m'. alloc m n = Ok (p, m') \<longrightarrow> mm_inv m') \<and>
    (\<forall>p d m'. write_bytes m p d = Ok m' \<longrightarrow> mm_inv m') \<and>
    (\<forall>p off d m'. write_bytes_at m p off d = Ok m' \<longrightarrow> mm_inv m') \<and>
    (\<forall>d p m'. add_data_raw m d = Ok (p, m') \<longrightarrow> mm_inv m')"
  using mm.alloc_inv [OF assms] write_bytes_keeps [OF assms] write_bytes_at_keeps [OF assms]
    add_data_raw_view(1) [OF assms]
  by blast

theorem memory_manager_invariant_witness:
  "\<exists>m'. add_data_raw default_memory_manager [7, 8] = Ok (0, m') \<and> mm_inv m'"
proof -
  have "\<exists>m'. add_data_raw default_memory_manager [7, 8] = Ok (0, m')"
    by (simp add: add_data_raw_def alloc_def copy_range_def checked_add_def resize_def Let_def
        default_memory_manager_def default_limits_def from_limits_def build_fields ram_steps_def
        clamp_def usize_max_def)
  then show ?thesis
    using memory_manager_invariant [OF mm_inv_default] by blast
qed

text \<open>
  (C24) No operation of the memory manager panics: every slice the code takes is in range, for any
  pointer, offset, length and data, including ones chosen by a hostile guest.
\<close>

theorem memory_manager_no_panic:
  assumes "mm_inv m"
  shows "alloc m n \<noteq> Panic \<and> read_data m p \<noteq> Panic \<and> read_bytes m p n \<noteq> Panic \<and>
    write_bytes m p d \<noteq> Panic \<and> write_bytes_at m p off d \<noteq> Panic \<and> add_data_raw m d \<noteq> Panic"
  by (simp add: assms mm_alloc_no_panic read_data_view read_bytes_cases write_no_panic
      add_data_raw_no_panic split: option.split)

theorem memory_manager_no_panic_witness:
  "write_bytes_at default_memory_manager usize_max usize_max [1] \<noteq> Panic"
  using memory_manager_no_panic [OF mm_inv_default, of 0 usize_max "[1]" usize_max] by blast

text \<open>
  \<open>alloc\<close> on every branch: a request over the single cap or over the total cap is
  refused with the sizes in the error and nothing changes; otherwise the result is the old end of
  the vector, the new bytes are zero, and the region is tracked exactly when it is not empty. The
  overflow error arises only when the sum leaves 64 bits, which the code checks before the cap.
\<close>

lemma alloc_branches:
  assumes "mm_inv m"
  shows "alloc m len =
    (if mm_max_single_alloc m < len then Err (AllocationTooLarge len (mm_max_single_alloc m))
     else if mm_max_total_memory m < length (mm_memory m) + len
     then (if usize_max < length (mm_memory m) + len then Err AllocationOverflow
           else Err (TotalMemoryExceeded (length (mm_memory m) + len) (mm_max_total_memory m)))
     else Ok (length (mm_memory m),
       m\<lparr>mm_memory := mm_memory m @ replicate len 0,
         mm_map := (if len = 0 then mm_map m else (mm_map m)(length (mm_memory m) \<mapsto> len))\<rparr>))"
  using assms by (auto simp: alloc_def Let_def checked_add_def resize_def mm_inv_def)

text \<open>
  (C25) Staging bytes and reading them back: after \<open>add_data_raw\<close> of a non-empty block the new
  pointer was unknown before, \<open>read_data\<close> returns exactly the block, \<open>get_pointer_len\<close>
  its length, and every other pointer reads what it read before.
\<close>

theorem add_data_raw_round_trip:
  assumes "mm_inv m" and "add_data_raw m bytes = Ok (p, m')" and "bytes \<noteq> []"
    and "length bytes < 2 ^ 63"
  shows "read_data m p = Err (InvalidPointer p) \<and> read_data m' p = Ok bytes \<and>
    get_pointer_len m' p = int (length bytes) \<and>
    (\<forall>q. q \<noteq> p \<longrightarrow> read_data m' q = read_data m q)"
proof -
  note v = add_data_raw_view [OF assms(1,2)]
  have vp: "mm_view m' p = Some bytes" using v(2) [OF assms(3)] by simp
  then obtain l where l: "mm_map m' p = Some l" by (auto simp: mm_view_eq_Some)
  with mm_view_length [OF v(1) l vp] show ?thesis
    using v(1) v(2) [OF assms(3)] assms(1,4)
    by (simp add: read_data_view get_pointer_len_def usize_as_isize_id)
qed

theorem add_data_raw_round_trip_witness:
  "\<exists>m'. add_data_raw default_memory_manager [7, 8] = Ok (0, m') \<and> read_data m' 0 = Ok [7, 8] \<and>
    get_pointer_len m' 0 = 2"
proof -
  have "\<exists>m'. add_data_raw default_memory_manager [7, 8] = Ok (0, m')"
    by (simp add: add_data_raw_def alloc_def copy_range_def checked_add_def resize_def Let_def
        default_memory_manager_def default_limits_def from_limits_def build_fields ram_steps_def
        clamp_def usize_max_def)
  then show ?thesis
    using add_data_raw_round_trip [OF mm_inv_default, of "[7, 8]" 0] by auto
qed

text \<open>
  (C15) Writing refines the update of one entry of a map from pointers to contents. A write that
  fits replaces the addressed bytes of its own region and leaves every other region as it was; a
  write that does not fit, or through a pointer that is not the start of a tracked region, is an
  error. So no write can cross from one allocation into another.
\<close>

theorem write_bytes_refines_map_update:
  assumes "mm_inv m"
  shows "write_bytes m p d =
      (case mm_view m p of
         None \<Rightarrow> Err (InvalidPointer p)
       | Some bs \<Rightarrow>
           if length bs < length d then Err (WriteOutOfBounds (length d) (length bs))
           else Ok (m\<lparr>mm_memory := take p (mm_memory m) @ d @ drop (p + length d) (mm_memory m)\<rparr>))
    \<and> (\<forall>m'. write_bytes m p d = Ok m' \<longrightarrow>
         mm_view m' = (mm_view m)(p \<mapsto> d @ drop (length d) (the (mm_view m p))))"
proof (cases "mm_map m p")
  case None
  then show ?thesis by (simp add: write_untracked mm_view_def)
next
  case (Some l)
  then obtain bs where bs: "mm_view m p = Some bs" by (simp add: mm_view_def)
  have len: "length bs = l" using mm_view_length [OF assms Some bs] .
  show ?thesis
    using write_bytes_refines [OF assms bs, of d] bs len write_bytes_region [OF assms Some, of d]
    by auto
qed

theorem write_bytes_refines_map_update_witness:
  "write_bytes default_memory_manager 3 [1] = Err (InvalidPointer 3)"
  using write_bytes_refines_map_update [OF mm_inv_default, of 3 "[1]"]
  by (simp add: mm_view_def default_memory_manager_def from_limits_def)

text \<open>
  The length check that guards every guest-chosen buffer size: it succeeds exactly on the
  non-negative values up to the cap and then returns that value, so the host never allocates more
  than the single cap on behalf of a guest and a negative length never turns into a huge one.
\<close>

lemma checked_guest_len_exact:
  "checked_guest_len len mx =
     (if sint len < 0 then Err (InvalidLength len)
      else if int mx < sint len then Err (AllocationTooLarge (nat (sint len)) mx)
      else Ok (nat (sint len)))"
proof (cases "sint len < 0")
  case False
  then have "i32_as_usize len = unat len" and "sint len = int (unat len)"
    using i32_as_usize_nonneg [of len] sint_eq_unat_nonneg [of len] by (simp_all del: of_nat_unat)
  then show ?thesis by (simp add: checked_guest_len_def Let_def del: of_nat_unat)
qed (simp add: checked_guest_len_def)

end
