(* ===== verification/Ave_Linker.thy ===== *)
theory Ave_Linker
  imports Ave_Host_Memory
begin

text \<open>
  \<open>generate_linker\<close> of \<open>src/runtime/host.rs\<close>: the four host functions a contract imports,
  each as a function on the state a call sees (\<open>Caller\<close>): the memory manager and the guest's
  exported linear memory.

  wasmtime is a parameter: \<open>wasm_memory_ops\<close> holds \<open>Memory::read\<close> and \<open>Memory::write\<close>,
  and \<open>func_wrap\<close> registers a function. What an arbitrary guest can do to the host is the
  step relation \<open>host_step\<close>: any of the four calls with any arguments, and any change of its own
  linear memory in between. The theorems bound all runs of it.
\<close>

section \<open>The state of a call\<close>

record 'w wasm_memory_ops =
  wm_read :: "'w \<Rightarrow> nat \<Rightarrow> nat \<Rightarrow> byte list option"
  wm_write :: "'w \<Rightarrow> nat \<Rightarrow> byte list \<Rightarrow> 'w option"

record 'w caller =
  caller_data :: memory_manager
  caller_memory :: "'w option"

datatype wasm_error = HostError contract_error | MemoryAccessError | GuestAbort

section \<open>The host functions\<close>

definition env_pointer_len :: "'w caller \<Rightarrow> i32 \<Rightarrow> u32" where
  "env_pointer_len c pointer =
     word_of_int (get_pointer_len (caller_data c) (i32_as_usize pointer))"

definition env_alloc :: "'w caller \<Rightarrow> u32 \<Rightarrow> (u32 \<times> 'w caller, wasm_error) outcome" where
  "env_alloc c len =
     obind (map_err HostError (alloc (caller_data c) (unat len))) (\<lambda>(ptr, m).
       Ok (usize_as_u32 ptr, c\<lparr>caller_data := m\<rparr>))"

definition env_read_bytes ::
    "('w, 'x) wasm_memory_ops_scheme \<Rightarrow> 'w caller \<Rightarrow> i32 \<Rightarrow> i32 \<Rightarrow> i32 \<Rightarrow> ('w caller, wasm_error) outcome" where
  "env_read_bytes wo c src_ptr dst_ptr len =
     obind (map_err HostError (checked_guest_len len (mm_max_single_alloc (caller_data c)))) (\<lambda>len'.
     obind (map_err HostError (read_bytes (caller_data c) (i32_as_usize src_ptr) len')) (\<lambda>bytes.
     obind (ok_or (caller_memory c)
              (HostError (LinkerError ''read_bytes'' ''memory export not found''))) (\<lambda>memory.
     obind (ok_or (wm_write wo memory (i32_as_usize dst_ptr) bytes) MemoryAccessError) (\<lambda>memory'.
       Ok (c\<lparr>caller_memory := Some memory'\<rparr>)))))"

definition env_write_bytes ::
    "('w, 'x) wasm_memory_ops_scheme \<Rightarrow> 'w caller \<Rightarrow> i32 \<Rightarrow> i32 \<Rightarrow> i32 \<Rightarrow> ('w caller, wasm_error) outcome" where
  "env_write_bytes wo c dst_ptr src_ptr len =
     obind (map_err HostError (checked_guest_len len (mm_max_single_alloc (caller_data c)))) (\<lambda>len'.
     obind (ok_or (caller_memory c)
              (HostError (LinkerError ''write_bytes'' ''memory export not found''))) (\<lambda>memory.
     obind (ok_or (wm_read wo memory (i32_as_usize src_ptr) len') MemoryAccessError) (\<lambda>buf.
     obind (map_err HostError (write_bytes (caller_data c) (i32_as_usize dst_ptr) buf)) (\<lambda>m.
       Ok (c\<lparr>caller_data := m\<rparr>)))))"

section \<open>Registration\<close>

datatype host_fn = Fn_pointer_len | Fn_alloc | Fn_read_bytes | Fn_write_bytes

text \<open>\<open>linker.func_wrap(module, name, f).map_err(..)?\<close>\<close>

definition register ::
    "('l \<Rightarrow> string \<Rightarrow> string \<Rightarrow> host_fn \<Rightarrow> string + 'l) \<Rightarrow> 'l \<Rightarrow> string \<Rightarrow> host_fn \<Rightarrow>
     ('l, contract_error) outcome" where
  "register func_wrap linker name f =
     (case func_wrap linker ''env'' name f of
        Inl e \<Rightarrow> Err (LinkerError name e)
      | Inr linker' \<Rightarrow> Ok linker')"

definition generate_linker ::
    "('l \<Rightarrow> string \<Rightarrow> string \<Rightarrow> host_fn \<Rightarrow> string + 'l) \<Rightarrow> 'l \<Rightarrow> ('l, contract_error) outcome" where
  "generate_linker func_wrap new_linker =
     obind (register func_wrap new_linker ''pointer_len'' Fn_pointer_len) (\<lambda>l1.
     obind (register func_wrap l1 ''alloc'' Fn_alloc) (\<lambda>l2.
     obind (register func_wrap l2 ''read_bytes'' Fn_read_bytes) (\<lambda>l3.
       register func_wrap l3 ''write_bytes'' Fn_write_bytes)))"

section \<open>What a guest can do\<close>

datatype guest_call =
    Call_pointer_len i32
  | Call_alloc u32
  | Call_read_bytes i32 i32 i32
  | Call_write_bytes i32 i32 i32
  | Guest_code

inductive host_step ::
    "'w wasm_memory_ops \<Rightarrow> 'w caller \<Rightarrow> guest_call \<Rightarrow> 'w caller \<Rightarrow> bool" for wo where
  step_pointer_len: "host_step wo c (Call_pointer_len p) c"
| step_alloc: "env_alloc c len = Ok (p, c') \<Longrightarrow> host_step wo c (Call_alloc len) c'"
| step_read: "env_read_bytes wo c src dst len = Ok c' \<Longrightarrow> host_step wo c (Call_read_bytes src dst len) c'"
| step_write: "env_write_bytes wo c dst src len = Ok c' \<Longrightarrow> host_step wo c (Call_write_bytes dst src len) c'"
| step_guest: "host_step wo c Guest_code (c\<lparr>caller_memory := w\<rparr>)"

inductive_cases step_allocE [elim!]: "host_step wo c (Call_alloc len) c'"
inductive_cases step_readE [elim!]: "host_step wo c (Call_read_bytes src dst len) c'"
inductive_cases step_writeE [elim!]: "host_step wo c (Call_write_bytes dst src len) c'"
inductive_cases step_pointer_lenE [elim!]: "host_step wo c (Call_pointer_len p) c'"
inductive_cases step_guestE [elim!]: "host_step wo c Guest_code c'"

inductive host_run ::
    "'w wasm_memory_ops \<Rightarrow> 'w caller \<Rightarrow> guest_call list \<Rightarrow> 'w caller \<Rightarrow> bool" for wo where
  run_nil: "host_run wo c [] c"
| run_step: "host_run wo c ls c' \<Longrightarrow> host_step wo c' l c'' \<Longrightarrow> host_run wo c (ls @ [l]) c''"

section \<open>Lemmas on single calls\<close>

lemma env_alloc_eq_Ok [outcome_simps]:
  "env_alloc c len = Ok (p, c') \<longleftrightarrow>
     (\<exists>m. alloc (caller_data c) (unat len) = Ok (length (mm_memory (caller_data c)), m) \<and>
        p = usize_as_u32 (length (mm_memory (caller_data c))) \<and> c' = c\<lparr>caller_data := m\<rparr>)"
  by (auto simp: env_alloc_def obind_eq_Ok map_err_eq_Ok) (auto simp: alloc_eq_Ok)

lemma env_read_bytes_data:
  "env_read_bytes wo c src dst len = Ok c' \<Longrightarrow> caller_data c' = caller_data c"
  by (auto simp: env_read_bytes_def obind_eq_Ok)

lemma env_write_bytes_data:
  "env_write_bytes wo c dst src len = Ok c' \<Longrightarrow>
     \<exists>buf. write_bytes (caller_data c) (i32_as_usize dst) buf = Ok (caller_data c')"
  by (auto simp: env_write_bytes_def obind_eq_Ok map_err_eq_Ok)

lemma host_no_panic:
  assumes "mm_inv (caller_data c)"
  shows "env_alloc c n \<noteq> Panic" and "env_read_bytes wo c src dst len \<noteq> Panic"
    and "env_write_bytes wo c dst src len \<noteq> Panic"
  using mm.alloc_no_panic [OF assms] write_no_panic(1) [OF assms] read_bytes_cases [OF assms]
  by (auto simp: env_alloc_def env_read_bytes_def env_write_bytes_def checked_guest_len_exact
      obind_eq_Panic map_err_eq_Panic ok_or_neq_Panic split: if_splits)

lemma env_copy_refused:
  assumes "checked_guest_len len (mm_max_single_alloc (caller_data c)) = Err e"
  shows "env_read_bytes wo c src dst len = Err (HostError e)"
    and "env_write_bytes wo c dst src len = Err (HostError e)"
  using assms by (simp_all add: env_read_bytes_def env_write_bytes_def)

text \<open>What one step keeps of the memory manager.\<close>

definition mm_extends :: "memory_manager \<Rightarrow> memory_manager \<Rightarrow> bool" where
  "mm_extends m m' \<longleftrightarrow>
     mm_map m \<subseteq>\<^sub>m mm_map m' \<and> length (mm_memory m) \<le> length (mm_memory m') \<and>
     mm_max_total_memory m' = mm_max_total_memory m \<and> mm_max_single_alloc m' = mm_max_single_alloc m"

lemma mm_extends_refl [simp]: "mm_extends m m"
  by (simp add: mm_extends_def)

lemma mm_extends_trans: "mm_extends m1 m2 \<Longrightarrow> mm_extends m2 m3 \<Longrightarrow> mm_extends m1 m3"
  by (auto simp: mm_extends_def intro: map_le_trans)

lemma alloc_extends:
  assumes "mm_inv m" and "alloc m n = Ok (p, m')"
  shows "mm_extends m m'"
proof -
  have "mm_map m p = None" if "0 < n"
    using mm.alloc_view [OF assms that] by (simp add: mm_view_def)
  with assms(2) show ?thesis
    by (auto simp: mm_extends_def alloc_eq_Ok map_le_def split: if_splits)
qed

lemma write_bytes_extends:
  "mm_inv m \<Longrightarrow> write_bytes m p d = Ok m' \<Longrightarrow> mm_extends m m'"
  using write_bytes_keeps [of m p d m'] by (simp add: mm_extends_def)

lemma host_step_keeps:
  assumes "host_step wo c l c'" and "mm_inv (caller_data c)"
  shows "mm_inv (caller_data c') \<and> mm_extends (caller_data c) (caller_data c')"
  using assms
proof (induction rule: host_step.induct)
  case (step_alloc c len p c')
  then show ?case
    using mm.alloc_inv alloc_extends by (auto simp: env_alloc_eq_Ok)
next
  case (step_write c dst src len c')
  then show ?case
    using env_write_bytes_data write_bytes_keeps write_bytes_extends by blast
qed (auto dest: env_read_bytes_data)

lemma host_step_view:
  assumes "host_step wo c l c'" and "mm_inv (caller_data c)" and "mm_view (caller_data c) p = Some bs"
    and "\<And>dst src len. l = Call_write_bytes dst src len \<Longrightarrow> i32_as_usize dst \<noteq> p"
  shows "mm_view (caller_data c') p = Some bs"
  using assms
proof (induction rule: host_step.induct)
  case (step_alloc c len q c')
  then obtain m where a: "alloc (caller_data c) (unat len) = Ok (length (mm_memory (caller_data c)), m)"
    and c': "caller_data c' = m" by (auto simp: env_alloc_eq_Ok)
  show ?case
  proof (cases "0 < unat len")
    case True
    from mm.alloc_view [OF step_alloc.prems(1) a True] step_alloc.prems(2) c'
    show ?thesis by auto
  next
    case False
    with a step_alloc.prems c' show ?thesis by (simp add: alloc_zero)
  qed
next
  case (step_write c dst src len c')
  then obtain buf where "write_bytes (caller_data c) (i32_as_usize dst) buf = Ok (caller_data c')"
    using env_write_bytes_data by blast
  from write_bytes_view [OF step_write.prems(1) this] step_write.prems(2,3)
  show ?case by auto
qed (auto dest: env_read_bytes_data)

lemma host_run_keeps:
  assumes "host_run wo c ls c'" and "mm_inv (caller_data c)"
  shows "mm_inv (caller_data c') \<and> mm_extends (caller_data c) (caller_data c')"
  using assms
proof (induction rule: host_run.induct)
  case (run_step c ls c' l c'')
  then have "mm_inv (caller_data c')" "mm_extends (caller_data c) (caller_data c')" by simp_all
  with host_step_keeps [OF run_step.hyps(2)] show ?case
    using mm_extends_trans by blast
qed simp

lemma host_run_view:
  assumes "host_run wo c ls c'" and "mm_inv (caller_data c)" and "mm_view (caller_data c) p = Some bs"
    and "\<And>dst src len. Call_write_bytes dst src len \<in> set ls \<Longrightarrow> i32_as_usize dst \<noteq> p"
  shows "mm_view (caller_data c') p = Some bs"
  using assms
proof (induction rule: host_run.induct)
  case (run_step c ls c' l c'')
  have inv: "mm_inv (caller_data c')"
    using host_run_keeps [OF run_step.hyps(1) run_step.prems(1)] by simp
  have "mm_view (caller_data c') p = Some bs"
    by (rule run_step.IH) (use run_step.prems in auto)
  with run_step.hyps(2) inv show ?case
    by (rule host_step_view) (use run_step.prems(3) in auto)
qed simp

section \<open>Pointers and lengths across the 32-bit boundary\<close>

text \<open>
  A memory manager whose total cap is below \<open>2 ^ 31\<close>, as every \<open>WasmLimits::build\<close>
  makes it, keeps all pointers and lengths exact across the casts of the ABI.
\<close>

definition mm_abi :: "memory_manager \<Rightarrow> bool" where
  "mm_abi m \<longleftrightarrow> mm_inv m \<and> mm_max_total_memory m \<le> i32_max"

lemma mm_abi_from_limits: "mm_abi (from_limits (build ram cores))"
  using ram_steps_bounds [of ram] mm_inv_from_limits [of "build ram cores"]
  by (simp add: mm_abi_def i32_max_def build_fields usize_max_def)

lemma mm_abi_step:
  "mm_abi m \<Longrightarrow> mm_inv m' \<Longrightarrow> mm_extends m m' \<Longrightarrow> mm_abi m'"
  by (simp add: mm_abi_def mm_extends_def)

lemma mm_abi_length:
  assumes "mm_abi m" and "mm_view m p = Some bs"
  shows "length bs < 2 ^ 31" and "p < 2 ^ 31" and "bs \<noteq> []"
proof -
  obtain l where l: "mm_map m p = Some l" using assms(2) by (auto simp: mm_view_eq_Some)
  have inv: "mm_inv m" using assms(1) by (simp add: mm_abi_def)
  have "length (mm_memory m) < 2 ^ 31"
    using assms(1) by (auto simp: mm_abi_def mm_inv_def i32_max_def)
  with mm_invD(1,3) [OF inv l] mm_view_length [OF inv l assms(2)]
  show "length bs < 2 ^ 31" "p < 2 ^ 31" "bs \<noteq> []" by auto
qed

lemma i32_as_usize_inject: "i32_as_usize p = i32_as_usize q \<longleftrightarrow> p = q"
proof
  assume "i32_as_usize p = i32_as_usize q"
  then have "(scast p :: 64 word) = scast q"
    by (simp only: i32_as_usize_def word_unat_eq_iff [symmetric])
  then have "sint (scast p :: 64 word) = sint (scast q :: 64 word)" by simp
  then have "sint p = sint q"
    by (simp add: sint_up_scast is_up)
  then show "p = q"
    by (rule signed_word_eqI)
qed simp

lemma env_pointer_len_view:
  assumes "mm_abi (caller_data c)"
  shows "sint (env_pointer_len c p) =
    (case mm_view (caller_data c) (i32_as_usize p) of None \<Rightarrow> - 1 | Some bs \<Rightarrow> int (length bs))"
proof (cases "mm_map (caller_data c) (i32_as_usize p)")
  case None
  then show ?thesis by (simp add: env_pointer_len_def get_pointer_len_def mm_view_def)
next
  case (Some l)
  then obtain bs where bs: "mm_view (caller_data c) (i32_as_usize p) = Some bs"
    by (simp add: mm_view_def)
  have inv: "mm_inv (caller_data c)" using assms by (simp add: mm_abi_def)
  have "length bs = l" and "l < 2 ^ 31"
    using mm_view_length [OF inv Some bs] mm_abi_length(1) [OF assms bs] by simp_all
  then show ?thesis
    using Some bs sint_usize_as_u32 [of l]
    by (simp add: env_pointer_len_def get_pointer_len_def usize_as_isize_id usize_as_u32_def)
qed

section \<open>Properties\<close>

text \<open>
  (C14) Whatever a guest does, the host stays within its limits: after any sequence of host calls
  with any arguments, interleaved with arbitrary changes of linear memory, the invariant of the
  memory manager still holds, its size and the number of tracked regions are within the total cap
  the run started with, and no allocation has moved, shrunk or disappeared.
\<close>

theorem guest_run_bounded:
  assumes "host_run wo c ls c'" and "mm_inv (caller_data c)"
  shows "mm_inv (caller_data c') \<and>
    length (mm_memory (caller_data c')) \<le> mm_max_total_memory (caller_data c) \<and>
    card (dom (mm_map (caller_data c'))) \<le> mm_max_total_memory (caller_data c) \<and>
    mm_map (caller_data c) \<subseteq>\<^sub>m mm_map (caller_data c')"
proof -
  from host_run_keeps [OF assms] have inv: "mm_inv (caller_data c')"
    and ext: "mm_extends (caller_data c) (caller_data c')" by simp_all
  have "length (mm_memory (caller_data c')) \<le> mm_max_total_memory (caller_data c')"
    using inv by (simp add: mm_inv_def)
  with inv ext card_regions_le [OF inv] show ?thesis
    by (simp add: mm_extends_def)
qed

theorem guest_run_bounded_witness:
  "\<exists>c'. host_run \<lparr>wm_read = (\<lambda>w a n. None), wm_write = (\<lambda>w a bs. None)\<rparr>
       \<lparr>caller_data = default_memory_manager, caller_memory = None :: unit option\<rparr> [Call_alloc 4] c' \<and>
     mm_inv (caller_data c')"
proof -
  let ?wo = "\<lparr>wm_read = (\<lambda>(w::unit) a n. None), wm_write = (\<lambda>w a bs. None)\<rparr>"
  let ?c = "\<lparr>caller_data = default_memory_manager, caller_memory = None :: unit option\<rparr>"
  have "\<exists>m. alloc default_memory_manager 4 = Ok (0, m)"
    by (simp add: alloc_def checked_add_def Let_def default_memory_manager_def default_limits_def
        build_fields ram_steps_def clamp_def usize_max_def)
  then obtain m where "alloc default_memory_manager 4 = Ok (0, m)" ..
  then have "env_alloc ?c 4 = Ok (usize_as_u32 0, ?c\<lparr>caller_data := m\<rparr>)"
    by (simp add: env_alloc_def)
  from run_step [OF run_nil step_alloc [OF this]]
  have run: "host_run ?wo ?c [Call_alloc 4] (?c\<lparr>caller_data := m\<rparr>)" by simp
  moreover have "mm_inv (caller_data ?c)" by (simp add: mm_inv_default)
  ultimately show ?thesis
    using guest_run_bounded by blast
qed

text \<open>
  (C7) Isolation of allocations under an arbitrary guest: a region keeps its contents through a
  whole run unless some \<open>write_bytes\<close> call of the run names exactly its pointer. No allocation,
  no read, no write through another pointer and no length can touch it.
\<close>

theorem guest_run_isolation:
  assumes "host_run wo c ls c'" and "mm_inv (caller_data c)" and "read_data (caller_data c) p = Ok bs"
    and "\<forall>dst src len. Call_write_bytes dst src len \<in> set ls \<longrightarrow> i32_as_usize dst \<noteq> p"
  shows "read_data (caller_data c') p = Ok bs"
proof -
  have "mm_view (caller_data c) p = Some bs"
    using assms(2,3) by (simp add: read_data_view split: option.splits)
  then have "mm_view (caller_data c') p = Some bs"
    using assms(4) by (intro host_run_view [OF assms(1,2)]) auto
  then show ?thesis
    using host_run_keeps [OF assms(1,2)] by (simp add: read_data_view)
qed

theorem guest_run_isolation_witness:
  "\<exists>c'. host_run \<lparr>wm_read = (\<lambda>w a n. None), wm_write = (\<lambda>w a bs. None)\<rparr>
       \<lparr>caller_data = default_memory_manager\<lparr>mm_memory := [9], mm_map := [0 \<mapsto> 1]\<rparr>,
        caller_memory = None :: unit option\<rparr> [Call_pointer_len 0] c' \<and>
     read_data (caller_data c') 0 = Ok [9]"
proof -
  let ?wo = "\<lparr>wm_read = (\<lambda>(w::unit) a n. None), wm_write = (\<lambda>w a bs. None)\<rparr>"
  let ?m = "default_memory_manager\<lparr>mm_memory := [9], mm_map := [0 \<mapsto> 1]\<rparr>"
  let ?c = "\<lparr>caller_data = ?m, caller_memory = None :: unit option\<rparr>"
  have run: "host_run ?wo ?c [Call_pointer_len 0] ?c"
    using run_step [OF run_nil step_pointer_len] by simp
  have inv: "mm_inv ?m"
    by (simp add: mm_inv_def default_memory_manager_def default_limits_def build_fields ram_steps_def
        clamp_def usize_max_def)
  have "read_data ?m 0 = Ok [9]"
    by (simp add: read_data_def checked_add_def index_range_def usize_max_def)
  with guest_run_isolation [OF run, of 0 "[9]"] inv run show ?thesis by auto
qed

text \<open>
  (C22) The host functions as seen by a guest with arbitrary arguments: none panics; a negative
  length or one over the single cap is refused by both copy functions before anything is copied;
  and \<open>pointer_len\<close> answers exactly the length of a tracked allocation and \<open>-1\<close> for every
  other pointer, negative ones included.
\<close>

theorem host_functions_hostile_arguments:
  assumes "mm_abi (caller_data c)"
  shows "env_alloc c n \<noteq> Panic \<and> env_read_bytes wo c src dst len \<noteq> Panic \<and>
    env_write_bytes wo c dst src len \<noteq> Panic \<and>
    (sint len < 0 \<longrightarrow> env_read_bytes wo c src dst len = Err (HostError (InvalidLength len)) \<and>
                    env_write_bytes wo c dst src len = Err (HostError (InvalidLength len))) \<and>
    (int (mm_max_single_alloc (caller_data c)) < sint len \<longrightarrow>
       env_read_bytes wo c src dst len =
         Err (HostError (AllocationTooLarge (nat (sint len)) (mm_max_single_alloc (caller_data c)))) \<and>
       env_write_bytes wo c dst src len =
         Err (HostError (AllocationTooLarge (nat (sint len)) (mm_max_single_alloc (caller_data c))))) \<and>
    sint (env_pointer_len c src) =
      (case read_data (caller_data c) (i32_as_usize src) of Ok bs \<Rightarrow> int (length bs) | _ \<Rightarrow> - 1)"
proof -
  have inv: "mm_inv (caller_data c)" using assms by (simp add: mm_abi_def)
  have "sint len < 0 \<longrightarrow> env_read_bytes wo c src dst len = Err (HostError (InvalidLength len)) \<and>
                    env_write_bytes wo c dst src len = Err (HostError (InvalidLength len))"
    by (simp add: env_copy_refused checked_guest_len_exact)
  moreover have "int (mm_max_single_alloc (caller_data c)) < sint len \<longrightarrow>
       env_read_bytes wo c src dst len =
         Err (HostError (AllocationTooLarge (nat (sint len)) (mm_max_single_alloc (caller_data c)))) \<and>
       env_write_bytes wo c dst src len =
         Err (HostError (AllocationTooLarge (nat (sint len)) (mm_max_single_alloc (caller_data c))))"
    by (simp add: env_copy_refused checked_guest_len_exact)
  ultimately show ?thesis
    by (simp add: host_no_panic [OF inv] env_pointer_len_view [OF assms] read_data_view [OF inv] split: option.split)
qed

theorem host_functions_hostile_arguments_witness:
  "env_write_bytes \<lparr>wm_read = (\<lambda>w a n. None), wm_write = (\<lambda>w a bs. None)\<rparr>
     \<lparr>caller_data = from_limits (build 512 2), caller_memory = Some ()\<rparr> 0 0 (- 1)
   = Err (HostError (InvalidLength (- 1)))"
  using host_functions_hostile_arguments
      [of "\<lparr>caller_data = from_limits (build 512 2), caller_memory = Some ()\<rparr>" 0
        "\<lparr>wm_read = (\<lambda>w a n. None), wm_write = (\<lambda>w a bs. None)\<rparr>" 0 0 "- 1"]
  by (simp add: mm_abi_from_limits)

end
