(* ===== verification/Ave_Guest_Host.thy ===== *)
theory Ave_Guest_Host
  imports Ave_Linker Ave_Contracts
begin

text \<open>
  The production build of the two byte-copying wrappers of \<open>src/lib.rs\<close> and the second
  provider of the \<open>host_abi\<close> contract: guest code linked to the host functions of
  \<open>generate_linker\<close>. A guest buffer lives in linear memory; the guest passes its address and
  length, and the host copies between linear memory and the memory manager.

  The guest's allocator and wasmtime's linear memory are parameters. \<open>wm_place\<close> puts a vector
  into linear memory and returns its address, \<open>None\<close> if the guest has no memory left. What is
  relied on is the predicate \<open>wasm_laws\<close>: a placed vector can be read at its address, which is
  below \<open>2 ^ 31\<close>; a write inside a readable window is read back; and a guest with enough memory
  (\<open>fits\<close>) can place buffers up to \<open>cap\<close> bytes again and again. A byte list with a fixed
  buffer address satisfies the laws (\<open>list_ops\<close>).
\<close>

section \<open>The wrappers\<close>

record 'w guest_memory_ops = "'w wasm_memory_ops" +
  wm_place :: "'w \<Rightarrow> byte list \<Rightarrow> (i32 \<times> 'w) option"

definition place ::
    "'w guest_memory_ops \<Rightarrow> 'w caller \<Rightarrow> byte list \<Rightarrow> (i32 \<times> 'w caller, wasm_error) outcome" where
  "place wo c bs =
     obind (ok_or (caller_memory c) GuestAbort) (\<lambda>w.
     obind (ok_or (wm_place wo w bs) GuestAbort) (\<lambda>(addr, w').
       Ok (addr, c\<lparr>caller_memory := Some w'\<rparr>)))"

definition buffer_contents ::
    "'w guest_memory_ops \<Rightarrow> 'w caller \<Rightarrow> i32 \<Rightarrow> nat \<Rightarrow> (byte list, wasm_error) outcome" where
  "buffer_contents wo c addr len =
     obind (ok_or (caller_memory c) GuestAbort) (\<lambda>w.
       ok_or (wm_read wo w (i32_as_usize addr) len) GuestAbort)"

definition rt_read_host_bytes ::
    "'w guest_memory_ops \<Rightarrow> 'w caller \<Rightarrow> i32 \<Rightarrow> byte list \<Rightarrow> (byte list \<times> 'w caller, wasm_error) outcome" where
  "rt_read_host_bytes wo c pointer dat =
     obind (place wo c dat) (\<lambda>(addr, c1).
     obind (env_read_bytes wo c1 pointer addr (usize_as_u32 (length dat))) (\<lambda>c2.
     obind (buffer_contents wo c2 addr (length dat)) (\<lambda>dat'.
       Ok (dat', c2))))"

definition rt_write_host_bytes ::
    "'w guest_memory_ops \<Rightarrow> 'w caller \<Rightarrow> i32 \<Rightarrow> byte list \<Rightarrow> ('w caller, wasm_error) outcome" where
  "rt_write_host_bytes wo c ptr bytes =
     obind (place wo c bytes) (\<lambda>(addr, c1).
       env_write_bytes wo c1 ptr addr (usize_as_u32 (length bytes)))"

definition rt_ops :: "'w guest_memory_ops \<Rightarrow> ('w caller, wasm_error) host_ops" where
  "rt_ops wo =
     \<lparr>ho_pointer_len = env_pointer_len,
      ho_alloc = env_alloc,
      ho_read = rt_read_host_bytes wo,
      ho_write = rt_write_host_bytes wo\<rparr>"

section \<open>What is relied on of linear memory\<close>

definition wasm_laws :: "'w guest_memory_ops \<Rightarrow> nat \<Rightarrow> ('w \<Rightarrow> bool) \<Rightarrow> bool" where
  "wasm_laws wo cap fits \<longleftrightarrow>
     (\<forall>w bs a w'. wm_place wo w bs = Some (a, w') \<longrightarrow>
        0 \<le> sint a \<and> wm_read wo w' (unat a) (length bs) = Some bs \<and> (fits w \<longrightarrow> fits w')) \<and>
     (\<forall>w a bs bs'. wm_read wo w a (length bs) = Some bs' \<longrightarrow>
        (\<exists>w'. wm_write wo w a bs = Some w' \<and> wm_read wo w' a (length bs) = Some bs \<and> (fits w \<longrightarrow> fits w'))) \<and>
     (\<forall>w bs. fits w \<longrightarrow> length bs \<le> cap \<longrightarrow> wm_place wo w bs \<noteq> None)"

definition rt_inv :: "nat \<Rightarrow> ('w \<Rightarrow> bool) \<Rightarrow> 'w caller \<Rightarrow> bool" where
  "rt_inv cap fits c \<longleftrightarrow>
     mm_abi (caller_data c) \<and> mm_max_single_alloc (caller_data c) \<le> cap \<and>
     (\<exists>w. caller_memory c = Some w \<and> fits w)"

definition rt_view :: "'w caller \<Rightarrow> i32 \<Rightarrow> byte list option" where
  "rt_view c p = mm_view (caller_data c) (i32_as_usize p)"

text \<open>Room for an answer: within both caps, behind at least one staged byte.\<close>

definition rt_room :: "'w caller \<Rightarrow> nat \<Rightarrow> bool" where
  "rt_room c n \<longleftrightarrow>
     n \<le> mm_max_single_alloc (caller_data c) \<and> n \<le> i32_max \<and> mm_memory (caller_data c) \<noteq> [] \<and>
     length (mm_memory (caller_data c)) + n \<le> mm_max_total_memory (caller_data c)"

section \<open>The linker meets the contract\<close>

lemma rt_invD:
  assumes "rt_inv cap fits c"
  shows "mm_inv (caller_data c)" and "mm_abi (caller_data c)"
    and "length (mm_memory (caller_data c)) \<le> i32_max"
  using assms by (auto simp: rt_inv_def mm_abi_def mm_inv_def)

lemma rt_view_facts:
  assumes "rt_inv cap fits c" and "rt_view c p = Some bs"
  shows "0 \<le> sint p" and "length bs < 2 ^ 31" and "length bs \<le> mm_max_single_alloc (caller_data c)"
    and "length bs \<le> cap"
proof -
  have v: "mm_view (caller_data c) (i32_as_usize p) = Some bs" using assms(2) by (simp add: rt_view_def)
  note abi = mm_abi_length [OF rt_invD(2) [OF assms(1)] v]
  show "length bs < 2 ^ 31" by (rule abi(1))
  have p: "i32_as_usize (usize_as_u32 (i32_as_usize p)) = i32_as_usize p"
    using abi(2) by (rule i32_as_usize_of_usize)
  then have "p = usize_as_u32 (i32_as_usize p)" by (simp only: i32_as_usize_inject)
  then show "0 \<le> sint p"
    using sint_usize_as_u32 [OF abi(2)] by simp
  obtain l where l: "mm_map (caller_data c) (i32_as_usize p) = Some l" using v by (auto simp: mm_view_eq_Some)
  have "length bs = l" using mm_view_length [OF rt_invD(1) [OF assms(1)] l v] .
  then show le: "length bs \<le> mm_max_single_alloc (caller_data c)"
    using mm_invD(2) [OF rt_invD(1) [OF assms(1)] l] by simp
  with assms(1) show "length bs \<le> cap" by (simp add: rt_inv_def)
qed

lemma read_bytes_view:
  assumes "mm_inv m" and "mm_view m p = Some bs"
  shows "read_bytes m p (length bs) = Ok bs"
proof -
  obtain l where l: "mm_map m p = Some l" using assms(2) by (auto simp: mm_view_eq_Some)
  have "length bs = l" using mm_view_length [OF assms(1) l assms(2)] .
  moreover have "p + l \<le> length (mm_memory m)" using mm_invD(3) [OF assms(1) l] .
  ultimately show ?thesis
    using assms l by (simp add: read_bytes_cases mm_view_eq_Some)
qed

lemma guest_len_ok:
  assumes "n < 2 ^ 31" and "n \<le> mx"
  shows "checked_guest_len (usize_as_u32 n) mx = Ok n"
  using assms by (simp add: checked_guest_len_def sint_usize_as_u32 i32_as_usize_of_usize)

lemma place_ok:
  assumes laws: "wasm_laws wo cap fits" and inv: "rt_inv cap fits c" and len: "length bs \<le> cap"
  obtains a w' where "place wo c bs = Ok (a, c\<lparr>caller_memory := Some w'\<rparr>)"
    and "wm_read wo w' (i32_as_usize a) (length bs) = Some bs" and "fits w'"
proof -
  obtain w where w: "caller_memory c = Some w" "fits w" using inv by (auto simp: rt_inv_def)
  with laws len obtain a w' where p: "wm_place wo w bs = Some (a, w')"
    unfolding wasm_laws_def by (metis option.exhaust surj_pair)
  with laws w(2) have f: "0 \<le> sint a" "wm_read wo w' (unat a) (length bs) = Some bs" "fits w'"
    unfolding wasm_laws_def by blast+
  show thesis
    by (rule that [of a w']) (use f p w in \<open>simp_all add: place_def i32_as_usize_nonneg\<close>)
qed

lemma rt_read_known:
  assumes laws: "wasm_laws wo cap fits" and inv: "rt_inv cap fits c" and v: "rt_view c p = Some bs"
  shows "\<exists>w. rt_read_host_bytes wo c p (replicate (length bs) 0) = Ok (bs, c\<lparr>caller_memory := Some w\<rparr>) \<and> fits w"
proof -
  note facts = rt_view_facts [OF inv v]
  obtain a w1 where pl: "place wo c (replicate (length bs) 0) = Ok (a, c\<lparr>caller_memory := Some w1\<rparr>)"
    and r1: "wm_read wo w1 (i32_as_usize a) (length (replicate (length bs) (0 :: byte))) = Some (replicate (length bs) 0)"
    and f1: "fits w1"
    using place_ok [OF laws inv, of "replicate (length bs) 0"] facts(4) by auto
  from laws r1 f1 obtain w2 where
    w2: "wm_write wo w1 (i32_as_usize a) bs = Some w2" "wm_read wo w2 (i32_as_usize a) (length bs) = Some bs" "fits w2"
    unfolding wasm_laws_def by (metis length_replicate)
  have "read_bytes (caller_data c) (i32_as_usize p) (length bs) = Ok bs"
    using read_bytes_view [OF rt_invD(1) [OF inv]] v by (simp add: rt_view_def)
  then have "env_read_bytes wo (c\<lparr>caller_memory := Some w1\<rparr>) p a (usize_as_u32 (length bs)) =
      Ok (c\<lparr>caller_memory := Some w2\<rparr>)"
    using facts w2(1) by (simp add: env_read_bytes_def guest_len_ok)
  with pl w2 show ?thesis
    by (intro exI [of _ w2]) (simp add: rt_read_host_bytes_def buffer_contents_def)
qed

lemma rt_write_known:
  assumes laws: "wasm_laws wo cap fits" and inv: "rt_inv cap fits c" and v: "rt_view c p = Some bs"
    and len: "length d = length bs"
  shows "\<exists>c'. rt_write_host_bytes wo c p d = Ok c' \<and> rt_inv cap fits c' \<and> rt_view c' = (rt_view c)(p \<mapsto> d)"
proof -
  note facts = rt_view_facts [OF inv v]
  obtain a w1 where pl: "place wo c d = Ok (a, c\<lparr>caller_memory := Some w1\<rparr>)"
    and r1: "wm_read wo w1 (i32_as_usize a) (length d) = Some d" and f1: "fits w1"
    using place_ok [OF laws inv, of d] facts(4) len by metis
  have mv: "mm_view (caller_data c) (i32_as_usize p) = Some bs" using v by (simp add: rt_view_def)
  have minv: "mm_inv (caller_data c)" using rt_invD(1) [OF inv] .
  from write_bytes_refines [OF minv mv, of d] len obtain m where
    wr: "write_bytes (caller_data c) (i32_as_usize p) d = Ok m" by auto
  then have mv': "mm_view m = (mm_view (caller_data c))(i32_as_usize p \<mapsto> d)"
    using write_bytes_view [OF minv wr] mv len by auto
  have "env_write_bytes wo (c\<lparr>caller_memory := Some w1\<rparr>) p a (usize_as_u32 (length d)) =
      Ok (c\<lparr>caller_memory := Some w1, caller_data := m\<rparr>)"
    using facts len r1 wr by (simp add: env_write_bytes_def guest_len_ok)
  moreover have "rt_inv cap fits (c\<lparr>caller_memory := Some w1, caller_data := m\<rparr>)"
    using inv f1 write_bytes_keeps [OF minv wr] by (auto simp: rt_inv_def mm_abi_def)
  moreover have "rt_view (c\<lparr>caller_memory := Some w1, caller_data := m\<rparr>) = (rt_view c)(p \<mapsto> d)"
    by (rule ext) (simp add: rt_view_def mv' i32_as_usize_inject)
  ultimately show ?thesis
    using pl by (simp add: rt_write_host_bytes_def)
qed

lemma rt_alloc_known:
  assumes inv: "rt_inv cap fits c" and pos: "0 < unat n" and ok: "env_alloc c n = Ok (p, c')"
  shows "rt_inv cap fits c' \<and> rt_view c p = None \<and> rt_view c' = (rt_view c)(p \<mapsto> replicate (unat n) 0)"
proof -
  let ?m = "caller_data c" and ?q = "length (mm_memory (caller_data c))"
  obtain m where a: "alloc ?m (unat n) = Ok (?q, m)" and p: "p = usize_as_u32 ?q"
    and c': "c' = c\<lparr>caller_data := m\<rparr>"
    using ok by (auto simp: env_alloc_eq_Ok)
  have minv: "mm_inv ?m" using rt_invD(1) [OF inv] .
  have "?q < 2 ^ 31" using rt_invD(3) [OF inv] by (simp add: i32_max_def)
  then have q: "i32_as_usize p = ?q" by (simp only: p i32_as_usize_of_usize)
  note view = mm.alloc_view [OF minv a pos]
  have "mm_abi m"
    using mm_abi_step [OF rt_invD(2) [OF inv] mm.alloc_inv [OF minv a] alloc_extends [OF minv a]] .
  then have "rt_inv cap fits c'"
    using inv alloc_extends [OF minv a] by (simp add: rt_inv_def c' mm_extends_def)
  moreover have "rt_view c' = (rt_view c)(p \<mapsto> replicate (unat n) 0)"
    by (rule ext) (use view in \<open>simp add: rt_view_def c' q [symmetric] i32_as_usize_inject\<close>)
  ultimately show ?thesis using view by (simp add: rt_view_def q)
qed

lemma rt_alloc_zero:
  assumes inv: "rt_inv cap fits c" and z: "unat n = 0" and ok: "env_alloc c n = Ok (p, c')"
  shows "c' = c"
proof -
  obtain m where "alloc (caller_data c) 0 = Ok (length (mm_memory (caller_data c)), m)"
    "c' = c\<lparr>caller_data := m\<rparr>"
    using ok z by (auto simp: env_alloc_eq_Ok)
  with alloc_zero [OF rt_invD(1) [OF inv]] show ?thesis by simp
qed

lemma rt_alloc_null:
  assumes "rt_inv cap fits c" and "env_alloc c n = Ok (p, c')"
  shows "rt_inv cap fits c' \<and> rt_view c \<subseteq>\<^sub>m rt_view c'"
proof (cases "unat n = 0")
  case True
  then show ?thesis using rt_alloc_zero [OF assms(1) True assms(2)] assms(1) by simp
next
  case False
  then show ?thesis using rt_alloc_known [OF assms(1) _ assms(2)] by (auto simp: map_le_def)
qed

lemma rt_alloc_returns:
  assumes "rt_inv cap fits c" and "rt_room c (unat n)"
  shows "\<exists>p c'. env_alloc c n = Ok (p, c') \<and> p \<noteq> 0"
proof -
  let ?m = "caller_data c" and ?q = "length (mm_memory (caller_data c))"
  have q: "?q < 2 ^ 31" "?q \<noteq> 0"
    using rt_invD(3) [OF assms(1)] assms(2) by (simp_all add: i32_max_def rt_room_def)
  have "?q + unat n \<le> usize_max"
    using assms(2) rt_invD(1) [OF assms(1)] by (simp add: rt_room_def mm_inv_def)
  then obtain m where "alloc ?m (unat n) = Ok (?q, m)"
    using assms(2) by (simp add: alloc_eq_Ok rt_room_def)
  moreover have "usize_as_u32 ?q \<noteq> 0"
    using usize_as_u32_id [of ?q] q by auto
  ultimately show ?thesis by (auto simp: env_alloc_eq_Ok)
qed

lemma rt_memory_irrelevant:
  "rt_view (c\<lparr>caller_memory := w\<rparr>) = rt_view c" "rt_room (c\<lparr>caller_memory := w\<rparr>) = rt_room c"
  "rt_inv cap fits c \<Longrightarrow> fits v \<Longrightarrow> rt_inv cap fits (c\<lparr>caller_memory := Some v\<rparr>)"
  by (auto simp: rt_view_def rt_room_def rt_inv_def fun_eq_iff)

lemma rt_host_abi_live:
  assumes laws: "wasm_laws wo cap fits"
  shows "host_abi_live (rt_ops wo) (rt_inv cap fits) rt_view rt_room"
proof (unfold_locales, goal_cases)
  case (1 h p bs)
  then show ?case
    using env_pointer_len_view [OF rt_invD(2), of cap fits h p] by (simp add: rt_ops_def rt_view_def)
next
  case (2 h p bs ds h')
  then show ?case
    using rt_read_known [OF laws 2(1,2)] by (auto simp: rt_ops_def rt_memory_irrelevant)
next
  case (3 h p bs)
  then show ?case using rt_read_known [OF laws 3(1,2)] by (auto simp: rt_ops_def)
next
  case (4 h n p h')
  then show ?case using rt_alloc_known [OF 4(1,2)] by (simp add: rt_ops_def)
next
  case (5 h n h')
  then show ?case using rt_alloc_null [OF 5(1)] by (simp add: rt_ops_def)
next
  case (6 h p bs d h')
  then show ?case using rt_write_known [OF laws 6(1,2,3)] by (auto simp: rt_ops_def)
next
  case (7 h p bs d)
  then show ?case using rt_write_known [OF laws 7(1,2,3)] by (auto simp: rt_ops_def)
next
  case (8 h p bs)
  then show ?case using rt_read_known [OF laws 8(1,2)] by (auto simp: rt_ops_def rt_memory_irrelevant)
next
  case (9 h n)
  then show ?case using rt_alloc_returns [OF 9(1,3)] by (simp add: rt_ops_def)
next
  case (10 h p bs d)
  then show ?case using rt_write_known [OF laws 10(1,2,3)] by (auto simp: rt_ops_def)
next
  case (11 h k)
  then show ?case by (simp add: rt_room_def)
qed

text \<open>As a locale: a guest over a lawful linear memory. Every such guest sees a lawful host.\<close>

locale linked_guest =
  fixes wo :: "'w guest_memory_ops" and cap :: nat and fits :: "'w \<Rightarrow> bool"
  assumes laws: "wasm_laws wo cap fits"

sublocale linked_guest \<subseteq> host_abi_live "rt_ops wo" "rt_inv cap fits" rt_view rt_room
  by (rule rt_host_abi_live [OF laws])

section \<open>A linear memory that satisfies the laws\<close>

definition list_read :: "byte list \<Rightarrow> nat \<Rightarrow> nat \<Rightarrow> byte list option" where
  "list_read w a n = get_range w a (a + n)"

definition list_write :: "byte list \<Rightarrow> nat \<Rightarrow> byte list \<Rightarrow> byte list option" where
  "list_write w a bs =
     (if a + length bs \<le> length w then Some (take a w @ bs @ drop (a + length bs) w) else None)"

definition list_place :: "byte list \<Rightarrow> byte list \<Rightarrow> (i32 \<times> byte list) option" where
  "list_place w bs = map_option (\<lambda>w'. (16, w')) (list_write w 16 bs)"

definition list_ops :: "byte list guest_memory_ops" where
  "list_ops = \<lparr>wm_read = list_read, wm_write = list_write, wm_place = list_place\<rparr>"

lemma list_read_write:
  "list_write w a bs = Some w' \<Longrightarrow> list_read w' a (length bs) = Some bs \<and> length w' = length w"
  by (auto simp: list_write_def list_read_def get_range_def split: if_splits)

lemma wasm_laws_list: "wasm_laws list_ops cap (\<lambda>w. 16 + cap \<le> length w)"
proof -
  have place: "0 \<le> sint a \<and> list_read w' (unat a) (length bs) = Some bs \<and> length w' = length w"
    if "list_place w bs = Some (a, w')" for w bs a w'
    using that list_read_write [of w 16 bs w'] by (auto simp: list_place_def)
  have wr: "\<exists>w'. list_write w a bs = Some w' \<and> list_read w' a (length bs) = Some bs \<and>
      (16 + cap \<le> length w \<longrightarrow> 16 + cap \<le> length w')"
    if "list_read w a (length bs) = Some bs'" for w a bs bs'
  proof -
    have "a + length bs \<le> length w" using that by (simp add: list_read_def get_range_eq_Some)
    then obtain w' where "list_write w a bs = Some w'" by (simp add: list_write_def)
    with list_read_write [OF this] show ?thesis by simp
  qed
  have fits: "list_place w bs \<noteq> None" if "16 + cap \<le> length w" "length bs \<le> cap" for w bs
    using that by (simp add: list_place_def list_write_def)
  show ?thesis
    using place wr fits by (simp add: wasm_laws_def list_ops_def)
qed

interpretation linked: linked_guest list_ops cap "\<lambda>w. 16 + cap \<le> length w"
  by unfold_locales (rule wasm_laws_list)

section \<open>Reading through an arbitrary pointer\<close>

lemma get_from_context_known_pointer:
  assumes "wasm_laws wo cap fits" and "rt_inv cap fits c" and "rt_view c p = Some bs" and "length bs \<le> 10000000"
  shows "\<exists>w. get_from_context (rt_ops wo) p c = Ok (Inr bs, c\<lparr>caller_memory := Some w\<rparr>) \<and> fits w"
proof -
  have len: "sint (env_pointer_len c p) = int (length bs)"
    using env_pointer_len_view [OF rt_invD(2) [OF assms(2)]] assms(3) by (simp add: rt_view_def)
  have "validate_host_len (env_pointer_len c p) = Inr (length bs)"
    using len assms(4) by (intro validate_host_len_ok) (simp_all add: MAX_DATA_SIZE_def)
  with rt_read_known [OF assms(1-3)] show ?thesis by (auto simp: get_from_context_def rt_ops_def)
qed

text \<open>
  (C23) What the guest reads through any pointer at all, on the production host: through the pointer of
  a tracked region exactly its contents, whatever the guest's memory held, if they are at most
  10,000,000 bytes, and the limit error if they are more; through any other pointer, negative,
  inside a region or past the end, the negative-length error. The memory manager is never changed
  and the guest never traps.
\<close>

theorem linked_read_any_pointer:
  assumes "wasm_laws wo cap fits" and "rt_inv cap fits c"
  shows "\<exists>w. fits w \<and> get_from_context (rt_ops wo) p c =
    (case read_data (caller_data c) (i32_as_usize p) of
       Ok bs \<Rightarrow>
         if length bs \<le> 10000000 then Ok (Inr bs, c\<lparr>caller_memory := Some w\<rparr>)
         else Ok (Inl (MemoryLimitExceeded (length bs) 10000000), c)
     | _ \<Rightarrow> Ok (Inl (Deserialization ''Invalid negative length from host''), c))"
proof -
  obtain w0 where w0: "fits w0" using assms(2) by (auto simp: rt_inv_def)
  note rd = read_data_view [OF rt_invD(1) [OF assms(2)]]
  note len = env_pointer_len_view [OF rt_invD(2) [OF assms(2)], of p]
  show ?thesis
  proof (cases "rt_view c p")
    case None
    then show ?thesis
      using w0 len by (auto simp: rd rt_view_def get_from_context_def validate_host_len_def MAX_DATA_SIZE_def rt_ops_def)
  next
    case (Some bs)
    show ?thesis
    proof (cases "length bs \<le> 10000000")
      case True
      from get_from_context_known_pointer [OF assms Some True] show ?thesis
        using Some True by (auto simp: rd rt_view_def)
    next
      case False
      then show ?thesis
        using Some w0 len
        by (auto simp: rd rt_view_def get_from_context_def validate_host_len_def MAX_DATA_SIZE_def rt_ops_def)
    qed
  qed
qed

theorem linked_read_any_pointer_witness:
  "get_from_context (rt_ops list_ops) (- 1)
     \<lparr>caller_data = from_limits (build 512 2), caller_memory = Some (replicate (16 + 1048576) 0)\<rparr> =
   Ok (Inl (Deserialization ''Invalid negative length from host''),
     \<lparr>caller_data = from_limits (build 512 2), caller_memory = Some (replicate (16 + 1048576) 0)\<rparr>)"
proof -
  let ?c = "\<lparr>caller_data = from_limits (build 512 2), caller_memory = Some (replicate (16 + 1048576) 0)\<rparr>"
  have "mm_max_single_alloc (from_limits (build 512 2)) = 1048576"
    by (simp add: from_limits_def build_fields ram_steps_def clamp_def)
  then have "rt_inv 1048576 (\<lambda>w. 16 + 1048576 \<le> length w) ?c"
    by (simp add: rt_inv_def mm_abi_from_limits)
  from linked_read_any_pointer [OF wasm_laws_list this, of "- 1"] show ?thesis
    by (simp add: read_data_def from_limits_def)
qed

end
