(* ===== verification/Ave_Staging.thy ===== *)
theory Ave_Staging
  imports Ave_Linker Ave_Codecs
begin

text \<open>
  The data path of \<open>src/runtime/contract_runtime.rs\<close>: staging the arguments of a contract into
  the memory manager and reading its answer back, and the outcome types of
  \<open>src/runtime/executor.rs\<close>. \<open>serde_json\<close> on \<open>ValueWrapper\<close> is a parameter.

  The main results: a staged argument is exactly the Borsh framing of its JSON bytes, staging three
  arguments succeeds exactly when each fits the single-allocation cap, and afterwards no allocation
  of the guest is at pointer 0.
\<close>

section \<open>Outcome types\<close>

record 'v json =
  json_to_vec :: "'v \<Rightarrow> string + byte list"
  json_from_slice :: "byte list \<Rightarrow> string + 'v"

record 'v execution_result =
  er_final_state :: 'v
  er_success :: bool
  er_error :: string

record execution_stats =
  es_fuel_consumed :: nat
  es_memory_bytes :: nat
  es_fuel_exhausted :: bool

section \<open>Staging\<close>

definition value_to_contract_data :: "'v json \<Rightarrow> 'v \<Rightarrow> (byte list, runtime_error) outcome" where
  "value_to_contract_data js v =
     (case json_to_vec js v of
        Inl e \<Rightarrow> Err (SerializationError ''value to contract data'' e)
      | Inr bytes \<Rightarrow> Ok bytes)"

text \<open>\<open>.map_err(|e| RuntimeError::MemoryAllocationFailed(e.to_string()))\<close>\<close>

definition alloc_err :: "contract_error \<Rightarrow> runtime_error" where
  "alloc_err e = RtMemoryAllocationFailed (contract_error_display e)"

definition write_contract_data ::
    "memory_manager \<Rightarrow> byte list \<Rightarrow> (u32 \<times> memory_manager, runtime_error) outcome" where
  "write_contract_data context payload =
     (if length payload < 2 ^ 32
      then
        (let len_u32 = usize_as_u32 (length payload) in
         obind (map_err alloc_err (alloc context (4 + length payload))) (\<lambda>(ptr, m1).
         obind (map_err alloc_err (write_bytes_at m1 ptr 0 (u32_to_le_bytes len_u32))) (\<lambda>m2.
         obind (map_err alloc_err (write_bytes_at m2 ptr 4 payload)) (\<lambda>m3.
           Ok (usize_as_u32 ptr, m3)))))
      else Err (SerializationError ''contract data borsh''
        (show_nat (length payload) @ '' bytes do not fit the borsh u32 length'')))"

definition generate_context ::
    "'v json \<Rightarrow> 'v \<Rightarrow> wasm_limits \<Rightarrow> (memory_manager \<times> u32, runtime_error) outcome" where
  "generate_context js st limits =
     (let context = from_limits limits in
      obind (value_to_contract_data js st) (\<lambda>dat.
      obind (write_contract_data context dat) (\<lambda>(ptr, context').
        Ok (context', ptr))))"

definition generate_execution_context ::
    "'v json \<Rightarrow> 'v \<Rightarrow> 'v \<Rightarrow> 'v \<Rightarrow> wasm_limits \<Rightarrow>
     (memory_manager \<times> u32 \<times> u32 \<times> u32, runtime_error) outcome" where
  "generate_execution_context js st init_state ev limits =
     (let context = from_limits limits in
      obind (value_to_contract_data js st) (\<lambda>state_data.
      obind (write_contract_data context state_data) (\<lambda>(state_ptr, c1).
      obind (value_to_contract_data js init_state) (\<lambda>init_data.
      obind (write_contract_data c1 init_data) (\<lambda>(init_ptr, c2).
      obind (value_to_contract_data js ev) (\<lambda>event_data.
      obind (write_contract_data c2 event_data) (\<lambda>(event_ptr, c3).
        Ok (c3, state_ptr, init_ptr, event_ptr))))))))"

section \<open>Reading the answer\<close>

definition check_init_result :: "sdk_ext \<Rightarrow> memory_manager \<Rightarrow> u32 \<Rightarrow> (unit, runtime_error) outcome" where
  "check_init_result ext m result_ptr =
     obind (map_err alloc_err (read_data m (unat result_ptr))) (\<lambda>memory.
       case borsh_init_de ext memory of
         Inl e \<Rightarrow> Err (SerializationError ''init check result'' e)
       | Inr check \<Rightarrow>
           if cid_success check then Ok () else Err (ContractExecutionFailed (cid_error check)))"

definition get_execution_result ::
    "sdk_ext \<Rightarrow> 'v json \<Rightarrow> memory_manager \<Rightarrow> u32 \<Rightarrow> ('v execution_result, runtime_error) outcome" where
  "get_execution_result ext js m result_ptr =
     obind (map_err alloc_err (read_data m (unat result_ptr))) (\<lambda>memory.
       case borsh_result_de ext memory of
         Inl e \<Rightarrow> Err (SerializationError ''execution result'' e)
       | Inr result \<Rightarrow>
           (case json_from_slice js (crd_final_state result) of
              Inl e \<Rightarrow> Err (SerializationError ''final state json'' e)
            | Inr final_state \<Rightarrow>
                Ok \<lparr>er_final_state = final_state,
                    er_success = crd_success result,
                    er_error = crd_error result\<rparr>))"

section \<open>One staged argument\<close>

lemma value_to_contract_data_eq_Ok [outcome_simps]:
  "value_to_contract_data js v = Ok bs \<longleftrightarrow> json_to_vec js v = Inr bs"
  by (simp add: value_to_contract_data_def split: sum.split)

lemma write_contract_data_stages:
  assumes "mm_inv m" and "length payload < 2 ^ 32" and "alloc m (4 + length payload) = Ok (p, m1)"
  shows "\<exists>m'. write_contract_data m payload = Ok (usize_as_u32 p, m') \<and> mm_inv m' \<and>
    mm_view m p = None \<and> mm_view m' = (mm_view m)(p \<mapsto> borsh_frame payload)"
proof -
  let ?hdr = "u32_to_le_bytes (usize_as_u32 (length payload))"
  have a: "alloc m (length ?hdr + length payload) = Ok (p, m1)" using assms(3) by simp
  have "?hdr \<noteq> []" using length_u32_to_le_bytes [of "usize_as_u32 (length payload)"] by force
  from mm.stage_two_pieces [OF assms(1) a this] obtain m2 m3 where
    "write_bytes_at m1 p 0 ?hdr = Ok m2" "write_bytes_at m2 p 4 payload = Ok m3"
    "mm_inv m3" "mm_view m p = None" "mm_view m3 = (mm_view m)(p \<mapsto> ?hdr @ payload)"
    by auto
  then show ?thesis
    using assms(2,3) by (simp add: write_contract_data_def borsh_frame_def Let_def)
qed

lemma write_contract_data_refused:
  assumes "length payload < 2 ^ 32" and "alloc m (4 + length payload) = Err e"
  shows "write_contract_data m payload = Err (alloc_err e)"
  using assms by (simp add: write_contract_data_def Let_def)

text \<open>What the staging of one argument does to the memory manager besides its contents.\<close>

lemma write_bytes_at_shape:
  "write_bytes_at m p off d = Ok m' \<Longrightarrow>
     length (mm_memory m') = length (mm_memory m) \<and> mm_max_single_alloc m' = mm_max_single_alloc m \<and>
     mm_max_total_memory m' = mm_max_total_memory m"
  by (auto simp: write_bytes_at_def outcome_simps checked_add_eq_Some split: if_splits)

lemma write_contract_data_shape:
  assumes "write_contract_data m payload = Ok (p, m')"
  shows "p = usize_as_u32 (length (mm_memory m))"
    and "length (mm_memory m') = length (mm_memory m) + 4 + length payload"
    and "mm_max_single_alloc m' = mm_max_single_alloc m"
    and "mm_max_total_memory m' = mm_max_total_memory m"
    and "length payload < 2 ^ 32" and "4 + length payload \<le> mm_max_single_alloc m"
    and "\<exists>m1. alloc m (4 + length payload) = Ok (length (mm_memory m), m1)"
proof -
  from assms obtain q m1 m2 where
    lt: "length payload < 2 ^ 32" and a: "alloc m (4 + length payload) = Ok (q, m1)"
    and w1: "write_bytes_at m1 q 0 (u32_to_le_bytes (usize_as_u32 (length payload))) = Ok m2"
    and w2: "write_bytes_at m2 q 4 payload = Ok m'" and p: "p = usize_as_u32 q"
    by (auto simp: write_contract_data_def Let_def outcome_simps split: if_splits prod.splits)
  have q: "q = length (mm_memory m)" using a by (simp add: alloc_eq_Ok)
  note shapes = write_bytes_at_shape [OF w1] write_bytes_at_shape [OF w2]
  show "p = usize_as_u32 (length (mm_memory m))" "length payload < 2 ^ 32" using p q lt by simp_all
  show "length (mm_memory m') = length (mm_memory m) + 4 + length payload"
    "mm_max_single_alloc m' = mm_max_single_alloc m" "mm_max_total_memory m' = mm_max_total_memory m"
    "4 + length payload \<le> mm_max_single_alloc m"
    using shapes a by (auto simp: alloc_eq_Ok)
  show "\<exists>m1. alloc m (4 + length payload) = Ok (length (mm_memory m), m1)" using a q by blast
qed

lemma write_contract_data_view:
  assumes "mm_inv m" and ok: "write_contract_data m payload = Ok (p, m')"
  shows "mm_inv m'" and "mm_view m (length (mm_memory m)) = None"
    and "mm_view m' = (mm_view m)(length (mm_memory m) \<mapsto> borsh_frame payload)"
proof -
  note shape = write_contract_data_shape [OF ok]
  obtain m1 where "alloc m (4 + length payload) = Ok (length (mm_memory m), m1)" using shape(7) by blast
  from write_contract_data_stages [OF assms(1) shape(5) this] ok
  show "mm_inv m'" "mm_view m (length (mm_memory m)) = None"
    "mm_view m' = (mm_view m)(length (mm_memory m) \<mapsto> borsh_frame payload)" by auto
qed

lemma write_contract_data_store_limits:
  "write_contract_data m payload = Ok (p, m') \<Longrightarrow> mm_store_limits m' = mm_store_limits m"
  by (auto simp: write_contract_data_def Let_def outcome_simps write_bytes_at_def checked_add_eq_Some alloc_eq_Ok
      split: if_splits prod.splits)

text \<open>Staging succeeds exactly when the frame fits both caps.\<close>

lemma write_contract_data_succeeds:
  assumes "mm_inv m" and "length payload < 2 ^ 32"
    and "4 + length payload \<le> mm_max_single_alloc m"
    and "length (mm_memory m) + 4 + length payload \<le> mm_max_total_memory m"
  shows "\<exists>p m'. write_contract_data m payload = Ok (p, m')"
proof -
  have "length (mm_memory m) + (4 + length payload) \<le> usize_max"
    using assms(1,4) by (simp add: mm_inv_def)
  then obtain m1 where "alloc m (4 + length payload) = Ok (length (mm_memory m), m1)"
    using assms(3,4) by (simp add: alloc_eq_Ok)
  from write_contract_data_stages [OF assms(1,2) this] show ?thesis by blast
qed

section \<open>Three staged arguments\<close>

lemma generate_execution_context_eq_Ok:
  "generate_execution_context js s i e limits = Ok (m, sp, ip, ep) \<longleftrightarrow>
     (\<exists>sb ib eb c1 c2.
        json_to_vec js s = Inr sb \<and> json_to_vec js i = Inr ib \<and> json_to_vec js e = Inr eb \<and>
        write_contract_data (from_limits limits) sb = Ok (sp, c1) \<and>
        write_contract_data c1 ib = Ok (ip, c2) \<and> write_contract_data c2 eb = Ok (ep, m))"
  by (auto simp: generate_execution_context_def Let_def outcome_simps)

lemma staging_store_limits:
  "generate_execution_context js s i e limits = Ok (m, sp, ip, ep) \<Longrightarrow>
     mm_store_limits m = mm_store_limits (from_limits limits)"
  "generate_context js v limits = Ok (m, p) \<Longrightarrow> mm_store_limits m = mm_store_limits (from_limits limits)"
  by (auto simp: generate_execution_context_eq_Ok generate_context_def Let_def outcome_simps
      dest!: write_contract_data_store_limits)

text \<open>What the rest of a run may assume of the staged memory manager.\<close>

definition staged ::
    "memory_manager \<Rightarrow> nat \<Rightarrow> u32 \<Rightarrow> byte list \<Rightarrow> u32 \<Rightarrow> byte list \<Rightarrow> u32 \<Rightarrow> byte list \<Rightarrow> bool" where
  "staged m cap sp sb ip ib ep eb \<longleftrightarrow>
     mm_abi m \<and> mm_max_single_alloc m = cap \<and> mm_max_total_memory m = 3 * cap \<and>
     length (mm_memory m) = 12 + length sb + length ib + length eb \<and>
     unat sp = 0 \<and> unat ip = 4 + length sb \<and> unat ep = 8 + length sb + length ib \<and>
     4 + length sb \<le> cap \<and> 4 + length ib \<le> cap \<and> 4 + length eb \<le> cap \<and>
     mm_view m = [unat sp \<mapsto> borsh_frame sb, unat ip \<mapsto> borsh_frame ib, unat ep \<mapsto> borsh_frame eb]"

lemma mm_view_from_limits [simp]: "mm_view (from_limits limits) = Map.empty"
  by (rule ext) (simp add: mm_view_def)

lemma build_caps:
  "mm_max_total_memory (from_limits (build ram cores)) = 3 * (1024 * 1024 * ram_steps ram)"
  "mm_max_single_alloc (from_limits (build ram cores)) = 1024 * 1024 * ram_steps ram"
  by (simp_all add: build_fields)

lemma mm_inv_build: "mm_inv (from_limits (build ram cores))"
  using mm_abi_from_limits [of ram cores] by (simp add: mm_abi_def)

lemma staged_intro:
  assumes "write_contract_data (from_limits (build ram cores)) sb = Ok (sp, c1)"
    and "write_contract_data c1 ib = Ok (ip, c2)" and "write_contract_data c2 eb = Ok (ep, m)"
  shows "staged m (1024 * 1024 * ram_steps ram) sp sb ip ib ep eb"
proof -
  note s1 = write_contract_data_shape [OF assms(1)] and v1 = write_contract_data_view [OF mm_inv_build assms(1)]
  note s2 = write_contract_data_shape [OF assms(2)] and v2 = write_contract_data_view [OF v1(1) assms(2)]
  note s3 = write_contract_data_shape [OF assms(3)] and v3 = write_contract_data_view [OF v2(1) assms(3)]
  have caps: "mm_max_single_alloc m = 1024 * 1024 * ram_steps ram"
      "mm_max_total_memory m = 3 * (1024 * 1024 * ram_steps ram)"
    using s1(3,4) s2(3,4) s3(3,4) build_caps [of ram cores] by simp_all
  have fits: "4 + length sb \<le> 1024 * 1024 * ram_steps ram" "4 + length ib \<le> 1024 * 1024 * ram_steps ram"
      "4 + length eb \<le> 1024 * 1024 * ram_steps ram"
    using s1(3,6) s2(3,6) s3(6) build_caps [of ram cores] by simp_all
  have lens: "length (mm_memory c1) = 4 + length sb" "length (mm_memory c2) = 8 + length sb + length ib"
      "length (mm_memory m) = 12 + length sb + length ib + length eb"
    using s1(2) s2(2) s3(2) by simp_all
  have steps: "ram_steps ram \<le> 8" using ram_steps_bounds by blast
  have ptrs: "unat sp = 0" "unat ip = 4 + length sb" "unat ep = 8 + length sb + length ib"
    using s1(1) s2(1) s3(1) lens fits steps by (simp_all add: usize_as_u32_id)
  have "mm_abi m"
    using v3(1) caps steps by (simp add: mm_abi_def i32_max_def)
  then show ?thesis
    using caps fits lens ptrs v1(3) v2(3) v3(3) by (simp add: staged_def)
qed

lemma staging_facts:
  assumes "generate_execution_context js s i e (build ram cores) = Ok (m, sp, ip, ep)"
  obtains sb ib eb where "json_to_vec js s = Inr sb" and "json_to_vec js i = Inr ib"
    and "json_to_vec js e = Inr eb" and "staged m (1024 * 1024 * ram_steps ram) sp sb ip ib ep eb"
  using assms staged_intro unfolding generate_execution_context_eq_Ok by blast

lemma staging_succeeds:
  assumes j: "json_to_vec js s = Inr sb" "json_to_vec js i = Inr ib" "json_to_vec js e = Inr eb"
    and l: "4 + length sb \<le> 1024 * 1024 * ram_steps ram" "4 + length ib \<le> 1024 * 1024 * ram_steps ram"
      "4 + length eb \<le> 1024 * 1024 * ram_steps ram"
  shows "\<exists>r. generate_execution_context js s i e (build ram cores) = Ok r"
proof -
  have steps: "ram_steps ram \<le> 8" using ram_steps_bounds by blast
  note caps = build_caps [of ram cores]
  obtain sp c1 where w1: "write_contract_data (from_limits (build ram cores)) sb = Ok (sp, c1)"
    using write_contract_data_succeeds [OF mm_inv_build, of sb ram cores] l steps caps by auto
  note s1 = write_contract_data_shape [OF w1] and v1 = write_contract_data_view [OF mm_inv_build w1]
  obtain ip c2 where w2: "write_contract_data c1 ib = Ok (ip, c2)"
    using write_contract_data_succeeds [OF v1(1), of ib] l steps caps s1(2-4) by auto
  note s2 = write_contract_data_shape [OF w2] and v2 = write_contract_data_view [OF v1(1) w2]
  obtain ep m where "write_contract_data c2 eb = Ok (ep, m)"
    using write_contract_data_succeeds [OF v2(1), of eb] l steps caps s1(2-4) s2(2-4) by auto
  with j w1 w2 show ?thesis
    by (auto simp: split_paired_Ex generate_execution_context_eq_Ok)
qed

lemma staged_view:
  assumes "staged m cap sp sb ip ib ep eb"
  shows "mm_view m (unat sp) = Some (borsh_frame sb)" and "mm_view m (unat ip) = Some (borsh_frame ib)"
    and "mm_view m (unat ep) = Some (borsh_frame eb)"
  using assms by (simp_all add: staged_def)

lemma staged_pointers_nonneg:
  assumes "staged m cap sp sb ip ib ep eb"
  shows "i32_as_usize sp = unat sp" and "i32_as_usize ip = unat ip" and "i32_as_usize ep = unat ep"
proof -
  have "length (mm_memory m) < 2 ^ 31"
    using assms by (auto simp: staged_def mm_abi_def mm_inv_def i32_max_def)
  then have "unat sp < 2 ^ 31" "unat ip < 2 ^ 31" "unat ep < 2 ^ 31"
    using assms by (simp_all add: staged_def)
  then have "0 \<le> sint sp" "0 \<le> sint ip" "0 \<le> sint ep"
    by (simp_all only: unat_lt_imp_sint of_nat_0_le_iff)
  then show "i32_as_usize sp = unat sp" "i32_as_usize ip = unat ip" "i32_as_usize ep = unat ep"
    by (simp_all only: i32_as_usize_nonneg)
qed

lemma staged_alloc:
  assumes "staged m cap sp sb ip ib ep eb" and "caller_data c = m" and "unat n \<le> cap"
    and "12 + length sb + length ib + length eb + unat n \<le> 3 * cap"
  shows "\<exists>p c'. env_alloc c n = Ok (p, c')"
proof -
  have "length (mm_memory m) + unat n \<le> usize_max"
    using assms by (simp add: staged_def mm_abi_def mm_inv_def)
  then show ?thesis
    using assms by (simp add: env_alloc_eq_Ok alloc_eq_Ok staged_def)
qed

section \<open>Properties\<close>

text \<open>
  (C12) Layout of the staged arguments: on every machine, when staging succeeds the state is at
  pointer 0, the initial state and the event follow without gaps, each region reads back as the
  little-endian length of the JSON bytes followed by the bytes, and nothing else is allocated.
\<close>

theorem staging_layout:
  assumes "generate_execution_context js s i e (build ram cores) = Ok (m, sp, ip, ep)"
  shows "\<exists>sb ib eb.
    json_to_vec js s = Inr sb \<and> json_to_vec js i = Inr ib \<and> json_to_vec js e = Inr eb \<and>
    unat sp = 0 \<and> unat ip = 4 + length sb \<and> unat ep = 8 + length sb + length ib \<and>
    read_data m (unat sp) = Ok (u32_to_le_bytes (word_of_nat (length sb)) @ sb) \<and>
    read_data m (unat ip) = Ok (u32_to_le_bytes (word_of_nat (length ib)) @ ib) \<and>
    read_data m (unat ep) = Ok (u32_to_le_bytes (word_of_nat (length eb)) @ eb) \<and>
    (\<forall>p. p \<notin> {unat sp, unat ip, unat ep} \<longrightarrow> read_data m p = Err (InvalidPointer p))"
proof -
  from assms obtain sb ib eb where
    j: "json_to_vec js s = Inr sb" "json_to_vec js i = Inr ib" "json_to_vec js e = Inr eb"
    and st: "staged m (1024 * 1024 * ram_steps ram) sp sb ip ib ep eb"
    by (rule staging_facts)
  have inv: "mm_inv m" using st by (simp add: staged_def mm_abi_def)
  have frames: "read_data m (unat sp) = Ok (borsh_frame sb)" "read_data m (unat ip) = Ok (borsh_frame ib)"
      "read_data m (unat ep) = Ok (borsh_frame eb)"
    by (simp_all add: read_data_view [OF inv] staged_view [OF st])
  have others: "read_data m p = Err (InvalidPointer p)" if "p \<notin> {unat sp, unat ip, unat ep}" for p
    using that st by (simp add: read_data_view [OF inv] staged_def)
  have "unat sp = 0" "unat ip = 4 + length sb" "unat ep = 8 + length sb + length ib"
    using st by (simp_all add: staged_def)
  then show ?thesis
    using j frames others by (simp add: borsh_frame_def usize_as_u32_def)
qed

text \<open>
  (C11) When staging succeeds: exactly when the three values serialise to JSON and each, with its
  four length bytes, fits the single-allocation cap of the machine. The total cap never decides,
  because it is three times the single cap; and no payload that passes can exceed the guest's own
  limit of 10,000,000 bytes, so the guest never refuses an argument for its size.
\<close>

theorem staging_succeeds_iff:
  "((\<exists>r. generate_execution_context js s i e (build ram cores) = Ok r) \<longleftrightarrow>
     (\<exists>sb ib eb. json_to_vec js s = Inr sb \<and> json_to_vec js i = Inr ib \<and> json_to_vec js e = Inr eb \<and>
        (\<forall>b \<in> {sb, ib, eb}. 4 + length b \<le> wl_max_single_alloc (build ram cores)))) \<and>
   (4 + n \<le> wl_max_single_alloc (build ram cores) \<longrightarrow> validate_host_len (usize_as_u32 (4 + n)) = Inr (4 + n))"
proof (intro conjI iffI impI)
  assume "\<exists>r. generate_execution_context js s i e (build ram cores) = Ok r"
  then obtain m sp ip ep where "generate_execution_context js s i e (build ram cores) = Ok (m, sp, ip, ep)"
    by (auto simp: split_paired_Ex)
  then obtain sb ib eb where
    "json_to_vec js s = Inr sb" "json_to_vec js i = Inr ib" "json_to_vec js e = Inr eb"
    "staged m (1024 * 1024 * ram_steps ram) sp sb ip ib ep eb"
    using staging_facts by metis
  then show "\<exists>sb ib eb. json_to_vec js s = Inr sb \<and> json_to_vec js i = Inr ib \<and> json_to_vec js e = Inr eb \<and>
        (\<forall>b \<in> {sb, ib, eb}. 4 + length b \<le> wl_max_single_alloc (build ram cores))"
    by (simp add: staged_def build_fields)
next
  assume "\<exists>sb ib eb. json_to_vec js s = Inr sb \<and> json_to_vec js i = Inr ib \<and> json_to_vec js e = Inr eb \<and>
        (\<forall>b \<in> {sb, ib, eb}. 4 + length b \<le> wl_max_single_alloc (build ram cores))"
  then obtain sb ib eb where
    "json_to_vec js s = Inr sb" "json_to_vec js i = Inr ib" "json_to_vec js e = Inr eb"
    "4 + length sb \<le> 1024 * 1024 * ram_steps ram" "4 + length ib \<le> 1024 * 1024 * ram_steps ram"
      "4 + length eb \<le> 1024 * 1024 * ram_steps ram"
    by (auto simp: build_fields)
  then show "\<exists>r. generate_execution_context js s i e (build ram cores) = Ok r"
    by (rule staging_succeeds)
next
  assume "4 + n \<le> wl_max_single_alloc (build ram cores)"
  then have "4 + n \<le> 8388608"
    using ram_steps_bounds [of ram] by (simp add: build_fields)
  then show "validate_host_len (usize_as_u32 (4 + n)) = Inr (4 + n)"
    by (intro validate_host_len_ok) (simp_all add: sint_usize_as_u32 MAX_DATA_SIZE_def)
qed

text \<open>A JSON codec for evaluation: values are their own bytes.\<close>

definition raw_json :: "byte list json" where
  "raw_json = \<lparr>json_to_vec = Inr, json_from_slice = Inr\<rparr>"

lemma raw_staging:
  assumes "length s + 4 \<le> 1048576" and "length i + 4 \<le> 1048576" and "length e + 4 \<le> 1048576"
  shows "\<exists>m sp ip ep. generate_execution_context raw_json s i e (build 512 2) = Ok (m, sp, ip, ep)"
proof -
  have "ram_steps 512 = 1" by (simp add: ram_steps_def clamp_def)
  then have "\<exists>r. generate_execution_context raw_json s i e (build 512 2) = Ok r"
    using assms staging_succeeds [of raw_json s s i i e e 512 2] by (simp add: raw_json_def)
  then show ?thesis by (auto simp: split_paired_Ex)
qed

theorem staging_layout_witness:
  "\<exists>m sp ip ep. generate_execution_context raw_json [1, 2] [3] [4] (build 512 2) = Ok (m, sp, ip, ep) \<and>
     read_data m 0 = Ok [2, 0, 0, 0, 1, 2] \<and> unat ep = 11"
proof -
  obtain m sp ip ep where g: "generate_execution_context raw_json [1, 2] [3] [4] (build 512 2) = Ok (m, sp, ip, ep)"
    using raw_staging [of "[1, 2]" "[3]" "[4]"] by auto
  from staging_layout [OF g] have "unat ep = 11" "unat sp = 0"
    "read_data m (unat sp) = Ok (u32_to_le_bytes (word_of_nat 2) @ [1, 2])"
    by (auto simp: raw_json_def)
  then have "unat ep = 11" "read_data m 0 = Ok [2, 0, 0, 0, 1, 2]"
    by (simp_all add: u32_to_le_bytes_def drop_bit_eq_div)
  with g show ?thesis by blast
qed

theorem staging_succeeds_iff_witness:
  "validate_host_len (usize_as_u32 (4 + 96)) = Inr (4 + 96)"
proof -
  have "4 + 96 \<le> wl_max_single_alloc (build 512 2)"
    using ram_steps_bounds [of 512] by (simp add: build_fields)
  then show ?thesis
    using staging_succeeds_iff [of raw_json "[]" "[]" "[]" 512 2 96] by blast
qed

text \<open>
  (C20) Allocations of the guest after staging: whatever the guest has done before, an allocation
  that succeeds returns a non-null pointer and none of the three argument pointers, so the guest's
  test for a null pointer never mistakes a success for a failure; and every argument whose pointer
  the guest has not written through is still intact.
\<close>

theorem guest_alloc_after_staging:
  assumes "generate_execution_context js s i e (build ram cores) = Ok (m, sp, ip, ep)"
    and "host_run wo \<lparr>caller_data = m, caller_memory = w\<rparr> ls c" and "env_alloc c n = Ok (p, c')"
  shows "p \<noteq> 0 \<and> p \<notin> {sp, ip, ep} \<and>
    (\<forall>q \<in> {sp, ip, ep}. (\<forall>src len. Call_write_bytes q src len \<notin> set ls) \<longrightarrow>
       read_data (caller_data c') (unat q) = read_data m (unat q))"
proof -
  from assms(1) obtain sb ib eb where
    st: "staged m (1024 * 1024 * ram_steps ram) sp sb ip ib ep eb" by (rule staging_facts)
  let ?c0 = "\<lparr>caller_data = m, caller_memory = w\<rparr>"
  have inv: "mm_inv (caller_data ?c0)" using st by (simp add: staged_def mm_abi_def)
  from host_run_keeps [OF assms(2) inv] have invc: "mm_inv (caller_data c)"
    and ext: "mm_extends m (caller_data c)" by simp_all
  let ?q = "length (mm_memory (caller_data c))"
  have big: "unat q < ?q" if "q \<in> {sp, ip, ep}" for q
    using that st ext by (auto simp: staged_def mm_extends_def)
  have "?q < 2 ^ 32"
    using invc ext st by (auto simp: mm_inv_def staged_def mm_extends_def mm_abi_def i32_max_def)
  then have p: "unat p = ?q"
    using assms(3) by (auto simp: env_alloc_eq_Ok usize_as_u32_id)
  then have new: "p \<noteq> 0 \<and> p \<notin> {sp, ip, ep}"
    using big [of sp] big by fastforce
  have "read_data (caller_data c') (unat q) = read_data m (unat q)"
    if q: "q \<in> {sp, ip, ep}" and nw: "\<forall>src len. Call_write_bytes q src len \<notin> set ls" for q
  proof -
    obtain bs where v: "mm_view m (unat q) = Some bs" using q staged_view [OF st] by auto
    have uq: "i32_as_usize q = unat q" using q staged_pointers_nonneg [OF st] by auto
    have run: "host_run wo ?c0 (ls @ [Call_alloc n]) c'"
      by (rule run_step [OF assms(2) step_alloc [OF assms(3)]])
    have eq: "i32_as_usize dst = unat q \<longleftrightarrow> dst = q" for dst
      using i32_as_usize_inject [of dst q] uq by simp
    have "mm_view (caller_data c') (unat q) = Some bs"
      by (rule host_run_view [OF run inv]) (use v nw eq in auto)
    with v inv host_run_keeps [OF run inv] show ?thesis by (simp add: read_data_view)
  qed
  with new show ?thesis by blast
qed

theorem guest_alloc_after_staging_witness:
  "\<exists>m sp ip ep c p c'.
     generate_execution_context raw_json [1, 2] [3] [4] (build 512 2) = Ok (m, sp, ip, ep) \<and>
     host_run \<lparr>wm_read = (\<lambda>w a n. None), wm_write = (\<lambda>w a bs. None)\<rparr>
       \<lparr>caller_data = m, caller_memory = None :: unit option\<rparr> [Call_pointer_len sp] c \<and>
     env_alloc c 4 = Ok (p, c') \<and> p \<noteq> 0 \<and> read_data (caller_data c') (unat sp) = read_data m (unat sp)"
proof -
  let ?wo = "\<lparr>wm_read = (\<lambda>(w::unit) a n. None), wm_write = (\<lambda>w a bs. None)\<rparr>"
  obtain m sp ip ep where g: "generate_execution_context raw_json [1, 2] [3] [4] (build 512 2) = Ok (m, sp, ip, ep)"
    using raw_staging [of "[1, 2]" "[3]" "[4]"] by auto
  let ?c = "\<lparr>caller_data = m, caller_memory = None :: unit option\<rparr>"
  have run: "host_run ?wo ?c [Call_pointer_len sp] ?c"
    using run_step [OF run_nil step_pointer_len] by simp
  from g obtain sb ib eb where "staged m (1024 * 1024 * ram_steps 512) sp sb ip ib ep eb"
    "sb = [1, 2]" "ib = [3]" "eb = [4]"
    by (rule staging_facts) (simp add: raw_json_def)
  moreover have "ram_steps 512 = 1" by (simp add: ram_steps_def clamp_def)
  ultimately obtain p c' where a: "env_alloc ?c 4 = Ok (p, c')"
    using staged_alloc [of m 1048576 sp sb ip ib ep eb ?c 4] by auto
  show ?thesis
    using guest_alloc_after_staging [OF g run a] g run a by auto
qed

section \<open>The context of a validation\<close>

lemma generate_context_facts:
  assumes "generate_context js v (build ram cores) = Ok (m, p)"
  obtains b where "json_to_vec js v = Inr b" and "p = 0" and "mm_abi m"
    and "mm_view m = [0 \<mapsto> borsh_frame b]" and "length (mm_memory m) = 4 + length b"
    and "mm_max_single_alloc m = 1024 * 1024 * ram_steps ram"
    and "mm_max_total_memory m = 3 * (1024 * 1024 * ram_steps ram)"
proof -
  from assms obtain b where b: "json_to_vec js v = Inr b"
    and w: "write_contract_data (from_limits (build ram cores)) b = Ok (p, m)"
    by (auto simp: generate_context_def value_to_contract_data_def Let_def obind_eq_Ok split: sum.splits)
  note s = write_contract_data_shape [OF w] and v = write_contract_data_view [OF mm_inv_build w]
    and caps = build_caps [of ram cores]
  have "p = 0" using s(1) by (simp add: usize_as_u32_def)
  moreover have "mm_abi m" using v(1) s(4) caps ram_steps_bounds [of ram] by (simp add: mm_abi_def i32_max_def)
  ultimately show thesis using b s v caps by (intro that [of b]) simp_all
qed

lemma generate_context_staged:
  assumes "json_to_vec js v = Inr b" and "4 + length b \<le> 1024 * 1024 * ram_steps ram"
  obtains m where "generate_context js v (build ram cores) = Ok (m, 0)" and "mm_abi m"
    and "mm_view m = [0 \<mapsto> borsh_frame b]" and "length (mm_memory m) = 4 + length b"
    and "mm_max_single_alloc m = 1024 * 1024 * ram_steps ram"
    and "mm_max_total_memory m = 3 * (1024 * 1024 * ram_steps ram)"
proof -
  have steps: "ram_steps ram \<le> 8" using ram_steps_bounds by blast
  obtain p m where "write_contract_data (from_limits (build ram cores)) b = Ok (p, m)"
    using write_contract_data_succeeds [OF mm_inv_build, of b ram cores] assms(2) steps build_caps [of ram cores] by auto
  with assms(1) have "generate_context js v (build ram cores) = Ok (m, p)"
    by (simp add: generate_context_def value_to_contract_data_def Let_def)
  with assms(1) that show thesis by (auto elim: generate_context_facts)
qed

section \<open>The null pointer as an answer\<close>

lemma unwritten_null:
  assumes run: "host_run wo \<lparr>caller_data = m, caller_memory = w\<rparr> ls c" and "mm_inv m" and "mm_view m 0 = Some bs"
    and "\<forall>src len. Call_write_bytes 0 src len \<notin> set ls"
  shows "read_data (caller_data c) 0 = Ok bs"
proof -
  let ?c0 = "\<lparr>caller_data = m, caller_memory = w\<rparr>"
  have inv: "mm_inv (caller_data ?c0)" and v: "mm_view (caller_data ?c0) 0 = Some bs" using assms(2,3) by simp_all
  have z: "i32_as_usize q = 0 \<longleftrightarrow> q = 0" for q
    using i32_as_usize_inject [of q 0] by (simp add: i32_as_usize_def)
  have "mm_view (caller_data c) 0 = Some bs"
    by (rule host_run_view [OF run inv v]) (use assms(4) z in auto)
  then show ?thesis using host_run_keeps [OF run inv] by (simp add: read_data_view)
qed

text \<open>
  (C21) The null pointer is no error to the host: it is the pointer of the staged state. When a guest
  that has not written through it answers null, from \<open>main_function\<close> or from
  \<open>init_check_function\<close>, the host decodes the framed state as if it were the answer, and what
  \<open>execute\<close> or \<open>validate\<close> reports is what that decoding gives: an answer if the codec accepts the
  frame, and only otherwise a serialisation error.
\<close>

theorem null_answer_reads_state:
  assumes "generate_execution_context js s i e (build ram cores) = Ok (m, sp, ip, ep)" and "json_to_vec js s = Inr sb"
    and "host_run wo \<lparr>caller_data = m, caller_memory = w\<rparr> ls c"
    and "\<forall>src len. Call_write_bytes 0 src len \<notin> set ls"
    and "generate_context js v (build ram cores) = Ok (m2, p)" and "json_to_vec js v = Inr b"
    and "host_run wo \<lparr>caller_data = m2, caller_memory = w2\<rparr> ls2 c2"
    and "\<forall>src len. Call_write_bytes 0 src len \<notin> set ls2"
  shows "sp = 0 \<and> p = 0 \<and>
    get_execution_result ext js (caller_data c) 0 =
      (case borsh_result_de ext (borsh_frame sb) of
         Inl err \<Rightarrow> Err (SerializationError ''execution result'' err)
       | Inr answer \<Rightarrow>
           (case json_from_slice js (crd_final_state answer) of
              Inl err \<Rightarrow> Err (SerializationError ''final state json'' err)
            | Inr fin \<Rightarrow> Ok \<lparr>er_final_state = fin, er_success = crd_success answer, er_error = crd_error answer\<rparr>)) \<and>
    check_init_result ext (caller_data c2) 0 =
      (case borsh_init_de ext (borsh_frame b) of
         Inl err \<Rightarrow> Err (SerializationError ''init check result'' err)
       | Inr check \<Rightarrow> if cid_success check then Ok () else Err (ContractExecutionFailed (cid_error check)))"
proof -
  from assms(1,2) obtain ib eb where
    st: "staged m (1024 * 1024 * ram_steps ram) sp sb ip ib ep eb" by (auto elim!: staging_facts)
  have sp: "unat sp = 0" and inv: "mm_inv m" using st by (simp_all add: staged_def mm_abi_def)
  have v: "mm_view m 0 = Some (borsh_frame sb)" using staged_view(1) [OF st] sp by simp
  obtain b' where c: "json_to_vec js v = Inr b'" "p = 0" "mm_abi m2" "mm_view m2 = [0 \<mapsto> borsh_frame b']"
    using assms(5) by (rule generate_context_facts)
  then have init: "p = 0" "mm_inv m2" "mm_view m2 0 = Some (borsh_frame b)"
    using assms(6) by (simp_all add: mm_abi_def)
  from sp have "sp = 0" by (simp add: unat_eq_zero)
  with init(1) unwritten_null [OF assms(3) inv v assms(4)] unwritten_null [OF assms(7) init(2,3) assms(8)]
  show ?thesis by (simp add: get_execution_result_def check_init_result_def)
qed

lemma ref_refuses_frame:
  "ref_result_de (borsh_frame [1, 2]) = Inl ''Invalid bool representation''"
  "ref_init_de (borsh_frame [1, 2]) = Inl ''Invalid bool representation''"
  using dec_bytes_frame [of "[1, 2]" "[]"]
  by (simp_all add: ref_result_de_def ref_init_de_def borsh_frame_def u32_to_le_bytes_def usize_as_u32_def)

theorem null_answer_reads_state_witness:
  "\<exists>m sp ip ep m2.
     generate_execution_context raw_json [1, 2] [3] [4] (build 512 2) = Ok (m, sp, ip, ep) \<and>
     generate_context raw_json [1, 2] (build 512 2) = Ok (m2, 0) \<and>
     get_execution_result ref_ext raw_json m 0 =
       Err (SerializationError ''execution result'' ''Invalid bool representation'') \<and>
     check_init_result ref_ext m2 0 = Err (SerializationError ''init check result'' ''Invalid bool representation'')"
proof -
  let ?wo = "\<lparr>wm_read = (\<lambda>(w::unit) a n. None), wm_write = (\<lambda>w a bs. None)\<rparr>"
  obtain m sp ip ep where g: "generate_execution_context raw_json [1, 2] [3] [4] (build 512 2) = Ok (m, sp, ip, ep)"
    using raw_staging [of "[1, 2]" "[3]" "[4]"] by auto
  have j: "json_to_vec raw_json [1, 2] = Inr [1, 2]" by (simp add: raw_json_def)
  have "4 + length [1, 2 :: byte] \<le> 1024 * 1024 * ram_steps 512" using ram_steps_bounds [of 512] by simp
  with j obtain m2 where g2: "generate_context raw_json [1, 2] (build 512 2) = Ok (m2, 0)"
    using generate_context_staged by metis
  have de: "borsh_result_de ref_ext (borsh_frame [1, 2]) = Inl ''Invalid bool representation''"
    "borsh_init_de ref_ext (borsh_frame [1, 2]) = Inl ''Invalid bool representation''"
    using ref_refuses_frame by (simp_all add: ref_ext_def)
  from null_answer_reads_state [OF g j run_nil [of ?wo "\<lparr>caller_data = m, caller_memory = None\<rparr>"] _ g2 j
      run_nil [of ?wo "\<lparr>caller_data = m2, caller_memory = None\<rparr>"], of ref_ext]
  show ?thesis using g g2 by (simp add: de)
qed

end
