(* ===== verification/Ave_Validation.thy ===== *)
theory Ave_Validation
  imports Ave_Errors "HOL-Library.Multiset"
begin

text \<open>
  The static part of \<open>ContractRuntime::validate\<close> in \<open>src/runtime/contract_runtime.rs\<close>: the
  expected signatures of the SDK functions, the comparison of signatures, and the loop over a
  module's imports. What wasmtime reports of an import (module, name, type) is data; reference
  types carry an opaque description. The set of names still missing is a \<open>HashSet\<close>, whose
  iteration order is a parameter.
\<close>

section \<open>Types of imports\<close>

datatype val_type = I32 | I64 | F32 | F64 | V128 | Ref string

datatype extern_type =
    Func "val_type list" "val_type list"   \<comment> \<open>params, results\<close>
  | NonFunc string                          \<comment> \<open>the \<open>Debug\<close> text of the type\<close>

record import_type =
  im_module :: string
  im_name :: string
  im_ty :: extern_type

definition SDK_FUNCTIONS :: "string list" where
  "SDK_FUNCTIONS = [''pointer_len'', ''alloc'', ''read_bytes'', ''write_bytes'']"

section \<open>Signatures\<close>

definition expected_sdk_signature :: "string \<Rightarrow> (val_type list \<times> val_type list \<times> string) option" where
  "expected_sdk_signature name =
     (if name = ''pointer_len'' \<or> name = ''alloc''
      then Some ([I32], [I32], ''(param i32) (result i32)'')
      else if name = ''read_bytes'' \<or> name = ''write_bytes''
      then Some ([I32, I32, I32], [], ''(param i32 i32 i32)'')
      else None)"

fun valtype_eq :: "val_type \<Rightarrow> val_type \<Rightarrow> bool" where
  "valtype_eq I32 I32 = True"
| "valtype_eq I64 I64 = True"
| "valtype_eq F32 F32 = True"
| "valtype_eq F64 F64 = True"
| "valtype_eq V128 V128 = True"
| "valtype_eq (Ref _) (Ref _) = True"
| "valtype_eq _ _ = False"

definition valtypes_eq :: "val_type list \<Rightarrow> val_type list \<Rightarrow> bool" where
  "valtypes_eq a b \<longleftrightarrow> length a = length b \<and> list_all (\<lambda>(x, y). valtype_eq x y) (zip a b)"

definition signature_matches ::
    "val_type list \<Rightarrow> val_type list \<Rightarrow> val_type list \<times> val_type list \<times> string \<Rightarrow> bool" where
  "signature_matches params results expected \<longleftrightarrow>
     valtypes_eq params (fst expected) \<and> valtypes_eq results (fst (snd expected))"

section \<open>The import loop\<close>

definition check_import :: "import_type \<Rightarrow> string set \<Rightarrow> (string set, runtime_error) outcome" where
  "check_import im pending =
     (if im_module im \<noteq> ''env''
      then Err (InvalidModule (UnexpectedImportModule (im_module im) (im_name im)))
      else
        (case im_ty im of
           Func params results \<Rightarrow>
             (case expected_sdk_signature (im_name im) of
                Some expected \<Rightarrow>
                  if \<not> signature_matches params results expected
                  then Err (InvalidModule (InvalidImportSignature (im_name im) (snd (snd expected))))
                  else if im_name im \<in> pending then Ok (pending - {im_name im})
                  else Err (InvalidModule (UnknownImportFunction (im_name im)))
              | None \<Rightarrow>
                  if im_name im \<in> pending then Ok (pending - {im_name im})
                  else Err (InvalidModule (UnknownImportFunction (im_name im))))
         | NonFunc descr \<Rightarrow> Err (InvalidModule (NonFunctionImport descr))))"

fun check_imports_loop :: "import_type list \<Rightarrow> string set \<Rightarrow> (string set, runtime_error) outcome" where
  "check_imports_loop [] pending = Ok pending"
| "check_imports_loop (im # ims) pending =
     obind (check_import im pending) (\<lambda>pending'. check_imports_loop ims pending')"

definition check_imports ::
    "(string set \<Rightarrow> string list) \<Rightarrow> import_type list \<Rightarrow> (unit, runtime_error) outcome" where
  "check_imports iter imports =
     obind (check_imports_loop imports (set SDK_FUNCTIONS)) (\<lambda>pending_sdk.
       if pending_sdk \<noteq> {} then Err (InvalidModule (MissingImports (iter pending_sdk))) else Ok ())"

section \<open>Lemmas\<close>

lemma valtype_eq_iff: "valtype_eq x y \<longleftrightarrow> x = y \<or> (\<exists>r s. x = Ref r \<and> y = Ref s)"
  by (cases x; cases y) auto

lemma valtypes_eq_I32: "set b \<subseteq> {I32} \<Longrightarrow> valtypes_eq a b \<longleftrightarrow> a = b"
proof (induction a arbitrary: b)
  case Nil
  then show ?case by (cases b) (simp_all add: valtypes_eq_def)
next
  case (Cons x a)
  then show ?case
    by (cases b) (auto simp: valtypes_eq_def valtype_eq_iff)
qed

text \<open>An import the loop accepts: an SDK function from \<open>env\<close> at its exact type.\<close>

definition sdk_import :: "import_type \<Rightarrow> bool" where
  "sdk_import im \<longleftrightarrow>
     im_module im = ''env'' \<and>
     (im_name im \<in> {''pointer_len'', ''alloc''} \<and> im_ty im = Func [I32] [I32] \<or>
      im_name im \<in> {''read_bytes'', ''write_bytes''} \<and> im_ty im = Func [I32, I32, I32] [])"

lemma expected_sdk_signature_dom: "expected_sdk_signature n \<noteq> None \<longleftrightarrow> n \<in> set SDK_FUNCTIONS"
  by (simp add: expected_sdk_signature_def SDK_FUNCTIONS_def)

lemma expected_sdk_signature_I32:
  "expected_sdk_signature n = Some ex \<Longrightarrow> set (fst ex) \<subseteq> {I32} \<and> set (fst (snd ex)) \<subseteq> {I32}"
proof -
  assume e: "expected_sdk_signature n = Some ex"
  have "expected_sdk_signature n \<in>
      {Some ([I32], [I32], ''(param i32) (result i32)''), Some ([I32, I32, I32], [], ''(param i32 i32 i32)''), None}"
    unfolding expected_sdk_signature_def by (simp only: insert_iff split: if_split) blast
  then consider "ex = ([I32], [I32], ''(param i32) (result i32)'')"
    | "ex = ([I32, I32, I32], [], ''(param i32 i32 i32)'')"
    unfolding e by blast
  then show ?thesis by cases simp_all
qed

lemma signature_matches_expected:
  "expected_sdk_signature n = Some ex \<Longrightarrow>
     signature_matches ps rs ex \<longleftrightarrow> ps = fst ex \<and> rs = fst (snd ex)"
  using expected_sdk_signature_I32 [of n ex] by (simp add: signature_matches_def valtypes_eq_I32)

lemma sdk_import_iff:
  "sdk_import im \<longleftrightarrow> im_module im = ''env'' \<and>
     (\<exists>ex. expected_sdk_signature (im_name im) = Some ex \<and> im_ty im = Func (fst ex) (fst (snd ex)))"
proof -
  let ?n = "im_name im" and ?one = "{''pointer_len'', ''alloc''}" and ?three = "{''read_bytes'', ''write_bytes''}"
  have sig: "expected_sdk_signature ?n =
      (if ?n \<in> ?one then Some ([I32], [I32], ''(param i32) (result i32)'')
       else if ?n \<in> ?three then Some ([I32, I32, I32], [], ''(param i32 i32 i32)'') else None)"
    by (simp only: expected_sdk_signature_def insert_iff empty_iff simp_thms)
  have disj: "?n \<notin> ?three" if "?n \<in> ?one" using that by auto
  consider "?n \<in> ?one" | "?n \<notin> ?one" "?n \<in> ?three" | "?n \<notin> ?one" "?n \<notin> ?three" by blast
  then show ?thesis
    by cases (simp_all only: sdk_import_def sig disj if_True if_False simp_thms option.inject
        option.distinct fst_conv snd_conv)
qed

lemma check_import_eq_Ok:
  assumes "pending \<subseteq> set SDK_FUNCTIONS"
  shows "check_import im pending = Ok pending' \<longleftrightarrow>
    sdk_import im \<and> im_name im \<in> pending \<and> pending' = pending - {im_name im}"
proof (cases "im_name im \<in> pending")
  case True
  then obtain ex where ex: "expected_sdk_signature (im_name im) = Some ex"
    using assms expected_sdk_signature_dom by blast
  then show ?thesis
    using True by (cases "im_ty im")
      (auto simp: check_import_def sdk_import_iff signature_matches_expected [OF ex])
next
  case False
  then show ?thesis
    by (auto simp: check_import_def split: extern_type.splits option.splits if_splits)
qed

lemma check_imports_loop_eq_Ok:
  assumes "pending \<subseteq> set SDK_FUNCTIONS"
  shows "check_imports_loop ims pending = Ok pending' \<longleftrightarrow>
    (\<forall>im \<in> set ims. sdk_import im) \<and> distinct (map im_name ims) \<and> im_name ` set ims \<subseteq> pending \<and>
    pending' = pending - im_name ` set ims"
  using assms
proof (induction ims arbitrary: pending)
  case (Cons im ims)
  have sub: "pending - {im_name im} \<subseteq> set SDK_FUNCTIONS" using Cons.prems by auto
  have "check_imports_loop (im # ims) pending = Ok pending' \<longleftrightarrow>
      sdk_import im \<and> im_name im \<in> pending \<and>
      check_imports_loop ims (pending - {im_name im}) = Ok pending'"
    by (auto simp: obind_eq_Ok check_import_eq_Ok [OF Cons.prems])
  also have "\<dots> \<longleftrightarrow> sdk_import im \<and> im_name im \<in> pending \<and> (\<forall>im \<in> set ims. sdk_import im) \<and>
      distinct (map im_name ims) \<and> im_name ` set ims \<subseteq> pending - {im_name im} \<and>
      pending' = pending - {im_name im} - im_name ` set ims"
    by (simp add: Cons.IH [OF sub])
  also have "im_name ` set ims \<subseteq> pending - {im_name im} \<longleftrightarrow>
      im_name ` set ims \<subseteq> pending \<and> im_name im \<notin> im_name ` set ims" by blast
  also have "pending - {im_name im} - im_name ` set ims = pending - im_name ` set (im # ims)" by auto
  finally show ?case by (simp only: list.set list.map distinct.simps ball_simps image_insert insert_subset
        set_map) blast
qed auto

lemma check_import_no_panic: "check_import im pending \<noteq> Panic"
  by (auto simp: check_import_def split: extern_type.splits option.splits)

lemma check_imports_loop_no_panic: "check_imports_loop ims pending \<noteq> Panic"
  by (induction ims arbitrary: pending) (auto simp: obind_eq_Panic check_import_no_panic)

lemma distinct_SDK_FUNCTIONS: "distinct SDK_FUNCTIONS"
  by (simp add: SDK_FUNCTIONS_def)

lemma check_imports_loop_append:
  "check_imports_loop (xs @ ys) pending =
     obind (check_imports_loop xs pending) (check_imports_loop ys)"
proof (induction xs arbitrary: pending)
  case (Cons x xs)
  then show ?case by (cases "check_import x pending") simp_all
qed simp

text \<open>The texts of the expected signatures, by name.\<close>

definition signature_text :: "string \<Rightarrow> string" where
  "signature_text name =
     (if name \<in> {''pointer_len'', ''alloc''} then ''(param i32) (result i32)'' else ''(param i32 i32 i32)'')"

lemma signature_text_expected:
  assumes "name \<in> set SDK_FUNCTIONS"
  shows "\<exists>ex. expected_sdk_signature name = Some ex \<and> snd (snd ex) = signature_text name"
  using assms by (auto simp: SDK_FUNCTIONS_def expected_sdk_signature_def signature_text_def)

lemma check_import_unknown:
  assumes "im_module im = ''env''" and "im_ty im = Func ps rs" and "im_name im \<notin> set SDK_FUNCTIONS"
    and "pending \<subseteq> set SDK_FUNCTIONS"
  shows "check_import im pending = Err (InvalidModule (UnknownImportFunction (im_name im)))"
proof -
  have "expected_sdk_signature (im_name im) = None" using assms(3) expected_sdk_signature_dom by blast
  with assms show ?thesis by (auto simp: check_import_def)
qed

lemma check_import_wrong_type:
  assumes "im_module im = ''env''" and "im_ty im = Func ps rs" and "im_name im \<in> set SDK_FUNCTIONS"
    and "\<not> sdk_import im"
  shows "check_import im pending = Err (InvalidModule (InvalidImportSignature (im_name im) (signature_text (im_name im))))"
proof -
  obtain ex where ex: "expected_sdk_signature (im_name im) = Some ex" "snd (snd ex) = signature_text (im_name im)"
    using signature_text_expected [OF assms(3)] by blast
  then have "\<not> signature_matches ps rs ex"
    using assms(1,2,4) by (simp add: signature_matches_expected [OF ex(1)] sdk_import_iff)
  with assms ex show ?thesis by (simp add: check_import_def)
qed

lemma check_import_again:
  assumes "sdk_import im" and "im_name im \<notin> pending"
  shows "check_import im pending = Err (InvalidModule (UnknownImportFunction (im_name im)))"
  using assms by (auto simp: check_import_def sdk_import_iff signature_matches_expected)

lemma check_imports_exact:
  "check_imports iter ims = Ok () \<longleftrightarrow>
     mset (map im_name ims) = mset SDK_FUNCTIONS \<and> (\<forall>im \<in> set ims. sdk_import im)"
proof -
  have "check_imports iter ims = Ok () \<longleftrightarrow>
      check_imports_loop ims (set SDK_FUNCTIONS) = Ok {}"
    by (auto simp: check_imports_def obind_eq_Ok)
  also have "\<dots> \<longleftrightarrow> (\<forall>im \<in> set ims. sdk_import im) \<and> distinct (map im_name ims) \<and>
      set (map im_name ims) = set SDK_FUNCTIONS"
    by (auto simp: check_imports_loop_eq_Ok)
  also have "\<dots> \<longleftrightarrow> mset (map im_name ims) = mset SDK_FUNCTIONS \<and> (\<forall>im \<in> set ims. sdk_import im)"
    using distinct_SDK_FUNCTIONS
    by (metis mset_eq_imp_distinct_iff mset_eq_setD set_eq_iff_mset_eq_distinct)
  finally show ?thesis .
qed

section \<open>Properties\<close>

text \<open>
  (C8) The import gate is exact: a module passes if and only if its imports are the four SDK
  functions, each exactly once and in any order, all from module \<open>env\<close> and at their exact
  types. In particular no module with an additional import of any kind passes, so the four host
  functions are all a validated contract can call.
\<close>

theorem check_imports_iff:
  "check_imports iter ims = Ok () \<longleftrightarrow>
     mset (map im_name ims) = mset SDK_FUNCTIONS \<and> (\<forall>im \<in> set ims. sdk_import im)"
  by (rule check_imports_exact)

theorem check_imports_iff_witness:
  "check_imports (\<lambda>s. filter (\<lambda>f. f \<in> s) SDK_FUNCTIONS)
     [\<lparr>im_module = ''env'', im_name = ''alloc'', im_ty = Func [I32] [I32]\<rparr>,
      \<lparr>im_module = ''env'', im_name = ''write_bytes'', im_ty = Func [I32, I32, I32] []\<rparr>,
      \<lparr>im_module = ''env'', im_name = ''pointer_len'', im_ty = Func [I32] [I32]\<rparr>,
      \<lparr>im_module = ''env'', im_name = ''read_bytes'', im_ty = Func [I32, I32, I32] []\<rparr>] = Ok ()"
  by (subst check_imports_iff) (simp add: SDK_FUNCTIONS_def sdk_import_def)

text \<open>
  (C37) Which error a rejected module gets: the first offending import decides. After any prefix of
  acceptable imports, an import from another module is reported as such whatever its type, an SDK
  function at a wrong type by its name and the text of the type it should have, a function that the
  SDK does not have and an SDK function that was already imported both as an unknown function; and
  a module whose imports are all acceptable but not complete is reported with exactly the missing
  names.
\<close>

theorem check_imports_errors:
  assumes "\<forall>im \<in> set good. sdk_import im" and "distinct (map im_name good)"
    and "\<And>s. s \<subseteq> set SDK_FUNCTIONS \<Longrightarrow> set (iter s) = s"
  shows "(im_module im \<noteq> ''env'' \<longrightarrow>
      check_imports iter (good @ im # rest) =
        Err (InvalidModule (UnexpectedImportModule (im_module im) (im_name im)))) \<and>
    (\<forall>descr. im_module im = ''env'' \<longrightarrow> im_ty im = NonFunc descr \<longrightarrow>
      check_imports iter (good @ im # rest) = Err (InvalidModule (NonFunctionImport descr))) \<and>
    (\<forall>ps rs. im_module im = ''env'' \<longrightarrow> im_ty im = Func ps rs \<longrightarrow> im_name im \<in> set SDK_FUNCTIONS \<longrightarrow>
      \<not> sdk_import im \<longrightarrow>
      check_imports iter (good @ im # rest) =
        Err (InvalidModule (InvalidImportSignature (im_name im)
          (if im_name im \<in> {''pointer_len'', ''alloc''} then ''(param i32) (result i32)'' else ''(param i32 i32 i32)'')))) \<and>
    (\<forall>ps rs. im_module im = ''env'' \<longrightarrow> im_ty im = Func ps rs \<longrightarrow> im_name im \<notin> set SDK_FUNCTIONS \<longrightarrow>
      check_imports iter (good @ im # rest) = Err (InvalidModule (UnknownImportFunction (im_name im)))) \<and>
    (sdk_import im \<longrightarrow> im_name im \<in> im_name ` set good \<longrightarrow>
      check_imports iter (good @ im # rest) = Err (InvalidModule (UnknownImportFunction (im_name im)))) \<and>
    (im_name ` set good \<noteq> set SDK_FUNCTIONS \<longrightarrow>
      (\<exists>missing. check_imports iter good = Err (InvalidModule (MissingImports missing)) \<and>
         set missing = set SDK_FUNCTIONS - im_name ` set good))"
proof -
  let ?P = "set SDK_FUNCTIONS - im_name ` set good"
  have sub: "im_name ` set good \<subseteq> set SDK_FUNCTIONS"
    using assms(1) expected_sdk_signature_dom unfolding sdk_import_iff by blast
  then have loop: "check_imports_loop good (set SDK_FUNCTIONS) = Ok ?P"
    using assms(1,2) by (simp add: check_imports_loop_eq_Ok)
  have first: "check_imports iter (good @ im # rest) = Err e" if "check_import im ?P = Err e" for e
    using that by (simp add: check_imports_def check_imports_loop_append loop)
  show ?thesis
  proof (intro conjI allI impI)
    fix ps rs
    assume "im_module im = ''env''" "im_ty im = Func ps rs" "im_name im \<in> set SDK_FUNCTIONS" "\<not> sdk_import im"
    from first [OF check_import_wrong_type [OF this]]
    show "check_imports iter (good @ im # rest) = Err (InvalidModule (InvalidImportSignature (im_name im)
          (if im_name im \<in> {''pointer_len'', ''alloc''} then ''(param i32) (result i32)'' else ''(param i32 i32 i32)'')))"
      by (simp only: signature_text_def)
  next
    fix ps rs
    assume "im_module im = ''env''" "im_ty im = Func ps rs" "im_name im \<notin> set SDK_FUNCTIONS"
    then show "check_imports iter (good @ im # rest) = Err (InvalidModule (UnknownImportFunction (im_name im)))"
      by (intro first check_import_unknown) auto
  next
    assume "im_name ` set good \<noteq> set SDK_FUNCTIONS"
    with sub have "?P \<noteq> {}" by blast
    with loop assms(3) [OF Diff_subset] show "\<exists>missing. check_imports iter good = Err (InvalidModule (MissingImports missing)) \<and>
         set missing = set SDK_FUNCTIONS - im_name ` set good"
      by (simp add: check_imports_def)
  next
    assume "sdk_import im" "im_name im \<in> im_name ` set good"
    then show "check_imports iter (good @ im # rest) = Err (InvalidModule (UnknownImportFunction (im_name im)))"
      by (intro first check_import_again) auto
  qed (auto intro!: first simp: check_import_def)
qed

theorem check_imports_errors_witness:
  "\<exists>missing. check_imports (\<lambda>s. filter (\<lambda>f. f \<in> s) SDK_FUNCTIONS)
     [\<lparr>im_module = ''env'', im_name = ''alloc'', im_ty = Func [I32] [I32]\<rparr>] =
       Err (InvalidModule (MissingImports missing)) \<and> ''read_bytes'' \<in> set missing"
proof -
  let ?iter = "\<lambda>s. filter (\<lambda>f. f \<in> s) SDK_FUNCTIONS"
  let ?im = "\<lparr>im_module = ''env'', im_name = ''alloc'', im_ty = Func [I32] [I32]\<rparr>"
  have iter: "set (?iter s) = s" if "s \<subseteq> set SDK_FUNCTIONS" for s
    using that by auto
  have "im_name ` set [?im] \<noteq> set SDK_FUNCTIONS" by (simp add: SDK_FUNCTIONS_def)
  with check_imports_errors [of "[?im]" ?iter ?im "[]", OF _ _ iter]
  show ?thesis by (auto simp: sdk_import_def SDK_FUNCTIONS_def)
qed

end
