(* ===== verification/Ave_Metrics.thy ===== *)
theory Ave_Metrics
  imports Complex_Main "HOL-Library.Log_Nat" Ave_Prelude
begin

text \<open>
  \<open>src/runtime/metrics.rs\<close>: the Prometheus metrics of the runtime. The metric families and
  the registry of \<open>prometheus_client\<close> are parameters: \<open>prom_ops\<close> holds the constructors of
  a counter family and a histogram family and the two updates the source makes,
  \<open>get_or_create(&labels).inc()\<close> and \<open>get_or_create(&labels).observe(x)\<close>. What is relied
  on is the predicate \<open>prom_laws\<close>: an update changes the counts of its label set by one
  increment or observation and those of no other label set. The metrics object is shared and
  mutated in place; here an operation returns it updated.
\<close>

section \<open>Floating-point conversion\<close>

text \<open>
  \<open>n as f64\<close> for a \<open>u64\<close>: exact below \<open>2 ^ 53\<close>, otherwise rounded to 53 significant
  bits, ties to even.
\<close>

definition u64_as_f64 :: "nat \<Rightarrow> real" where
  "u64_as_f64 n =
     (if n < 2 ^ 53 then real n
      else
        (let e = floorlog 2 n - 53; q = n div 2 ^ e; r = n mod 2 ^ e; half = 2 ^ (e - 1);
             q' = (if r > half \<or> (r = half \<and> odd q) then q + 1 else q)
         in real (q' * 2 ^ e)))"

section \<open>State\<close>

text \<open>The only label is \<open>result\<close>.\<close>

record contract_execution_labels =
  cel_result :: string

record ('c, 'h) prom_ops =
  counters_default :: 'c
  counters_inc :: "'c \<Rightarrow> contract_execution_labels \<Rightarrow> 'c"
  histograms_new :: "real list \<Rightarrow> 'h"
  histograms_observe :: "'h \<Rightarrow> contract_execution_labels \<Rightarrow> real \<Rightarrow> 'h"

record ('c, 'h) contract_metrics =
  contract_executions :: 'c
  contract_execution_seconds :: 'h
  contract_fuel_consumed :: 'h
  contract_fuel_exhausted_total :: 'c
  contract_memory_peak_bytes :: 'h

section \<open>Operations\<close>

definition seconds_buckets :: "real list" where
  "seconds_buckets = [0.0005, 0.001, 0.0025, 0.005, 0.01, 0.025, 0.05, 0.1, 0.25, 0.5, 1, 2, 5]"

definition fuel_buckets :: "real list" where
  "fuel_buckets = [1000, 10000, 100000, 500000, 1000000, 2500000, 5000000, 7500000, 10000000]"

definition memory_buckets :: "real list" where
  "memory_buckets = [4096, 16384, 65536, 262144, 1048576, 4194304, 16777216]"

definition metrics_new :: "('c, 'h) prom_ops \<Rightarrow> ('c, 'h) contract_metrics" where
  "metrics_new po =
     \<lparr>contract_executions = counters_default po,
      contract_execution_seconds = histograms_new po seconds_buckets,
      contract_fuel_consumed = histograms_new po fuel_buckets,
      contract_fuel_exhausted_total = counters_default po,
      contract_memory_peak_bytes = histograms_new po memory_buckets\<rparr>"

definition default_metrics :: "('c, 'h) prom_ops \<Rightarrow> ('c, 'h) contract_metrics" where
  "default_metrics po = metrics_new po"

text \<open>\<open>registry.register(name, help, family)\<close> is a parameter.\<close>

datatype ('c, 'h) metric = Counter_Family 'c | Histogram_Family 'h

definition register_into ::
    "('r \<Rightarrow> string \<Rightarrow> string \<Rightarrow> ('c, 'h) metric \<Rightarrow> 'r) \<Rightarrow> ('c, 'h) contract_metrics \<Rightarrow> 'r \<Rightarrow> 'r" where
  "register_into reg m registry =
     (let r1 = reg registry ''ave_contract_sdk_contract_executions''
            ''Contract execution attempts labeled by result.''
            (Counter_Family (contract_executions m));
          r2 = reg r1 ''ave_contract_sdk_contract_execution_seconds''
            ''Contract execution duration labeled by result.''
            (Histogram_Family (contract_execution_seconds m));
          r3 = reg r2 ''ave_contract_sdk_contract_fuel_consumed''
            ''Contract fuel consumed per execution labeled by result.''
            (Histogram_Family (contract_fuel_consumed m));
          r4 = reg r3 ''ave_contract_sdk_contract_fuel_exhausted''
            ''Total number of contract executions that ran out of fuel.''
            (Counter_Family (contract_fuel_exhausted_total m))
      in reg r4 ''ave_contract_sdk_contract_memory_peak_bytes''
           ''Peak WASM linear memory used per contract execution labeled by result.''
           (Histogram_Family (contract_memory_peak_bytes m)))"

text \<open>The duration is given in seconds, the value of \<open>duration.as_secs_f64()\<close>.\<close>

definition observe_contract_execution ::
    "('c, 'h) prom_ops \<Rightarrow> string \<Rightarrow> real \<Rightarrow> ('c, 'h) contract_metrics \<Rightarrow> ('c, 'h) contract_metrics" where
  "observe_contract_execution po result duration m =
     (let labels = \<lparr>cel_result = result\<rparr>;
          m1 = m\<lparr>contract_executions := counters_inc po (contract_executions m) labels\<rparr>
      in m1\<lparr>contract_execution_seconds :=
              histograms_observe po (contract_execution_seconds m1) labels duration\<rparr>)"

definition observe_contract_fuel_consumed ::
    "('c, 'h) prom_ops \<Rightarrow> string \<Rightarrow> nat \<Rightarrow> ('c, 'h) contract_metrics \<Rightarrow> ('c, 'h) contract_metrics" where
  "observe_contract_fuel_consumed po result fuel m =
     m\<lparr>contract_fuel_consumed :=
         histograms_observe po (contract_fuel_consumed m) \<lparr>cel_result = result\<rparr> (u64_as_f64 fuel)\<rparr>"

definition observe_contract_fuel_exhausted ::
    "('c, 'h) prom_ops \<Rightarrow> ('c, 'h) contract_metrics \<Rightarrow> ('c, 'h) contract_metrics" where
  "observe_contract_fuel_exhausted po m =
     m\<lparr>contract_fuel_exhausted_total :=
         counters_inc po (contract_fuel_exhausted_total m) \<lparr>cel_result = ''error''\<rparr>\<rparr>"

definition observe_contract_memory_peak ::
    "('c, 'h) prom_ops \<Rightarrow> string \<Rightarrow> nat \<Rightarrow> ('c, 'h) contract_metrics \<Rightarrow> ('c, 'h) contract_metrics" where
  "observe_contract_memory_peak po result bytes m =
     m\<lparr>contract_memory_peak_bytes :=
         histograms_observe po (contract_memory_peak_bytes m) \<lparr>cel_result = result\<rparr> (u64_as_f64 bytes)\<rparr>"

section \<open>What is relied on of the families\<close>

text \<open>
  A counter is a 64-bit number per label set (\<open>cnt\<close>). A histogram keeps, per label set, how many
  values were observed (\<open>obs\<close>) and how many of them were at most each of its bucket bounds
  (\<open>le\<close>); neither the values nor their order can be read back, and of its sum, a rounded
  floating-point number, nothing is relied on.
\<close>

definition prom_laws ::
    "('c, 'h) prom_ops \<Rightarrow> ('c \<Rightarrow> contract_execution_labels \<Rightarrow> nat) \<Rightarrow>
     ('h \<Rightarrow> contract_execution_labels \<Rightarrow> nat) \<Rightarrow> ('h \<Rightarrow> contract_execution_labels \<Rightarrow> real \<Rightarrow> nat) \<Rightarrow>
     ('h \<Rightarrow> real set) \<Rightarrow> bool" where
  "prom_laws po cnt obs le bounds \<longleftrightarrow>
     (\<forall>l. cnt (counters_default po) l = 0) \<and>
     (\<forall>c k l. k \<noteq> l \<longrightarrow> cnt (counters_inc po c k) l = cnt c l) \<and>
     (\<forall>c k. cnt c k + 1 < 2 ^ 64 \<longrightarrow> cnt (counters_inc po c k) k = cnt c k + 1) \<and>
     (\<forall>bs. bounds (histograms_new po bs) = set bs) \<and>
     (\<forall>bs l. obs (histograms_new po bs) l = 0) \<and>
     (\<forall>bs l b. b \<in> set bs \<longrightarrow> le (histograms_new po bs) l b = 0) \<and>
     (\<forall>h k x. bounds (histograms_observe po h k x) = bounds h) \<and>
     (\<forall>h k x l. k \<noteq> l \<longrightarrow> obs (histograms_observe po h k x) l = obs h l) \<and>
     (\<forall>h k x. obs h k + 1 < 2 ^ 64 \<longrightarrow> obs (histograms_observe po h k x) k = obs h k + 1) \<and>
     (\<forall>h k x l b. b \<in> bounds h \<longrightarrow> k \<noteq> l \<longrightarrow> le (histograms_observe po h k x) l b = le h l b) \<and>
     (\<forall>h k x b. b \<in> bounds h \<longrightarrow> obs h k + 1 < 2 ^ 64 \<longrightarrow>
        le (histograms_observe po h k x) k b = le h k b + (if x \<le> b then 1 else 0))"

lemma prom_lawsD:
  assumes "prom_laws po cnt obs le bounds"
  shows "cnt (counters_default po) l = 0"
    and "cnt c k + 1 < 2 ^ 64 \<Longrightarrow> cnt (counters_inc po c k) l = cnt c l + (if k = l then 1 else 0)"
    and "bounds (histograms_new po bs) = set bs" and "bounds (histograms_observe po h k x) = bounds h"
    and "obs (histograms_new po bs) l = 0"
    and "b \<in> set bs \<Longrightarrow> le (histograms_new po bs) l b = 0"
    and "obs h k + 1 < 2 ^ 64 \<Longrightarrow> obs (histograms_observe po h k x) l = obs h l + (if k = l then 1 else 0)"
    and "b \<in> bounds h \<Longrightarrow> obs h k + 1 < 2 ^ 64 \<Longrightarrow>
      le (histograms_observe po h k x) l b = le h l b + (if k = l \<and> x \<le> b then 1 else 0)"
  using assms by (cases "k = l"; simp add: prom_laws_def)+

text \<open>Families that keep exactly these numbers.\<close>

record bucket_family =
  bf_bounds :: "real list"
  bf_total :: "contract_execution_labels \<Rightarrow> nat"
  bf_le :: "contract_execution_labels \<Rightarrow> real \<Rightarrow> nat"

type_synonym counter_family = "contract_execution_labels \<Rightarrow> nat"

definition ref_prom :: "(counter_family, bucket_family) prom_ops" where
  "ref_prom =
     \<lparr>counters_default = (\<lambda>_. 0), counters_inc = (\<lambda>c l. c(l := Suc (c l))),
      histograms_new = (\<lambda>bs. \<lparr>bf_bounds = bs, bf_total = (\<lambda>_. 0), bf_le = (\<lambda>_ _. 0)\<rparr>),
      histograms_observe = (\<lambda>h l x. h
        \<lparr>bf_total := (bf_total h)(l := Suc (bf_total h l)),
         bf_le := (bf_le h)(l := (\<lambda>b. bf_le h l b + (if x \<le> b then 1 else 0)))\<rparr>)\<rparr>"

lemma prom_laws_ref: "prom_laws ref_prom (\<lambda>c. c) bf_total bf_le (\<lambda>h. set (bf_bounds h))"
  by (simp add: prom_laws_def ref_prom_def)

section \<open>Lemmas\<close>

lemmas metrics_defs =
  observe_contract_execution_def observe_contract_fuel_consumed_def
  observe_contract_fuel_exhausted_def observe_contract_memory_peak_def Let_def

lemma u64_as_f64_exact: "n < 2 ^ 53 \<Longrightarrow> u64_as_f64 n = real n"
  by (simp add: u64_as_f64_def)

end
