(* ===== verification/Ave_Runtime.thy ===== *)
theory Ave_Runtime
  imports Ave_Staging Ave_Validation Ave_Metrics
begin

text \<open>
  \<open>ContractRuntime\<close> of \<open>src/runtime/contract_runtime.rs\<close>: construction, compilation with
  the memory gate, validation, execution with statistics and metrics, and the engine fingerprint.

  wasmtime is a parameter, the record \<open>wasmtime\<close>: engines, linkers, modules, stores, instances
  and function handles are type variables, and each field is a method the source calls. A store is
  abstract; \<open>wt_data\<close> is \<open>store.data()\<close>. A failing method answers the text of its error.
  A call that fails does so out of fuel or for another reason, which is what
  \<open>downcast_ref::<Trap>()\<close> tells apart. The metrics are mutated through a shared reference; here
  \<open>execute\<close> returns the runtime with the updated metrics. A reference engine that honours the store
  limits and meters fuel stands at the end.
\<close>

section \<open>wasmtime\<close>

datatype call_error = OutOfFuelTrap string | OtherCallError string

fun call_error_display :: "call_error \<Rightarrow> string" where
  "call_error_display (OutOfFuelTrap m) = m"
| "call_error_display (OtherCallError m) = m"

fun is_out_of_fuel :: "call_error \<Rightarrow> bool" where
  "is_out_of_fuel (OutOfFuelTrap _) = True"
| "is_out_of_fuel (OtherCallError _) = False"

record ('e, 'l, 'm, 's, 'i, 'f) wasmtime =
  wt_engine_new :: "engine_config \<Rightarrow> string + 'e"
  wt_linker_new :: "'e \<Rightarrow> 'l"
  wt_func_wrap :: "'l \<Rightarrow> string \<Rightarrow> string \<Rightarrow> host_fn \<Rightarrow> string + 'l"
  wt_precompile_module :: "'e \<Rightarrow> byte list \<Rightarrow> string + byte list"
  wt_deserialize :: "'e \<Rightarrow> byte list \<Rightarrow> string + 'm"
  wt_imports :: "'m \<Rightarrow> import_type list"
  wt_store_new :: "'e \<Rightarrow> memory_manager \<Rightarrow> 's"
  wt_limiter :: "'s \<Rightarrow> 's"
  wt_set_fuel :: "'s \<Rightarrow> nat \<Rightarrow> string + 's"
  wt_get_fuel :: "'s \<Rightarrow> nat option"
  wt_data :: "'s \<Rightarrow> memory_manager"
  wt_instantiate :: "'l \<Rightarrow> 's \<Rightarrow> 'm \<Rightarrow> string + ('i \<times> 's)"
  wt_get_func4 :: "'i \<Rightarrow> 's \<Rightarrow> string \<Rightarrow> 'f option"
  wt_get_func1 :: "'i \<Rightarrow> 's \<Rightarrow> string \<Rightarrow> 'f option"
  wt_call4 :: "'f \<Rightarrow> 's \<Rightarrow> u32 \<Rightarrow> u32 \<Rightarrow> u32 \<Rightarrow> u32 \<Rightarrow> (call_error + u32) \<times> 's"
  wt_call1 :: "'f \<Rightarrow> 's \<Rightarrow> u32 \<Rightarrow> (call_error + u32) \<times> 's"
  wt_memory_pages :: "'i \<Rightarrow> 's \<Rightarrow> nat option"
  wt_compatibility_hash :: "'e \<Rightarrow> nat"

text \<open>
  Fuel, as wasmtime documents it: what is set is what is left, and neither instantiating a module
  nor calling a function, however the call ends, adds to it.
\<close>

definition fuel_metered :: "('e, 'l, 'm, 's, 'i, 'f) wasmtime \<Rightarrow> bool" where
  "fuel_metered wt \<longleftrightarrow>
     (\<forall>s n s'. wt_set_fuel wt s n = Inr s' \<longrightarrow> wt_get_fuel wt s' = Some n) \<and>
     (\<forall>l s m i s' n. wt_instantiate wt l s m = Inr (i, s') \<longrightarrow> wt_get_fuel wt s = Some n \<longrightarrow>
        (\<exists>k \<le> n. wt_get_fuel wt s' = Some k)) \<and>
     (\<forall>f s a b c d x s' n. wt_call4 wt f s a b c d = (x, s') \<longrightarrow> wt_get_fuel wt s = Some n \<longrightarrow>
        (\<exists>k \<le> n. wt_get_fuel wt s' = Some k)) \<and>
     (\<forall>f s a x s' n. wt_call1 wt f s a = (x, s') \<longrightarrow> wt_get_fuel wt s = Some n \<longrightarrow>
        (\<exists>k \<le> n. wt_get_fuel wt s' = Some k))"

text \<open>
  What a compiled module needs: the memory and table it declares, and for a call on a context and
  arguments the fuel it burns and the linear memory it reaches. A store admits a module whose
  declarations fit the limits its limiter returns; each instance has one memory and one table.
\<close>

record demand =
  dm_memory :: nat
  dm_table :: nat
  dm_fuel :: "memory_manager \<Rightarrow> u32 list \<Rightarrow> nat"
  dm_peak :: "memory_manager \<Rightarrow> u32 list \<Rightarrow> nat"

definition admits :: "store_limits \<Rightarrow> demand \<Rightarrow> bool" where
  "admits sl dm \<longleftrightarrow>
     1 \<le> sl_instances sl \<and> 1 \<le> sl_memories sl \<and> 1 \<le> sl_tables sl \<and>
     dm_memory dm \<le> sl_memory_size sl \<and> dm_table dm \<le> sl_table_elements sl"

section \<open>The runtime\<close>

record 'm compiled_module =
  cm_module :: 'm

definition inner :: "'m compiled_module \<Rightarrow> 'm" where
  "inner m = cm_module m"

record ('e, 'l, 'c, 'h) contract_runtime =
  cr_engine :: 'e
  cr_limits :: wasm_limits
  cr_linker :: 'l
  cr_metrics :: "('c, 'h) contract_metrics option"

definition runtime_new ::
    "('e, 'l, 'm, 's, 'i, 'f) wasmtime \<Rightarrow> resolved_machine_spec option \<Rightarrow>
     (('e, 'l, 'c, 'h) contract_runtime, runtime_error) outcome" where
  "runtime_new wt spec =
     (let limits = (case spec of None \<Rightarrow> default_limits | Some s \<Rightarrow> build (ram_mb s) (cpu_cores s)) in
      case wt_engine_new wt (create_secure_wasmtime_config limits) of
        Inl e \<Rightarrow> Err (EngineCreation e)
      | Inr engine \<Rightarrow>
          obind (map_err (\<lambda>e. EngineCreation (''linker setup failed: '' @ contract_error_display e))
                   (generate_linker (wt_func_wrap wt) (wt_linker_new wt engine))) (\<lambda>linker.
            Ok \<lparr>cr_engine = engine, cr_limits = limits, cr_linker = linker, cr_metrics = None\<rparr>))"

definition with_metrics ::
    "('e, 'l, 'm, 's, 'i, 'f) wasmtime \<Rightarrow> resolved_machine_spec option \<Rightarrow>
     ('c, 'h) contract_metrics option \<Rightarrow> (('e, 'l, 'c, 'h) contract_runtime, runtime_error) outcome" where
  "with_metrics wt spec metrics =
     obind (runtime_new wt spec) (\<lambda>runtime. Ok (runtime\<lparr>cr_metrics := metrics\<rparr>))"

definition engine :: "('e, 'l, 'c, 'h) contract_runtime \<Rightarrow> 'e" where
  "engine rt = cr_engine rt"

definition limits :: "('e, 'l, 'c, 'h) contract_runtime \<Rightarrow> wasm_limits" where
  "limits rt = cr_limits rt"

section \<open>Compilation\<close>

definition load_precompiled ::
    "('e, 'l, 'm, 's, 'i, 'f) wasmtime \<Rightarrow> ('e, 'l, 'c, 'h) contract_runtime \<Rightarrow> byte list \<Rightarrow>
     ('m compiled_module, runtime_error) outcome" where
  "load_precompiled wt rt precompiled_bytes =
     (case wt_deserialize wt (cr_engine rt) precompiled_bytes of
        Inl e \<Rightarrow> Err (DeserializationFailed e)
      | Inr m \<Rightarrow> Ok \<lparr>cm_module = m\<rparr>)"

definition compile ::
    "('e, 'l, 'm, 's, 'i, 'f) wasmtime \<Rightarrow> ('e, 'l, 'c, 'h) contract_runtime \<Rightarrow> byte list \<Rightarrow>
     ('m compiled_module \<times> byte list, runtime_error) outcome" where
  "compile wt rt wasm_bytes =
     (let checked =
        (case declared_min_memory_bytes wasm_bytes of
           Some min_bytes \<Rightarrow>
             if min_bytes > MIN_FLEET_MEMORY_BYTES
             then Err (InvalidModule (ExcessiveMemory min_bytes MIN_FLEET_MEMORY_BYTES))
             else Ok ()
         | None \<Rightarrow> Ok ())
      in obind checked (\<lambda>_.
           case wt_precompile_module wt (cr_engine rt) wasm_bytes of
             Inl e \<Rightarrow> Err (PrecompileFailed e)
           | Inr precompiled_bytes \<Rightarrow>
               (case wt_deserialize wt (cr_engine rt) precompiled_bytes of
                  Inl e \<Rightarrow> Err (DeserializationFailed e)
                | Inr m \<Rightarrow> Ok (\<lparr>cm_module = m\<rparr>, precompiled_bytes))))"

section \<open>Validation\<close>

text \<open>A store for a staged context with its limiter and fuel, and the instance in it.\<close>

definition prepare_store ::
    "('e, 'l, 'm, 's, 'i, 'f) wasmtime \<Rightarrow> ('e, 'l, 'c, 'h) contract_runtime \<Rightarrow> memory_manager \<Rightarrow> nat \<Rightarrow>
     ('s, runtime_error) outcome" where
  "prepare_store wt rt context fuel =
     (let store = wt_limiter wt (wt_store_new wt (cr_engine rt) context) in
      case wt_set_fuel wt store fuel of Inl e \<Rightarrow> Err (FuelLimitError e) | Inr store' \<Rightarrow> Ok store')"

definition instantiate ::
    "('e, 'l, 'm, 's, 'i, 'f) wasmtime \<Rightarrow> ('e, 'l, 'c, 'h) contract_runtime \<Rightarrow> 's \<Rightarrow> 'm compiled_module \<Rightarrow>
     ('i \<times> 's, runtime_error) outcome" where
  "instantiate wt rt store0 modl =
     (case wt_instantiate wt (cr_linker rt) store0 (inner modl) of
        Inl e \<Rightarrow> Err (InstantiationFailed e)
      | Inr r \<Rightarrow> Ok r)"

definition validate_inner ::
    "('e, 'l, 'm, 's, 'i, 'f) wasmtime \<Rightarrow> (string set \<Rightarrow> string list) \<Rightarrow> sdk_ext \<Rightarrow> 'v json \<Rightarrow>
     ('e, 'l, 'c, 'h) contract_runtime \<Rightarrow> 'm compiled_module \<Rightarrow> 'v \<Rightarrow> (unit, runtime_error) outcome" where
  "validate_inner wt iter ext js rt modl initial_state =
     obind (check_imports iter (wt_imports wt (inner modl))) (\<lambda>_.
     obind (generate_context js initial_state (cr_limits rt)) (\<lambda>(context, state_ptr).
     obind (prepare_store wt rt context MAX_FUEL_COMPILATION) (\<lambda>store.
     obind (instantiate wt rt store modl) (\<lambda>(inst, store1).
     obind (ok_or (wt_get_func4 wt inst store1 ''main_function'') (EntryPointNotFound ''main_function'')) (\<lambda>_.
     obind (ok_or (wt_get_func1 wt inst store1 ''init_check_function'')
              (EntryPointNotFound ''init_check_function'')) (\<lambda>init_contract_entrypoint.
       case wt_call1 wt init_contract_entrypoint store1 state_ptr of
         (Inl e, store2) \<Rightarrow> Err (ContractExecutionFailed (call_error_display e))
       | (Inr result_ptr, store2) \<Rightarrow> check_init_result ext (wt_data wt store2) result_ptr))))))"

definition validate ::
    "('e, 'l, 'm, 's, 'i, 'f) wasmtime \<Rightarrow> (string set \<Rightarrow> string list) \<Rightarrow> sdk_ext \<Rightarrow> 'v json \<Rightarrow>
     ('e, 'l, 'c, 'h) contract_runtime \<Rightarrow> 'm compiled_module \<Rightarrow> 'v \<Rightarrow> (unit, runtime_error) outcome" where
  "validate wt iter ext js rt modl initial_state = validate_inner wt iter ext js rt modl initial_state"

section \<open>Execution\<close>

definition observe_call ::
    "('c, 'h) prom_ops \<Rightarrow> bool \<Rightarrow> bool \<Rightarrow> nat \<Rightarrow> nat \<Rightarrow> ('c, 'h) contract_metrics \<Rightarrow> ('c, 'h) contract_metrics" where
  "observe_call po call_ok fuel_exhausted fuel_consumed memory_bytes metrics =
     (let result_label = (if call_ok then ''success'' else ''error'');
          m1 = observe_contract_fuel_consumed po result_label fuel_consumed metrics;
          m2 = observe_contract_memory_peak po result_label memory_bytes m1
      in if fuel_exhausted then observe_contract_fuel_exhausted po m2 else m2)"

text \<open>\<open>m.size(&store) * 64 * 1024\<close>, or 0 for an instance without an exported memory.\<close>

definition memory_peak :: "nat option \<Rightarrow> nat" where
  "memory_peak pages = (case pages of None \<Rightarrow> 0 | Some n \<Rightarrow> wrapping_mul (wrapping_mul n 64) 1024)"

text \<open>Everything after the call: statistics, metrics, and the result or the classified error.\<close>

definition finish_call ::
    "('e, 'l, 'm, 's, 'i, 'f) wasmtime \<Rightarrow> ('c, 'h) prom_ops \<Rightarrow> sdk_ext \<Rightarrow> 'v json \<Rightarrow>
     ('c, 'h) contract_metrics option \<Rightarrow> 'i \<Rightarrow> (call_error + u32) \<times> 's \<Rightarrow>
     ('v execution_result \<times> execution_stats, runtime_error) outcome \<times> ('c, 'h) contract_metrics option" where
  "finish_call wt po ext js metrics inst called =
     (let call_result = fst called; store = snd called;
          remaining = unwrap_or (wt_get_fuel wt store) 0;
          fuel_consumed = MAX_FUEL - remaining;
          memory_bytes = memory_peak (wt_memory_pages wt inst store);
          fuel_exhausted = (case call_result of Inl e \<Rightarrow> is_out_of_fuel e | Inr _ \<Rightarrow> False);
          metrics' = map_option (observe_call po (\<not> isl call_result) fuel_exhausted fuel_consumed memory_bytes)
            metrics
      in (case call_result of
            Inr result_ptr \<Rightarrow>
              obind (get_execution_result ext js (wt_data wt store) result_ptr) (\<lambda>result.
                Ok (result,
                    \<lparr>es_fuel_consumed = fuel_consumed,
                     es_memory_bytes = unwrap_or (usize_try_from memory_bytes) usize_max,
                     es_fuel_exhausted = False\<rparr>))
          | Inl e \<Rightarrow>
              if fuel_exhausted then Err (OutOfFuel fuel_consumed)
              else Err (ContractExecutionFailed (call_error_display e)),
          metrics'))"

text \<open>Everything up to and including the call of \<open>main_function\<close>.\<close>

definition prepared_call ::
    "('e, 'l, 'm, 's, 'i, 'f) wasmtime \<Rightarrow> 'v json \<Rightarrow> ('e, 'l, 'c, 'h) contract_runtime \<Rightarrow> 'm compiled_module \<Rightarrow>
     'v \<Rightarrow> 'v \<Rightarrow> 'v \<Rightarrow> bool \<Rightarrow> ('i \<times> (call_error + u32) \<times> 's, runtime_error) outcome" where
  "prepared_call wt js rt modl st init_state ev owner =
     obind (generate_execution_context js st init_state ev (cr_limits rt))
          (\<lambda>(context, state_ptr, init_state_ptr, event_ptr).
        obind (prepare_store wt rt context MAX_FUEL) (\<lambda>store.
        obind (instantiate wt rt store modl) (\<lambda>(inst, store1).
        obind (ok_or (wt_get_func4 wt inst store1 ''main_function'') (EntryPointNotFound ''main_function''))
          (\<lambda>contract_entrypoint.
          Ok (inst, wt_call4 wt contract_entrypoint store1 state_ptr init_state_ptr event_ptr
                (if owner then 1 else 0))))))"

definition execute_inner ::
    "('e, 'l, 'm, 's, 'i, 'f) wasmtime \<Rightarrow> ('c, 'h) prom_ops \<Rightarrow> sdk_ext \<Rightarrow> 'v json \<Rightarrow>
     ('e, 'l, 'c, 'h) contract_runtime \<Rightarrow> 'm compiled_module \<Rightarrow> 'v \<Rightarrow> 'v \<Rightarrow> 'v \<Rightarrow> bool \<Rightarrow>
     ('v execution_result \<times> execution_stats, runtime_error) outcome \<times> ('c, 'h) contract_metrics option" where
  "execute_inner wt po ext js rt modl st init_state ev owner =
     (case prepared_call wt js rt modl st init_state ev owner of
        Ok (inst, called) \<Rightarrow> finish_call wt po ext js (cr_metrics rt) inst called
      | Err e \<Rightarrow> (Err e, cr_metrics rt)
      | Panic \<Rightarrow> (Panic, cr_metrics rt))"

definition execution_label :: "('v execution_result \<times> execution_stats, runtime_error) outcome \<Rightarrow> string" where
  "execution_label result =
     (case result of
        Ok (execution, _) \<Rightarrow> if er_success execution then ''accepted'' else ''rejected''
      | _ \<Rightarrow> ''error'')"

text \<open>\<open>elapsed\<close> is the time the execution took, in seconds. A panic unwinds past the recording.\<close>

definition execute ::
    "('e, 'l, 'm, 's, 'i, 'f) wasmtime \<Rightarrow> ('c, 'h) prom_ops \<Rightarrow> sdk_ext \<Rightarrow> 'v json \<Rightarrow> real \<Rightarrow>
     ('e, 'l, 'c, 'h) contract_runtime \<Rightarrow> 'm compiled_module \<Rightarrow> 'v \<Rightarrow> 'v \<Rightarrow> 'v \<Rightarrow> bool \<Rightarrow>
     ('v execution_result \<times> execution_stats, runtime_error) outcome \<times> ('e, 'l, 'c, 'h) contract_runtime" where
  "execute wt po ext js elapsed rt modl st init_state ev owner =
     (case execute_inner wt po ext js rt modl st init_state ev owner of
        (Panic, metrics) \<Rightarrow> (Panic, rt\<lparr>cr_metrics := metrics\<rparr>)
      | (result, metrics) \<Rightarrow>
          (result,
           rt\<lparr>cr_metrics :=
             map_option (observe_contract_execution po (execution_label result) elapsed) metrics\<rparr>))"

section \<open>Engine fingerprint\<close>

text \<open>\<open>hash_borsh\<close> of \<open>ave_common\<close> with a hash algorithm is a parameter, and so is the 64-bit value
  the standard hasher computes from the engine's compatibility value.\<close>

definition engine_fingerprint ::
    "('e, 'l, 'm, 's, 'i, 'f) wasmtime \<Rightarrow> ('a \<Rightarrow> nat \<Rightarrow> string + 'd) \<Rightarrow> ('e, 'l, 'c, 'h) contract_runtime \<Rightarrow> 'a \<Rightarrow>
     ('d, runtime_error) outcome" where
  "engine_fingerprint wt hash_borsh rt alg =
     (case hash_borsh alg (wt_compatibility_hash wt (cr_engine rt)) of
        Inl e \<Rightarrow> Err (SerializationError ''engine fingerprint'' e)
      | Inr d \<Rightarrow> Ok d)"

section \<open>Lemmas\<close>

lemma write_contract_data_no_panic:
  assumes "mm_inv m"
  shows "write_contract_data m payload \<noteq> Panic"
proof (cases "length payload < 2 ^ 32")
  case True
  then show ?thesis
  proof (cases "alloc m (4 + length payload)")
    case (Ok a)
    then show ?thesis
      using write_contract_data_stages [OF assms True, of "fst a" "snd a"] by auto
  next
    case (Err e)
    with True show ?thesis by (simp add: write_contract_data_refused)
  next
    case Panic
    with mm.alloc_no_panic [OF assms] show ?thesis by simp
  qed
qed (simp add: write_contract_data_def)

lemma value_to_contract_data_no_panic [simp]: "value_to_contract_data js v \<noteq> Panic"
  by (simp add: value_to_contract_data_def split: sum.split)

lemma generate_execution_context_no_panic:
  "generate_execution_context js s i e (build ram cores) \<noteq> Panic"
proof -
  have "write_contract_data c2 eb \<noteq> Panic"
    if "write_contract_data (from_limits (build ram cores)) sb = Ok (sp, c1)"
      "write_contract_data c1 ib = Ok (ip, c2)" for sb sp c1 ib ip c2 eb
    using that write_contract_data_no_panic write_contract_data_view(1) mm_inv_build by blast
  moreover have "write_contract_data c1 ib \<noteq> Panic"
    if "write_contract_data (from_limits (build ram cores)) sb = Ok (sp, c1)" for sb sp c1 ib
    using that write_contract_data_no_panic write_contract_data_view(1) mm_inv_build by blast
  ultimately show ?thesis
    using write_contract_data_no_panic [OF mm_inv_build]
    by (auto simp: generate_execution_context_def Let_def obind_eq_Panic)
qed

lemma prepare_store_no_panic [simp]: "prepare_store wt rt c n \<noteq> Panic"
  by (simp add: prepare_store_def Let_def split: sum.split)

lemma instantiate_no_panic [simp]: "instantiate wt rt s m \<noteq> Panic"
  by (simp add: instantiate_def split: sum.split)

lemma finish_call_Ok:
  assumes "fst (finish_call wt po ext js metrics inst called) = Ok (res, stats)"
  shows "\<exists>p. fst called = Inr p \<and> get_execution_result ext js (wt_data wt (snd called)) p = Ok res \<and>
    es_fuel_consumed stats = MAX_FUEL - unwrap_or (wt_get_fuel wt (snd called)) 0 \<and> \<not> es_fuel_exhausted stats"
  using assms by (auto simp: finish_call_def Let_def outcome_simps split: sum.splits if_splits)

lemma get_execution_result_not_fuel: "get_execution_result ext js m p \<noteq> Err (OutOfFuel n)"
  by (auto simp: get_execution_result_def outcome_simps alloc_err_def split: sum.splits)

lemma finish_call_OutOfFuel:
  "fst (finish_call wt po ext js metrics inst called) = Err (OutOfFuel n) \<longleftrightarrow>
     (\<exists>msg. fst called = Inl (OutOfFuelTrap msg)) \<and> n = MAX_FUEL - unwrap_or (wt_get_fuel wt (snd called)) 0"
  by (cases "fst called")
    (auto simp: finish_call_def Let_def outcome_simps get_execution_result_not_fuel elim: is_out_of_fuel.elims)

lemma write_contract_data_not_fuel: "write_contract_data m d \<noteq> Err (OutOfFuel n)"
  by (auto simp: write_contract_data_def Let_def outcome_simps alloc_err_def)

lemma value_to_contract_data_not_fuel: "value_to_contract_data js v \<noteq> Err (OutOfFuel n)"
  by (simp add: value_to_contract_data_def split: sum.split)

text \<open>Preparing a call never fails for lack of fuel, so \<open>OutOfFuel\<close> is always about the call.\<close>

lemma prepared_call_not_fuel: "prepared_call wt js rt modl s i e own \<noteq> Err (OutOfFuel n)"
  by (auto simp: prepared_call_def generate_execution_context_def prepare_store_def instantiate_def Let_def
      outcome_simps write_contract_data_not_fuel value_to_contract_data_not_fuel split: sum.splits)

lemma prepared_call_no_panic:
  "cr_limits rt = build ram cores \<Longrightarrow> prepared_call wt js rt modl s i e own \<noteq> Panic"
  using generate_execution_context_no_panic [of js s i e ram cores]
  by (auto simp: prepared_call_def outcome_simps)

lemma read_data_no_panic [simp]: "read_data m p \<noteq> Panic"
  by (auto simp: read_data_def outcome_simps checked_add_eq_Some split: if_splits)

lemma get_execution_result_no_panic [simp]: "get_execution_result ext js m p \<noteq> Panic"
  by (auto simp: get_execution_result_def outcome_simps split: sum.splits)

lemma finish_call_no_panic: "fst (finish_call wt po ext js metrics inst called) \<noteq> Panic"
  by (auto simp: finish_call_def Let_def outcome_simps split: sum.splits)

lemma execute_inner_no_panic:
  assumes "cr_limits rt = build ram cores"
  shows "fst (execute_inner wt po ext js rt modl s i e own) \<noteq> Panic"
  using prepared_call_no_panic [OF assms, of wt js modl s i e own]
  by (auto simp: execute_inner_def finish_call_no_panic split: outcome.split)

lemma execute_result:
  assumes "fst (execute_inner wt po ext js rt modl s i e own) \<noteq> Panic"
  shows "execute wt po ext js t rt modl s i e own =
    (fst (execute_inner wt po ext js rt modl s i e own),
     rt\<lparr>cr_metrics := map_option
       (observe_contract_execution po (execution_label (fst (execute_inner wt po ext js rt modl s i e own))) t)
       (snd (execute_inner wt po ext js rt modl s i e own))\<rparr>)"
  using assms by (cases "execute_inner wt po ext js rt modl s i e own")
    (auto simp: execute_def split: outcome.split)

lemma observe_call_families:
  "contract_executions (observe_call po ok ex f b m) = contract_executions m"
  "contract_execution_seconds (observe_call po ok ex f b m) = contract_execution_seconds m"
  "contract_fuel_exhausted_total (observe_call po ok ex f b m) =
     (if ex then counters_inc po (contract_fuel_exhausted_total m) \<lparr>cel_result = ''error''\<rparr>
      else contract_fuel_exhausted_total m)"
  "contract_fuel_consumed (observe_call po ok ex f b m) =
     histograms_observe po (contract_fuel_consumed m) \<lparr>cel_result = if ok then ''success'' else ''error''\<rparr>
       (u64_as_f64 f)"
  "contract_memory_peak_bytes (observe_call po ok ex f b m) =
     histograms_observe po (contract_memory_peak_bytes m) \<lparr>cel_result = if ok then ''success'' else ''error''\<rparr>
       (u64_as_f64 b)"
  by (simp_all add: observe_call_def metrics_defs)

lemma out_of_fuel_iff:
  "(case r of Inl e \<Rightarrow> is_out_of_fuel e | Inr _ \<Rightarrow> False) \<longleftrightarrow> (\<exists>msg. r = Inl (OutOfFuelTrap msg))"
  by (auto split: sum.split elim: is_out_of_fuel.elims)

lemma finish_call_metrics:
  "snd (finish_call wt po ext js (Some m) inst called) =
     Some (observe_call po (\<not> isl (fst called))
       (\<exists>n. fst (finish_call wt po ext js (Some m) inst called) = Err (OutOfFuel n))
       (MAX_FUEL - unwrap_or (wt_get_fuel wt (snd called)) 0)
       (memory_peak (wt_memory_pages wt inst (snd called))) m)"
proof -
  have "snd (finish_call wt po ext js (Some m) inst called) =
      Some (observe_call po (\<not> isl (fst called)) (\<exists>msg. fst called = Inl (OutOfFuelTrap msg))
        (MAX_FUEL - unwrap_or (wt_get_fuel wt (snd called)) 0)
        (memory_peak (wt_memory_pages wt inst (snd called))) m)"
    by (simp add: finish_call_def Let_def out_of_fuel_iff)
  then show ?thesis by (simp add: finish_call_OutOfFuel)
qed

lemma execute_inner_metrics:
  assumes "cr_metrics rt = Some m" and "fst (execute_inner wt po ext js rt modl s i e own) \<noteq> Panic"
  shows "\<exists>m1. snd (execute_inner wt po ext js rt modl s i e own) = Some m1 \<and>
    contract_executions m1 = contract_executions m \<and>
    contract_execution_seconds m1 = contract_execution_seconds m \<and>
    contract_fuel_exhausted_total m1 =
      (if \<exists>n. fst (execute_inner wt po ext js rt modl s i e own) = Err (OutOfFuel n)
       then counters_inc po (contract_fuel_exhausted_total m) \<lparr>cel_result = ''error''\<rparr>
       else contract_fuel_exhausted_total m) \<and>
    contract_fuel_consumed m1 =
      (case prepared_call wt js rt modl s i e own of
         Ok (inst, r, st) \<Rightarrow>
           histograms_observe po (contract_fuel_consumed m)
             \<lparr>cel_result = if isl r then ''error'' else ''success''\<rparr> (real (10000000 - unwrap_or (wt_get_fuel wt st) 0))
       | _ \<Rightarrow> contract_fuel_consumed m) \<and>
    contract_memory_peak_bytes m1 =
      (case prepared_call wt js rt modl s i e own of
         Ok (inst, r, st) \<Rightarrow>
           histograms_observe po (contract_memory_peak_bytes m)
             \<lparr>cel_result = if isl r then ''error'' else ''success''\<rparr> (u64_as_f64 (memory_peak (wt_memory_pages wt inst st)))
       | _ \<Rightarrow> contract_memory_peak_bytes m)"
proof (cases "prepared_call wt js rt modl s i e own")
  case (Ok a)
  obtain inst r st where a: "a = (inst, r, st)" by (cases a)
  have eq: "execute_inner wt po ext js rt modl s i e own = finish_call wt po ext js (Some m) inst (r, st)"
    using Ok assms(1) by (simp add: execute_inner_def a)
  have "u64_as_f64 (MAX_FUEL - k) = real (10000000 - k)" for k
    by (simp add: u64_as_f64_exact MAX_FUEL_def)
  then show ?thesis
    unfolding eq finish_call_metrics
    by (intro exI conjI) (rule refl, simp_all only: observe_call_families Ok a, simp_all)
next
  case (Err x)
  with prepared_call_not_fuel [of wt js rt modl s i e own] assms(1) show ?thesis
    by (auto simp: execute_inner_def)
next
  case Panic
  with assms(2) show ?thesis by (simp add: execute_inner_def)
qed

lemma check_init_result_eq_Ok:
  "check_init_result ext m p = Ok () \<longleftrightarrow>
     (\<exists>bytes check. read_data m (unat p) = Ok bytes \<and> borsh_init_de ext bytes = Inr check \<and> cid_success check)"
  by (cases "read_data m (unat p)") (auto simp: check_init_result_def split: sum.split)

lemma runtime_new_engine:
  assumes "runtime_new wt spec = Ok r"
  shows "wt_engine_new wt (create_secure_wasmtime_config default_limits) = Inr (cr_engine r) \<and>
    generate_linker (wt_func_wrap wt) (wt_linker_new wt (cr_engine r)) = Ok (cr_linker r)"
proof -
  let ?l = "case spec of None \<Rightarrow> default_limits | Some s \<Rightarrow> build (ram_mb s) (cpu_cores s)"
  have "create_secure_wasmtime_config ?l = create_secure_wasmtime_config default_limits"
    by (simp add: config_uniform split: option.split)
  with assms show ?thesis
    by (auto simp: runtime_new_def Let_def outcome_simps split: sum.splits)
qed

section \<open>Properties\<close>

text \<open>
  (C10) The memory gate of \<open>compile\<close>, on every runtime and with every engine: a well-formed
  module is refused as \<open>ExcessiveMemory\<close> exactly when one of its memories declares a minimum of
  more than 64 pages (4 MiB), with the declared size in the error; and a module that passes the
  gate fits the memory limit of every machine of the fleet, so the verdict is the same everywhere.
\<close>

theorem compile_memory_gate:
  assumes "\<forall>s \<in> set ss. wf_section s" and "length (encode_module ss) \<le> usize_max"
  shows "((\<exists>a b. compile wt rt (encode_module ss) = Err (InvalidModule (ExcessiveMemory a b))) \<longleftrightarrow>
      64 < module_pages ss) \<and>
    (64 < module_pages ss \<longrightarrow>
      compile wt rt (encode_module ss) =
        Err (InvalidModule (ExcessiveMemory (65536 * module_pages ss) 4194304))) \<and>
    (module_pages ss \<le> 64 \<longrightarrow> 65536 * module_pages ss \<le> wl_memory_size (build ram cores))"
proof -
  note d = declared_pages [OF assms]
  have gate: "compile wt rt (encode_module ss) =
        Err (InvalidModule (ExcessiveMemory (65536 * module_pages ss) 4194304))" if "64 < module_pages ss"
    using that by (simp add: compile_def d MIN_FLEET_MEMORY_BYTES_def)
  have pass: "compile wt rt (encode_module ss) \<noteq> Err (InvalidModule (ExcessiveMemory a b))"
    if "\<not> 64 < module_pages ss" for a b
    using that by (simp add: compile_def d MIN_FLEET_MEMORY_BYTES_def split: sum.split)
  have "65536 * module_pages ss \<le> wl_memory_size (build ram cores)" if "module_pages ss \<le> 64"
    using that ram_steps_bounds [of ram] by (simp add: build_fields)
  with gate pass show ?thesis by blast
qed

lemma prepared_call_steps:
  assumes "prepared_call wt js rt modl s i e own = Ok (inst, r, st)"
  obtains m sp ip ep st0 st1 f where "generate_execution_context js s i e (cr_limits rt) = Ok (m, sp, ip, ep)"
    and "prepare_store wt rt m MAX_FUEL = Ok st0" and "instantiate wt rt st0 modl = Ok (inst, st1)"
    and "wt_get_func4 wt inst st1 ''main_function'' = Some f"
    and "wt_call4 wt f st1 sp ip ep (if own then 1 else 0) = (r, st)"
  using assms by (auto simp: prepared_call_def obind_eq_Ok ok_or_eq_Ok)

lemma fuel_meteredD:
  assumes "fuel_metered wt"
  shows "wt_set_fuel wt s n = Inr s' \<Longrightarrow> wt_get_fuel wt s' = Some n"
    and "wt_instantiate wt l s m = Inr (inst, s') \<Longrightarrow> wt_get_fuel wt s = Some n \<Longrightarrow>
      \<exists>k \<le> n. wt_get_fuel wt s' = Some k"
    and "wt_call4 wt f s a b c d = (x, s') \<Longrightarrow> wt_get_fuel wt s = Some n \<Longrightarrow> \<exists>k \<le> n. wt_get_fuel wt s' = Some k"
  using assms unfolding fuel_metered_def by simp_all

lemma prepared_call_fuel:
  assumes "fuel_metered wt" and "prepared_call wt js rt modl s i e own = Ok (inst, r, st)"
  obtains left where "wt_get_fuel wt st = Some left" and "left \<le> MAX_FUEL"
proof -
  obtain m sp ip ep st0 st1 f where p: "prepare_store wt rt m MAX_FUEL = Ok st0" "instantiate wt rt st0 modl = Ok (inst, st1)"
    "wt_call4 wt f st1 sp ip ep (if own then 1 else 0) = (r, st)"
    using assms(2) by (rule prepared_call_steps)
  have "wt_get_fuel wt st0 = Some MAX_FUEL"
    using p(1) fuel_meteredD(1) [OF assms(1)] by (auto simp: prepare_store_def Let_def split: sum.splits)
  moreover have "\<exists>l. wt_instantiate wt l st0 (inner modl) = Inr (inst, st1)"
    using p(2) by (auto simp: instantiate_def split: sum.splits)
  ultimately obtain k where "wt_get_fuel wt st1 = Some k" "k \<le> MAX_FUEL"
    using fuel_meteredD(2) [OF assms(1)] by blast
  then show thesis using fuel_meteredD(3) [OF assms(1) p(3)] that by (meson order_trans)
qed

lemma execute_inner_Ok:
  assumes "fst (execute_inner wt po ext js rt modl s i e own) = Ok (res, stats)"
  shows "\<exists>inst p st. prepared_call wt js rt modl s i e own = Ok (inst, Inr p, st) \<and>
    get_execution_result ext js (wt_data wt st) p = Ok res \<and>
    es_fuel_consumed stats = MAX_FUEL - unwrap_or (wt_get_fuel wt st) 0 \<and> \<not> es_fuel_exhausted stats"
proof (cases "prepared_call wt js rt modl s i e own")
  case (Ok a)
  obtain inst called where a: "a = (inst, called)" by (cases a)
  with Ok assms have "fst (finish_call wt po ext js (cr_metrics rt) inst called) = Ok (res, stats)"
    by (simp add: execute_inner_def)
  from finish_call_Ok [OF this] Ok a show ?thesis by (metis prod.collapse)
qed (use assms in \<open>simp_all add: execute_inner_def\<close>)

lemma execute_inner_OutOfFuel:
  assumes "cr_limits rt = build ram cores"
  shows "fst (execute_inner wt po ext js rt modl s i e own) = Err (OutOfFuel n) \<longleftrightarrow>
    (\<exists>inst msg st. prepared_call wt js rt modl s i e own = Ok (inst, Inl (OutOfFuelTrap msg), st) \<and>
      n = MAX_FUEL - unwrap_or (wt_get_fuel wt st) 0)"
  using prepared_call_not_fuel [of wt js rt modl s i e own] prepared_call_no_panic [OF assms, of wt js modl s i e own]
  by (cases "prepared_call wt js rt modl s i e own")
    (auto simp: execute_inner_def finish_call_OutOfFuel split: prod.splits)

text \<open>
  (C18) Outcome of \<open>execute\<close> on every machine and with every engine, module and guest: it never
  panics; a result comes only from a call that returned and never with the exhausted flag;
  \<open>OutOfFuel\<close> is reported exactly when the call of \<open>main_function\<close> trapped for lack of fuel; and the
  engine, limits and linker are unchanged. On an engine that meters fuel the store is given a budget
  of exactly 10,000,000 units, which the call cannot exceed: what is reported as consumed and what is
  left in the store add up to it, without saturation, for results and for \<open>OutOfFuel\<close>.
\<close>

theorem execute_outcome:
  assumes "cr_limits rt = build ram cores"
  shows "case execute wt po ext js t rt modl s i e own of (r, rt') \<Rightarrow>
    r \<noteq> Panic \<and>
    (\<forall>res stats. r = Ok (res, stats) \<longrightarrow> \<not> es_fuel_exhausted stats \<and>
       (\<exists>inst p st. prepared_call wt js rt modl s i e own = Ok (inst, Inr p, st) \<and>
          (fuel_metered wt \<longrightarrow>
             (\<exists>left. wt_get_fuel wt st = Some left \<and> left + es_fuel_consumed stats = 10000000)))) \<and>
    ((\<exists>n. r = Err (OutOfFuel n)) \<longleftrightarrow>
       (\<exists>inst msg st. prepared_call wt js rt modl s i e own = Ok (inst, Inl (OutOfFuelTrap msg), st))) \<and>
    (\<forall>n. r = Err (OutOfFuel n) \<longrightarrow>
       (\<exists>inst msg st. prepared_call wt js rt modl s i e own = Ok (inst, Inl (OutOfFuelTrap msg), st) \<and>
          (fuel_metered wt \<longrightarrow> (\<exists>left. wt_get_fuel wt st = Some left \<and> left + n = 10000000)))) \<and>
    cr_engine rt' = cr_engine rt \<and> cr_limits rt' = cr_limits rt \<and> cr_linker rt' = cr_linker rt"
proof -
  let ?x = "execute_inner wt po ext js rt modl s i e own"
  have np: "fst ?x \<noteq> Panic" using execute_inner_no_panic [OF assms] .
  have spent: "\<exists>left. wt_get_fuel wt st = Some left \<and> left + (MAX_FUEL - unwrap_or (wt_get_fuel wt st) 0) = 10000000"
    if call: "prepared_call wt js rt modl s i e own = Ok (inst, r, st)" and fm: "fuel_metered wt" for inst r st
    by (rule prepared_call_fuel [OF fm call]) (simp add: MAX_FUEL_def unwrap_or_def)
  have ok: "\<not> es_fuel_exhausted stats \<and> (\<exists>inst p st. prepared_call wt js rt modl s i e own = Ok (inst, Inr p, st) \<and>
      (fuel_metered wt \<longrightarrow> (\<exists>left. wt_get_fuel wt st = Some left \<and> left + es_fuel_consumed stats = 10000000)))"
    if r: "fst ?x = Ok (res, stats)" for res stats
    using execute_inner_Ok [OF r] spent by metis
  have oof: "\<exists>inst msg st. prepared_call wt js rt modl s i e own = Ok (inst, Inl (OutOfFuelTrap msg), st) \<and>
      (fuel_metered wt \<longrightarrow> (\<exists>left. wt_get_fuel wt st = Some left \<and> left + n = 10000000))"
    if "fst ?x = Err (OutOfFuel n)" for n
    using that spent unfolding execute_inner_OutOfFuel [OF assms] by metis
  have iff: "(\<exists>n. fst ?x = Err (OutOfFuel n)) \<longleftrightarrow>
      (\<exists>inst msg st. prepared_call wt js rt modl s i e own = Ok (inst, Inl (OutOfFuelTrap msg), st))"
    unfolding execute_inner_OutOfFuel [OF assms] by blast
  show ?thesis
    using np ok oof iff by (simp add: execute_result [OF np])
qed

lemma execute_records:
  assumes "cr_limits rt = build ram cores" and "cr_metrics rt = Some m"
  shows "case execute wt po ext js t rt modl s i e own of (r, rt') \<Rightarrow>
    \<exists>m' label. cr_metrics rt' = Some m' \<and>
      label = (case r of Ok (res, _) \<Rightarrow> if er_success res then ''accepted'' else ''rejected'' | _ \<Rightarrow> ''error'') \<and>
      contract_executions m' = counters_inc po (contract_executions m) \<lparr>cel_result = label\<rparr> \<and>
      contract_execution_seconds m' =
        histograms_observe po (contract_execution_seconds m) \<lparr>cel_result = label\<rparr> t \<and>
      contract_fuel_exhausted_total m' =
        (if \<exists>n. r = Err (OutOfFuel n)
         then counters_inc po (contract_fuel_exhausted_total m) \<lparr>cel_result = ''error''\<rparr>
         else contract_fuel_exhausted_total m) \<and>
      contract_fuel_consumed m' =
        (case prepared_call wt js rt modl s i e own of
           Ok (inst, r, st) \<Rightarrow>
             histograms_observe po (contract_fuel_consumed m)
               \<lparr>cel_result = if isl r then ''error'' else ''success''\<rparr> (real (10000000 - unwrap_or (wt_get_fuel wt st) 0))
         | _ \<Rightarrow> contract_fuel_consumed m) \<and>
      contract_memory_peak_bytes m' =
        (case prepared_call wt js rt modl s i e own of
           Ok (inst, r, st) \<Rightarrow>
             histograms_observe po (contract_memory_peak_bytes m)
               \<lparr>cel_result = if isl r then ''error'' else ''success''\<rparr> (u64_as_f64 (memory_peak (wt_memory_pages wt inst st)))
         | _ \<Rightarrow> contract_memory_peak_bytes m)"
proof -
  let ?x = "execute_inner wt po ext js rt modl s i e own"
  have np: "fst ?x \<noteq> Panic" using execute_inner_no_panic [OF assms(1)] .
  obtain m1 where m1: "snd ?x = Some m1" and fields: "contract_executions m1 = contract_executions m"
      "contract_execution_seconds m1 = contract_execution_seconds m"
      "contract_fuel_exhausted_total m1 =
        (if \<exists>n. fst ?x = Err (OutOfFuel n)
         then counters_inc po (contract_fuel_exhausted_total m) \<lparr>cel_result = ''error''\<rparr>
         else contract_fuel_exhausted_total m)"
      "contract_fuel_consumed m1 =
      (case prepared_call wt js rt modl s i e own of
         Ok (inst, r, st) \<Rightarrow>
           histograms_observe po (contract_fuel_consumed m)
             \<lparr>cel_result = if isl r then ''error'' else ''success''\<rparr> (real (10000000 - unwrap_or (wt_get_fuel wt st) 0))
       | _ \<Rightarrow> contract_fuel_consumed m)"
      "contract_memory_peak_bytes m1 =
      (case prepared_call wt js rt modl s i e own of
         Ok (inst, r, st) \<Rightarrow>
           histograms_observe po (contract_memory_peak_bytes m)
             \<lparr>cel_result = if isl r then ''error'' else ''success''\<rparr> (u64_as_f64 (memory_peak (wt_memory_pages wt inst st)))
       | _ \<Rightarrow> contract_memory_peak_bytes m)"
    using execute_inner_metrics [OF assms(2) np] by blast
  show ?thesis
    by (simp add: execute_result [OF np] m1 fields observe_contract_execution_def Let_def execution_label_def)
qed

text \<open>
  (C38) What \<open>execute\<close> records, once per call: exactly one execution under \<open>accepted\<close>,
  \<open>rejected\<close> or \<open>error\<close> according to the contract's verdict, with the elapsed time under
  the same label; the counter of executions out of fuel grows exactly when \<open>OutOfFuel\<close> is
  returned; and the consumed fuel and the size of the linear memory are recorded, exactly, if and
  only if the call was reached, under \<open>success\<close> whenever the call returned, whatever the
  contract's verdict.
\<close>

theorem execute_recorded:
  assumes "cr_limits rt = build ram cores" and "cr_metrics rt = Some m"
  shows "case execute wt po ext js t rt modl s i e own of (r, rt') \<Rightarrow>
    \<exists>m' label. cr_metrics rt' = Some m' \<and>
      label = (case r of Ok (res, _) \<Rightarrow> if er_success res then ''accepted'' else ''rejected'' | _ \<Rightarrow> ''error'') \<and>
      contract_executions m' = counters_inc po (contract_executions m) \<lparr>cel_result = label\<rparr> \<and>
      contract_execution_seconds m' =
        histograms_observe po (contract_execution_seconds m) \<lparr>cel_result = label\<rparr> t \<and>
      contract_fuel_exhausted_total m' =
        (if \<exists>n. r = Err (OutOfFuel n)
         then counters_inc po (contract_fuel_exhausted_total m) \<lparr>cel_result = ''error''\<rparr>
         else contract_fuel_exhausted_total m) \<and>
      contract_fuel_consumed m' =
        (case prepared_call wt js rt modl s i e own of
           Ok (inst, r, st) \<Rightarrow>
             histograms_observe po (contract_fuel_consumed m)
               \<lparr>cel_result = if isl r then ''error'' else ''success''\<rparr> (real (10000000 - unwrap_or (wt_get_fuel wt st) 0))
         | _ \<Rightarrow> contract_fuel_consumed m) \<and>
      contract_memory_peak_bytes m' =
        (case prepared_call wt js rt modl s i e own of
           Ok (inst, r, st) \<Rightarrow>
             histograms_observe po (contract_memory_peak_bytes m)
               \<lparr>cel_result = if isl r then ''error'' else ''success''\<rparr> (u64_as_f64 (memory_peak (wt_memory_pages wt inst st)))
         | _ \<Rightarrow> contract_memory_peak_bytes m)"
  using assms by (rule execute_records)

lemma validate_accepts:
  assumes "validate wt iter ext js rt modl v = Ok ()"
  shows "mset (map im_name (wt_imports wt (cm_module modl))) = mset SDK_FUNCTIONS \<and>
    (\<forall>im \<in> set (wt_imports wt (cm_module modl)). sdk_import im) \<and>
    (\<exists>cx p store0 inst store1 main init ptr store2 bytes check.
       generate_context js v (cr_limits rt) = Ok (cx, p) \<and>
       prepare_store wt rt cx MAX_FUEL_COMPILATION = Ok store0 \<and>
       instantiate wt rt store0 modl = Ok (inst, store1) \<and>
       wt_get_func4 wt inst store1 ''main_function'' = Some main \<and>
       wt_get_func1 wt inst store1 ''init_check_function'' = Some init \<and>
       wt_call1 wt init store1 p = (Inr ptr, store2) \<and>
       read_data (wt_data wt store2) (unat ptr) = Ok bytes \<and>
       borsh_init_de ext bytes = Inr check \<and> cid_success check)"
proof -
  from assms obtain cx p store0 inst store1 main init where
    im: "check_imports iter (wt_imports wt (cm_module modl)) = Ok ()" and
    g: "generate_context js v (cr_limits rt) = Ok (cx, p)"
      "prepare_store wt rt cx MAX_FUEL_COMPILATION = Ok store0" "instantiate wt rt store0 modl = Ok (inst, store1)" and
    f: "wt_get_func4 wt inst store1 ''main_function'' = Some main"
      "wt_get_func1 wt inst store1 ''init_check_function'' = Some init" and
    c: "(case wt_call1 wt init store1 p of
         (Inl e, store2) \<Rightarrow> Err (ContractExecutionFailed (call_error_display e))
       | (Inr result_ptr, store2) \<Rightarrow> check_init_result ext (wt_data wt store2) result_ptr) = Ok ()"
    by (auto simp: validate_def validate_inner_def inner_def obind_eq_Ok ok_or_eq_Ok)
  obtain ptr store2 where call: "wt_call1 wt init store1 p = (Inr ptr, store2)"
    and chk: "check_init_result ext (wt_data wt store2) ptr = Ok ()"
    using c by (cases "wt_call1 wt init store1 p") (auto split: sum.splits)
  obtain bytes check where "read_data (wt_data wt store2) (unat ptr) = Ok bytes"
    "borsh_init_de ext bytes = Inr check" "cid_success check"
    using chk by (auto simp: check_init_result_eq_Ok)
  then show ?thesis
    using g f call im check_imports_exact [of iter "wt_imports wt (cm_module modl)"] by blast
qed

text \<open>
  (C29) Validation is sound: a module that \<open>validate\<close> accepts imports exactly the four SDK
  functions at their types, exports both entry points at their types, and its
  \<open>init_check_function\<close>, run on the staged initial state, returned a tracked pointer to an
  answer that decodes to a success.
\<close>

theorem validate_sound:
  assumes "validate wt iter ext js rt modl v = Ok ()"
  shows "mset (map im_name (wt_imports wt (cm_module modl))) = mset SDK_FUNCTIONS \<and>
    (\<forall>im \<in> set (wt_imports wt (cm_module modl)). sdk_import im) \<and>
    (\<exists>cx p store0 inst store1 main init ptr store2 bytes check.
       generate_context js v (cr_limits rt) = Ok (cx, p) \<and>
       prepare_store wt rt cx MAX_FUEL_COMPILATION = Ok store0 \<and>
       instantiate wt rt store0 modl = Ok (inst, store1) \<and>
       wt_get_func4 wt inst store1 ''main_function'' = Some main \<and>
       wt_get_func1 wt inst store1 ''init_check_function'' = Some init \<and>
       wt_call1 wt init store1 p = (Inr ptr, store2) \<and>
       read_data (wt_data wt store2) (unat ptr) = Ok bytes \<and>
       borsh_init_de ext bytes = Inr check \<and> cid_success check)"
  using assms by (rule validate_accepts)

text \<open>
  (C13) The fleet is uniform: two runtimes created for any two machine descriptions or without one,
  over the same wasmtime, have the same engine and linker. They agree on the fingerprint, compile a module to
  the same bytes or refuse it with the same error, and the bytes one of them returns are loaded by
  the other as the very module that was compiled.
\<close>

theorem fleet_interchangeable:
  assumes "runtime_new wt spec1 = Ok r1" and "runtime_new wt spec2 = Ok r2"
  shows "engine_fingerprint wt hb r1 alg = engine_fingerprint wt hb r2 alg \<and>
    compile wt r1 bytes = compile wt r2 bytes \<and>
    (\<forall>m artifact. compile wt r1 bytes = Ok (m, artifact) \<longrightarrow> load_precompiled wt r2 artifact = Ok m) \<and>
    cr_linker r1 = cr_linker r2"
proof -
  have same: "cr_engine r1 = cr_engine r2" "cr_linker r1 = cr_linker r2"
    using runtime_new_engine [OF assms(1)] runtime_new_engine [OF assms(2)] by auto
  have "load_precompiled wt r2 artifact = Ok m" if "compile wt r1 bytes = Ok (m, artifact)" for m artifact
    using that same(1)
    by (auto simp: compile_def load_precompiled_def Let_def obind_eq_Ok split: sum.splits)
  moreover have "compile wt r1 bytes = compile wt r2 bytes" by (simp only: compile_def same)
  moreover have "engine_fingerprint wt hb r1 alg = engine_fingerprint wt hb r2 alg"
    by (simp add: engine_fingerprint_def same)
  ultimately show ?thesis using same(2) by blast
qed

section \<open>A concrete engine for evaluation\<close>

text \<open>
  An engine that honours the limiter and meters fuel. Its store holds the memory manager, whether a
  limiter is set, and the remaining fuel; instantiating a module fails when the store's limits do
  not admit it, and a call burns the fuel it demands, or traps when that is more than is left or
  when its linear memory would grow over the limit. The effect of its two entry points on the memory
  manager is given as functions.
\<close>

record metered_store =
  ms_data :: memory_manager
  ms_limited :: bool
  ms_fuel :: nat

definition metered_call ::
    "demand \<Rightarrow> metered_store \<Rightarrow> u32 list \<Rightarrow> (call_error + u32) \<times> memory_manager \<Rightarrow> (call_error + u32) \<times> metered_store" where
  "metered_call dm s args answer =
     (if ms_fuel s < dm_fuel dm (ms_data s) args
      then (Inl (OutOfFuelTrap ''all fuel consumed by WebAssembly''), s\<lparr>ms_fuel := 0\<rparr>)
      else if ms_limited s \<and> sl_memory_size (mm_store_limits (ms_data s)) < dm_peak dm (ms_data s) args
      then (Inl (OtherCallError ''forcing trap when growing memory''),
            s\<lparr>ms_fuel := ms_fuel s - dm_fuel dm (ms_data s) args\<rparr>)
      else (fst answer,
            s\<lparr>ms_data := snd answer, ms_fuel := ms_fuel s - dm_fuel dm (ms_data s) args\<rparr>))"

type_synonym entry4 = "memory_manager \<Rightarrow> u32 \<Rightarrow> u32 \<Rightarrow> u32 \<Rightarrow> u32 \<Rightarrow> (call_error + u32) \<times> memory_manager"
type_synonym entry1 = "memory_manager \<Rightarrow> u32 \<Rightarrow> (call_error + u32) \<times> memory_manager"

definition sdk_imports :: "import_type list" where
  "sdk_imports =
     [\<lparr>im_module = ''env'', im_name = ''pointer_len'', im_ty = Func [I32] [I32]\<rparr>,
      \<lparr>im_module = ''env'', im_name = ''alloc'', im_ty = Func [I32] [I32]\<rparr>,
      \<lparr>im_module = ''env'', im_name = ''read_bytes'', im_ty = Func [I32, I32, I32] []\<rparr>,
      \<lparr>im_module = ''env'', im_name = ''write_bytes'', im_ty = Func [I32, I32, I32] []\<rparr>]"

definition ref_wasmtime ::
    "demand \<Rightarrow> entry4 \<Rightarrow> entry1 \<Rightarrow> (unit, (string \<times> host_fn) list, unit, metered_store, unit, unit) wasmtime" where
  "ref_wasmtime dm main init =
     \<lparr>wt_engine_new = (\<lambda>_. Inr ()), wt_linker_new = (\<lambda>_. []),
      wt_func_wrap = (\<lambda>l m n f. Inr (l @ [(n, f)])),
      wt_precompile_module = (\<lambda>_ b. Inr b), wt_deserialize = (\<lambda>_ b. Inr ()),
      wt_imports = (\<lambda>_. sdk_imports),
      wt_store_new = (\<lambda>_ m. \<lparr>ms_data = m, ms_limited = False, ms_fuel = 0\<rparr>),
      wt_limiter = (\<lambda>s. s\<lparr>ms_limited := True\<rparr>),
      wt_set_fuel = (\<lambda>s n. Inr (s\<lparr>ms_fuel := n\<rparr>)), wt_get_fuel = (\<lambda>s. Some (ms_fuel s)), wt_data = ms_data,
      wt_instantiate = (\<lambda>l s m.
        if ms_limited s \<and> \<not> admits (mm_store_limits (ms_data s)) dm then Inl ''resource limit exceeded''
        else Inr ((), s)),
      wt_get_func4 = (\<lambda>i s n. Some ()), wt_get_func1 = (\<lambda>i s n. Some ()),
      wt_call4 = (\<lambda>f s a b c d. metered_call dm s [a, b, c, d] (main (ms_data s) a b c d)),
      wt_call1 = (\<lambda>f s a. metered_call dm s [a] (init (ms_data s) a)),
      wt_memory_pages = (\<lambda>i s. Some 1), wt_compatibility_hash = (\<lambda>_. 0)\<rparr>"

definition ref_runtime ::
    "(unit, (string \<times> host_fn) list, counter_family, bucket_family) contract_runtime" where
  "ref_runtime =
     \<lparr>cr_engine = (), cr_limits = build 512 2, cr_linker = [], cr_metrics = Some (metrics_new ref_prom)\<rparr>"

text \<open>A modest module, which burns nine tenths of the budget on every call, and one that burns twice
  the budget; the entry points answer null.\<close>

definition light :: demand where
  "light = \<lparr>dm_memory = 1114112, dm_table = 1, dm_fuel = (\<lambda>_ _. 9000000), dm_peak = (\<lambda>_ _. 1114112)\<rparr>"

definition hungry :: demand where
  "hungry = light\<lparr>dm_fuel := (\<lambda>_ _. 20000000)\<rparr>"

definition idle4 :: entry4 where "idle4 m a b c d = (Inr 0, m)"
definition idle1 :: entry1 where "idle1 m a = (Inr 0, m)"

abbreviation hungry_wasmtime where
  "hungry_wasmtime \<equiv> ref_wasmtime hungry idle4 idle1"

lemma ref_fuel_metered: "fuel_metered (ref_wasmtime dm main init)"
  unfolding fuel_metered_def
  by (auto simp: ref_wasmtime_def metered_call_def split: if_splits)

lemma admits_build:
  assumes "dm_memory dm \<le> 4194304" and "dm_table dm \<le> wl_max_table_elements (build ram cores)"
  shows "admits (mm_store_limits (from_limits (build ram cores))) dm"
  using assms ram_steps_bounds [of ram] by (simp add: admits_def from_limits_def build_fields)

lemma light_simps: "dm_fuel light cx args = 9000000" "dm_peak light cx args = 1114112"
  by (simp_all add: light_def)

lemma light_fits:
  assumes "cores < 2 ^ 56"
  shows "dm_memory light \<le> 4194304 \<and> dm_table light \<le> wl_max_table_elements (build ram cores)"
    and "admits (mm_store_limits (from_limits (build ram cores))) hungry"
  using admits_build [of hungry ram cores]
  by (simp_all add: light_def hungry_def build_max_table_elements [OF assms])

lemma hungry_prepared:
  "\<exists>st. prepared_call hungry_wasmtime raw_json ref_runtime modl [1, 2] [3] [4] True =
     Ok ((), Inl (OutOfFuelTrap ''all fuel consumed by WebAssembly''), st) \<and> ms_fuel st = 0"
proof -
  obtain m sp ip ep where g: "generate_execution_context raw_json [1, 2] [3] [4] (build 512 2) = Ok (m, sp, ip, ep)"
    using raw_staging [of "[1, 2]" "[3]" "[4]"] by auto
  have "admits (mm_store_limits m) hungry" using light_fits(2) [of 2 512] staging_store_limits(1) [OF g] by simp
  with g show ?thesis
    by (simp add: prepared_call_def ref_runtime_def prepare_store_def instantiate_def ref_wasmtime_def
        metered_call_def inner_def hungry_def MAX_FUEL_def)
qed

theorem compile_memory_gate_witness:
  "compile hungry_wasmtime ref_runtime
     (encode_module [Memory_Section [(65, None)]]) =
   Err (InvalidModule (ExcessiveMemory (65536 * 65) 4194304))"
proof -
  let ?ss = "[Memory_Section [(65, None)]]"
  have "\<forall>s \<in> set ?ss. wf_section s" by (simp add: uleb_encode.simps)
  moreover have "length (encode_module ?ss) \<le> usize_max"
    by (simp add: encode_module_def encode_section_def MAGIC_def uleb_encode.simps usize_max_def)
  moreover have "module_pages ?ss = 65" by (simp add: module_pages_def)
  ultimately show ?thesis
    using compile_memory_gate [where ss = ?ss and rt = ref_runtime
        and wt = hungry_wasmtime] by simp
qed

theorem execute_outcome_witness:
  "fst (execute hungry_wasmtime ref_prom ref_ext raw_json 0 ref_runtime
     \<lparr>cm_module = ()\<rparr> [1, 2] [3] [4] True) = Err (OutOfFuel 10000000)"
proof -
  have "cr_limits ref_runtime = build 512 2" by (simp add: ref_runtime_def)
  from execute_outcome [OF this, where wt = hungry_wasmtime and po = ref_prom and ext = ref_ext and js = raw_json
      and t = 0 and modl = "\<lparr>cm_module = ()\<rparr>" and s = "[1, 2]" and i = "[3]" and e = "[4]" and own = True]
  show ?thesis
    using hungry_prepared [of "\<lparr>cm_module = ()\<rparr>"] ref_fuel_metered [of hungry idle4 idle1]
    by (auto simp: ref_wasmtime_def split: prod.splits)
qed

theorem execute_recorded_witness:
  "\<exists>m'. cr_metrics (snd (execute hungry_wasmtime ref_prom ref_ext raw_json 0
       ref_runtime \<lparr>cm_module = ()\<rparr> [1, 2] [3] [4] True)) = Some m'"
proof -
  have "cr_limits ref_runtime = build 512 2" "cr_metrics ref_runtime = Some (metrics_new ref_prom)"
    by (simp_all add: ref_runtime_def)
  from execute_recorded [OF this, where wt = hungry_wasmtime
      and po = ref_prom and ext = ref_ext and js = raw_json and t = 0
      and modl = "\<lparr>cm_module = ()\<rparr>" and s = "[1, 2]" and i = "[3]" and e = "[4]" and own = True]
  show ?thesis by (auto split: prod.splits)
qed

type_synonym plain_runtime = "(unit, (string \<times> host_fn) list, nat, nat) contract_runtime"

theorem fleet_interchangeable_witness:
  "\<exists>(r1 :: plain_runtime) (r2 :: plain_runtime).
     runtime_new hungry_wasmtime (Some \<lparr>ram_mb = 512, cpu_cores = 1\<rparr>) = Ok r1 \<and>
     runtime_new hungry_wasmtime None = Ok r2 \<and>
     cr_limits r1 \<noteq> cr_limits r2 \<and>
     compile hungry_wasmtime r1 [0] =
       compile hungry_wasmtime r2 [0]"
proof -
  let ?wt = hungry_wasmtime
  have new: "\<exists>r :: plain_runtime. runtime_new ?wt spec = Ok r \<and>
      cr_limits r = (case spec of None \<Rightarrow> default_limits | Some s \<Rightarrow> build (ram_mb s) (cpu_cores s))" for spec
    by (simp add: runtime_new_def ref_wasmtime_def generate_linker_def register_def)
  obtain r1 r2 :: plain_runtime where
    r: "runtime_new ?wt (Some \<lparr>ram_mb = 512, cpu_cores = 1\<rparr>) = Ok r1" "runtime_new ?wt None = Ok r2"
    "cr_limits r1 = build 512 1" "cr_limits r2 = default_limits"
    using new [of "Some \<lparr>ram_mb = 512, cpu_cores = 1\<rparr>"] new [of None] by auto
  have "wl_memory_size (build 512 1) \<noteq> wl_memory_size default_limits"
    by (simp add: default_limits_def build_fields ram_steps_def clamp_def)
  then have "cr_limits r1 \<noteq> cr_limits r2" using r by auto
  moreover have "compile ?wt r1 [0] = compile ?wt r2 [0]"
    by (rule fleet_interchangeable [OF r(1,2), THEN conjunct2, THEN conjunct1])
  ultimately show ?thesis using r(1,2) by blast
qed

end
