(* ===== verification/Ave_Stack.thy ===== *)
theory Ave_Stack
  imports Ave_Mock_Host Ave_Guest_Host Ave_Runtime
begin

text \<open>
  Guest and runtime together: what is assumed of the compiler and the engine when the runtime runs
  a module compiled from an SDK contract (\<open>runs_main\<close>, \<open>runs_init\<close>), and the lemmas that follow
  one call of \<open>execute\<close> or \<open>validate\<close> through staging, the linked host functions, the SDK and the
  decoding of the answer. The linked engine satisfies the assumptions: it honours store limits,
  meters fuel and runs the example contract over a linear memory that is a byte list. The last
  section follows answers that exceed a cap.
\<close>

section \<open>A contract run by the runtime\<close>

text \<open>
  The assumption on the compiler and the engine, with what the module needs (\<open>dm\<close>) as a parameter.
  For every context whose store limits admit the module, the engine prepares a store and an instance
  of it. A call of its exported function that keeps its linear memory within the limit of the store
  and burns at most the fuel of the store does to the memory manager what the Rust source of the
  entry point does through the linked host functions; a call that burns more traps out of fuel.
  Nothing is assumed of stores that do not admit the module or of calls that outgrow the memory
  limit, where the engine refuses or traps.
\<close>

definition runs_main ::
    "('e, 'l, 'm, 's, 'i, 'f) wasmtime \<Rightarrow> 'w guest_memory_ops \<Rightarrow> ('w \<Rightarrow> bool) \<Rightarrow> sdk_ext \<Rightarrow> ('st, 'ev) serde \<Rightarrow>
     ('ev sdk_context \<Rightarrow> 'st contract_result \<Rightarrow> 'st contract_result) \<Rightarrow> demand \<Rightarrow>
     ('e, 'l, 'c, 'h) contract_runtime \<Rightarrow> 'm compiled_module \<Rightarrow> bool" where
  "runs_main wt wo fits ext sd cb dm rt modl \<longleftrightarrow>
     (\<forall>cx. mm_abi cx \<longrightarrow> admits (mm_store_limits cx) dm \<longrightarrow> (\<exists>store0 inst store1 f w.
        prepare_store wt rt cx MAX_FUEL = Ok store0 \<and> instantiate wt rt store0 modl = Ok (inst, store1) \<and>
        wt_get_func4 wt inst store1 ''main_function'' = Some f \<and> fits w \<and>
        (\<forall>a b c d. dm_peak dm cx [a, b, c, d] \<le> sl_memory_size (mm_store_limits cx) \<longrightarrow>
           (if dm_fuel dm cx [a, b, c, d] \<le> MAX_FUEL
            then \<forall>p c'.
              execute_contract (rt_ops wo) ext sd a b c d cb \<lparr>caller_data = cx, caller_memory = Some w\<rparr> = Ok (p, c') \<longrightarrow>
              (\<exists>store2. wt_call4 wt f store1 a b c d = (Inr p, store2) \<and> wt_data wt store2 = caller_data c')
            else \<exists>msg store2. wt_call4 wt f store1 a b c d = (Inl (OutOfFuelTrap msg), store2)))))"

definition runs_init ::
    "('e, 'l, 'm, 's, 'i, 'f) wasmtime \<Rightarrow> 'w guest_memory_ops \<Rightarrow> ('w \<Rightarrow> bool) \<Rightarrow> sdk_ext \<Rightarrow> ('st, 'ev) serde \<Rightarrow>
     ('st \<Rightarrow> contract_init_check \<Rightarrow> contract_init_check) \<Rightarrow> demand \<Rightarrow>
     ('e, 'l, 'c, 'h) contract_runtime \<Rightarrow> 'm compiled_module \<Rightarrow> bool" where
  "runs_init wt wo fits ext sd cb dm rt modl \<longleftrightarrow>
     (\<forall>cx. mm_abi cx \<longrightarrow> admits (mm_store_limits cx) dm \<longrightarrow> (\<exists>store0 inst store1 f g w.
        prepare_store wt rt cx MAX_FUEL_COMPILATION = Ok store0 \<and>
        instantiate wt rt store0 modl = Ok (inst, store1) \<and>
        wt_get_func4 wt inst store1 ''main_function'' = Some f \<and>
        wt_get_func1 wt inst store1 ''init_check_function'' = Some g \<and> fits w \<and>
        (\<forall>a. dm_peak dm cx [a] \<le> sl_memory_size (mm_store_limits cx) \<longrightarrow>
           (if dm_fuel dm cx [a] \<le> MAX_FUEL_COMPILATION
            then \<forall>p c'.
              check_init_data (rt_ops wo) ext sd a cb \<lparr>caller_data = cx, caller_memory = Some w\<rparr> = Ok (p, c') \<longrightarrow>
              (\<exists>store2. wt_call1 wt g store1 a = (Inr p, store2) \<and> wt_data wt store2 = caller_data c')
            else \<exists>msg store2. wt_call1 wt g store1 a = (Inl (OutOfFuelTrap msg), store2)))))"

section \<open>Lemmas\<close>

text \<open>What the host reads behind a pointer of the guest.\<close>

lemma read_back:
  assumes "rt_inv cap fits c" and "rt_view c p = Some bs"
  shows "read_data (caller_data c) (unat p) = Ok bs"
proof -
  have "i32_as_usize p = unat p"
    using rt_view_facts(1) [OF assms] by (rule i32_as_usize_nonneg)
  then show ?thesis
    using assms(2) rt_invD(1) [OF assms(1)] by (simp add: read_data_view rt_view_def)
qed

lemma staged_guest:
  assumes st: "staged m n sp sb ip ib ep eb" and "n \<le> cap" and "fits w"
  defines "c \<equiv> \<lparr>caller_data = m, caller_memory = Some w\<rparr>"
  shows "rt_inv cap fits c" and "rt_view c sp = Some (borsh_frame sb)"
    and "rt_view c ip = Some (borsh_frame ib)" and "rt_view c ep = Some (borsh_frame eb)"
  using assms staged_view [OF st] staged_pointers_nonneg [OF st]
  by (simp_all add: rt_inv_def rt_view_def staged_def)

lemma staged_room:
  assumes "staged m n sp sb ip ib ep eb" and "k \<le> n" and "n \<le> i32_max"
    and "12 + length sb + length ib + length eb + k \<le> 3 * n"
  shows "rt_room \<lparr>caller_data = m, caller_memory = w\<rparr> k"
  using assms by (auto simp: rt_room_def staged_def)

lemma staged_sizes:
  assumes "staged m (1024 * 1024 * ram_steps ram) sp sb ip ib ep eb"
  shows "int (length (borsh_frame sb)) \<le> MAX_DATA_SIZE" and "int (length (borsh_frame ib)) \<le> MAX_DATA_SIZE"
    and "int (length (borsh_frame eb)) \<le> MAX_DATA_SIZE"
  using assms ram_steps_bounds [of ram] by (simp_all add: staged_def MAX_DATA_SIZE_def)

context linked_guest
begin

text \<open>The two entry points of a linked guest on a staged host.\<close>

lemma main_on_staged:
  assumes codec: "codec_laws ext" and "fits w"
    and cap: "1024 * 1024 * ram_steps ram \<le> cap"
    and st: "staged m (1024 * 1024 * ram_steps ram) sp sb ip ib ep eb"
    and ser: "borsh_result_ser ext
      (event_response ext sd (borsh_frame sb) (borsh_frame ib) (borsh_frame eb) owner cb) = Inr bytes"
    and room: "length bytes \<le> 1024 * 1024 * ram_steps ram"
      "12 + length sb + length ib + length eb + length bytes \<le> 3 * (1024 * 1024 * ram_steps ram)"
  shows "\<exists>p c'. execute_contract (rt_ops wo) ext sd sp ip ep owner cb
      \<lparr>caller_data = m, caller_memory = Some w\<rparr> = Ok (p, c') \<and>
    read_data (caller_data c') (unat p) = Ok bytes"
proof -
  let ?c = "\<lparr>caller_data = m, caller_memory = Some w\<rparr>"
  note g = staged_guest [OF st cap, of fits w, OF assms(2)] and sz = staged_sizes [OF st]
  have "1024 * 1024 * ram_steps ram \<le> i32_max"
    using ram_steps_bounds [of ram] by (simp add: i32_max_def)
  then have r: "rt_room ?c (length bytes)" using staged_room [OF st room(1) _ room(2)] by blast
  from execute_contract_known [OF g(1,2) sz(1) g(3) sz(2) g(4) sz(3)
      ser codec_lawsD(3) [OF codec ser] r]
  obtain p c' where run: "execute_contract (rt_ops wo) ext sd sp ip ep owner cb ?c = Ok (p, c')"
    and inv: "rt_inv cap fits c'" and v: "rt_view c' = (rt_view ?c)(p \<mapsto> bytes)" by blast
  have "rt_view c' p = Some bytes" using v by simp
  with run read_back [OF inv] show ?thesis by blast
qed

lemma init_on_staged:
  assumes codec: "codec_laws ext" and "fits w"
    and m: "mm_abi m" "mm_view m = [0 \<mapsto> borsh_frame b]" "length (mm_memory m) = 4 + length b"
      "mm_max_single_alloc m = n" "mm_max_total_memory m = 3 * n"
    and n: "4 + length b \<le> n" "n \<le> 8 * 1024 * 1024" "n \<le> cap"
    and ser: "borsh_init_ser ext (init_response ext sd (borsh_frame b) cb) = Inr bytes"
    and room: "length bytes \<le> n"
  shows "\<exists>p c'. check_init_data (rt_ops wo) ext sd 0 cb \<lparr>caller_data = m, caller_memory = Some w\<rparr> = Ok (p, c') \<and>
    read_data (caller_data c') (unat p) = Ok bytes"
proof -
  let ?c = "\<lparr>caller_data = m, caller_memory = Some w\<rparr>"
  have inv: "rt_inv cap fits ?c" and v: "rt_view ?c 0 = Some (borsh_frame b)"
    using assms by (simp_all add: rt_inv_def rt_view_def i32_as_usize_def)
  have sz: "int (length (borsh_frame b)) \<le> MAX_DATA_SIZE"
    using n by (simp add: MAX_DATA_SIZE_def)
  have r: "rt_room ?c (length bytes)"
    using m n room by (auto simp: rt_room_def i32_max_def)
  from check_init_data_known [OF inv v sz ser
      codec_lawsD(5) [OF codec ser] r]
  obtain p c' where run: "check_init_data (rt_ops wo) ext sd 0 cb ?c = Ok (p, c')"
    and inv': "rt_inv cap fits c'" and v': "rt_view c' = (rt_view ?c)(p \<mapsto> bytes)" by blast
  have "rt_view c' p = Some bytes" using v' by simp
  with run read_back [OF inv'] show ?thesis by blast
qed

end

lemma init_response_success:
  assumes "codec_laws ext" and "length b < 2 ^ 32"
  shows "cid_success (init_response ext sd (borsh_frame b) cb) \<longleftrightarrow>
    (\<exists>st. json_state_de sd b = Inr st \<and> ic_success (cb st \<lparr>ic_success = False, ic_error = ''''\<rparr>))"
  using codec_lawsD(8,10) [OF assms(1)]
  by (auto simp: init_response_def parse_payload_frame [OF assms] Let_def contract_init_check_default_def
      split: sum.split)

text \<open>
  Runs of a compiled contract in the store of a machine. The hypotheses on the module are those the
  gate of \<open>compile\<close> ensures (at most 64 pages) and that its table fits; what a call then burns and
  reaches decides between the answer and \<open>OutOfFuel\<close>.
\<close>

lemma execute_on_contract:
  assumes "codec_laws ext" and "wasm_laws wo cap fits" and "runs_main wt wo fits ext sd cb dm rt modl"
    and "cr_limits rt = build ram cores" and "wl_max_single_alloc (build ram cores) \<le> cap"
    and "dm_memory dm \<le> 4194304" and "dm_table dm \<le> wl_max_table_elements (build ram cores)"
    and "json_to_vec js s = Inr sb" and "json_to_vec js i = Inr ib" and "json_to_vec js e = Inr eb"
    and "\<forall>b \<in> {sb, ib, eb}. 4 + length b \<le> wl_max_single_alloc (build ram cores)"
    and "answer = event_response ext sd (borsh_frame sb) (borsh_frame ib) (borsh_frame eb)
           (if own then 1 else 0) cb"
    and "borsh_result_ser ext answer = Inr bytes"
    and "length bytes \<le> wl_max_single_alloc (build ram cores)"
    and "12 + length sb + length ib + length eb + length bytes \<le> wl_max_total_memory (build ram cores)"
    and "json_from_slice js (crd_final_state answer) = Inr v"
  shows "\<exists>m sp ip ep. generate_execution_context js s i e (build ram cores) = Ok (m, sp, ip, ep) \<and>
    (let args = [sp, ip, ep, if own then 1 else 0]
     in dm_peak dm m args \<le> wl_memory_size (build ram cores) \<longrightarrow>
        (if dm_fuel dm m args \<le> 10000000
         then \<exists>stats rt'. execute wt po ext js t rt modl s i e own =
           (Ok (\<lparr>er_final_state = v, er_success = crd_success answer, er_error = crd_error answer\<rparr>, stats), rt')
         else \<exists>n rt'. execute wt po ext js t rt modl s i e own = (Err (OutOfFuel n), rt')))"
proof -
  let ?n = "1024 * 1024 * ram_steps ram" and ?own = "if own then 1 else 0 :: i32"
  have n: "wl_max_single_alloc (build ram cores) = ?n" "wl_max_total_memory (build ram cores) = 3 * ?n"
    by (simp_all add: build_fields)
  obtain m sp ip ep where gen: "generate_execution_context js s i e (build ram cores) = Ok (m, sp, ip, ep)"
    using staging_succeeds [OF assms(8-10), of ram cores] assms(11) n(1) by (auto simp: split_paired_Ex)
  then have st: "staged m ?n sp sb ip ib ep eb"
    using assms(8-10) by (auto elim: staging_facts)
  then have abi: "mm_abi m" by (simp add: staged_def)
  have lim: "mm_store_limits m = mm_store_limits (from_limits (build ram cores))"
    using staging_store_limits(1) [OF gen] .
  then have size: "sl_memory_size (mm_store_limits m) = wl_memory_size (build ram cores)" by (simp add: from_limits_def)
  have adm: "admits (mm_store_limits m) dm" using admits_build [OF assms(6,7)] lim by simp
  obtain store0 inst store1 f w where pre: "prepare_store wt rt m MAX_FUEL = Ok store0"
      "instantiate wt rt store0 modl = Ok (inst, store1)" "wt_get_func4 wt inst store1 ''main_function'' = Some f"
      "fits w" and calls: "\<forall>a b c d. dm_peak dm m [a, b, c, d] \<le> wl_memory_size (build ram cores) \<longrightarrow>
        (if dm_fuel dm m [a, b, c, d] \<le> MAX_FUEL
         then \<forall>p c'.
           execute_contract (rt_ops wo) ext sd a b c d cb \<lparr>caller_data = m, caller_memory = Some w\<rparr> = Ok (p, c') \<longrightarrow>
           (\<exists>store2. wt_call4 wt f store1 a b c d = (Inr p, store2) \<and> wt_data wt store2 = caller_data c')
         else \<exists>msg store2. wt_call4 wt f store1 a b c d = (Inl (OutOfFuelTrap msg), store2))"
    using assms(3) [unfolded runs_main_def, THEN spec, THEN mp, OF abi, THEN mp, OF adm, unfolded size] by blast
  have prep: "prepared_call wt js rt modl s i e own = Ok (inst, wt_call4 wt f store1 sp ip ep ?own)"
    using gen pre by (simp add: prepared_call_def assms(4))
  have "\<exists>stats rt'. execute wt po ext js t rt modl s i e own =
      (Ok (\<lparr>er_final_state = v, er_success = crd_success answer, er_error = crd_error answer\<rparr>, stats), rt')"
    if peak: "dm_peak dm m [sp, ip, ep, ?own] \<le> wl_memory_size (build ram cores)" and fuel: "dm_fuel dm m [sp, ip, ep, ?own] \<le> MAX_FUEL"
  proof -
    obtain p c' where "execute_contract (rt_ops wo) ext sd sp ip ep ?own cb
        \<lparr>caller_data = m, caller_memory = Some w\<rparr> = Ok (p, c')"
      and rd: "read_data (caller_data c') (unat p) = Ok bytes"
      using linked_guest.main_on_staged [OF linked_guest.intro [OF assms(2)] assms(1) pre(4) _ st] assms(5,12-15) n by metis
    then obtain store2 where call: "wt_call4 wt f store1 sp ip ep ?own = (Inr p, store2)"
      and dat: "wt_data wt store2 = caller_data c'" using calls peak fuel by meson
    have "get_execution_result ext js (wt_data wt store2) p =
        Ok \<lparr>er_final_state = v, er_success = crd_success answer, er_error = crd_error answer\<rparr>"
      using dat rd codec_lawsD(2) [OF assms(1,13)] assms(16) by (simp add: get_execution_result_def)
    then show ?thesis by (simp add: execute_def execute_inner_def prep call finish_call_def Let_def)
  qed
  moreover have "\<exists>n rt'. execute wt po ext js t rt modl s i e own = (Err (OutOfFuel n), rt')"
    if peak: "dm_peak dm m [sp, ip, ep, ?own] \<le> wl_memory_size (build ram cores)" and fuel: "\<not> dm_fuel dm m [sp, ip, ep, ?own] \<le> MAX_FUEL"
  proof -
    obtain msg store2 where "wt_call4 wt f store1 sp ip ep ?own = (Inl (OutOfFuelTrap msg), store2)"
      using calls peak fuel by meson
    then show ?thesis by (simp add: execute_def execute_inner_def prep finish_call_def Let_def)
  qed
  ultimately show ?thesis using gen by (simp add: Let_def MAX_FUEL_def)
qed

lemma execute_affordable:
  assumes "codec_laws ext" and "wasm_laws wo cap fits" and "runs_main wt wo fits ext sd cb dm rt modl"
    and "cr_limits rt = build ram cores" and "wl_max_single_alloc (build ram cores) \<le> cap"
    and "dm_memory dm \<le> 4194304" and "dm_table dm \<le> wl_max_table_elements (build ram cores)"
    and "json_to_vec js s = Inr sb" and "json_to_vec js i = Inr ib" and "json_to_vec js e = Inr eb"
    and "\<forall>b \<in> {sb, ib, eb}. 4 + length b \<le> wl_max_single_alloc (build ram cores)"
    and "answer = event_response ext sd (borsh_frame sb) (borsh_frame ib) (borsh_frame eb)
           (if own then 1 else 0) cb"
    and "borsh_result_ser ext answer = Inr bytes"
    and "length bytes \<le> wl_max_single_alloc (build ram cores)"
    and "12 + length sb + length ib + length eb + length bytes \<le> wl_max_total_memory (build ram cores)"
    and "json_from_slice js (crd_final_state answer) = Inr v"
    and "\<And>m sp ip ep own. generate_execution_context js s i e (build ram cores) = Ok (m, sp, ip, ep) \<Longrightarrow>
      dm_peak dm m [sp, ip, ep, own] \<le> wl_memory_size (build ram cores) \<and> dm_fuel dm m [sp, ip, ep, own] \<le> MAX_FUEL"
  shows "\<exists>stats rt'. execute wt po ext js t rt modl s i e own =
    (Ok (\<lparr>er_final_state = v, er_success = crd_success answer, er_error = crd_error answer\<rparr>, stats), rt')"
proof -
  note exec = execute_on_contract [OF assms(1-16), of po t]
  obtain m sp ip ep where gen: "generate_execution_context js s i e (build ram cores) = Ok (m, sp, ip, ep)"
    and "dm_peak dm m [sp, ip, ep, if own then 1 else 0] \<le> wl_memory_size (build ram cores) \<Longrightarrow>
      dm_fuel dm m [sp, ip, ep, if own then 1 else 0] \<le> MAX_FUEL \<Longrightarrow> ?thesis"
    using exec by (auto simp only: Let_def MAX_FUEL_def if_True simp_thms)
  with assms(17) [OF gen] show ?thesis by blast
qed

lemma validate_on_contract:
  assumes "codec_laws ext" and "wasm_laws wo cap fits" and "runs_init wt wo fits ext sd cb dm rt modl"
    and "check_imports iter (wt_imports wt (cm_module modl)) = Ok ()"
    and "cr_limits rt = build ram cores" and "wl_max_single_alloc (build ram cores) \<le> cap"
    and "dm_memory dm \<le> 4194304" and "dm_table dm \<le> wl_max_table_elements (build ram cores)"
    and "json_to_vec js v = Inr b" and "4 + length b \<le> wl_max_single_alloc (build ram cores)"
    and "answer = init_response ext sd (borsh_frame b) cb" and "borsh_init_ser ext answer = Inr bytes"
    and "length bytes \<le> wl_max_single_alloc (build ram cores)"
  shows "\<exists>m. generate_context js v (build ram cores) = Ok (m, 0) \<and>
    (dm_peak dm m [0] \<le> wl_memory_size (build ram cores) \<longrightarrow>
       (if dm_fuel dm m [0] \<le> 50000000
        then validate wt iter ext js rt modl v =
          (if cid_success answer then Ok () else Err (ContractExecutionFailed (cid_error answer)))
        else \<exists>msg. validate wt iter ext js rt modl v = Err (ContractExecutionFailed msg))) \<and>
    (cid_success answer \<longleftrightarrow>
      (\<exists>st. json_state_de sd b = Inr st \<and> ic_success (cb st \<lparr>ic_success = False, ic_error = ''''\<rparr>)))"
proof -
  let ?n = "1024 * 1024 * ram_steps ram"
  have n: "wl_max_single_alloc (build ram cores) = ?n" by (simp add: build_fields)
  have le: "?n \<le> 8 * 1024 * 1024" "?n \<le> cap" "4 + length b \<le> ?n" "length bytes \<le> ?n"
    using ram_steps_bounds [of ram] assms(6,10,13) n by simp_all
  obtain m where gen: "generate_context js v (build ram cores) = Ok (m, 0)" and
    m: "mm_abi m" "mm_view m = [0 \<mapsto> borsh_frame b]" "length (mm_memory m) = 4 + length b"
      "mm_max_single_alloc m = ?n" "mm_max_total_memory m = 3 * ?n"
    using generate_context_staged [OF assms(9) le(3)] .
  have lim: "mm_store_limits m = mm_store_limits (from_limits (build ram cores))"
    using staging_store_limits(2) [OF gen] .
  then have size: "sl_memory_size (mm_store_limits m) = wl_memory_size (build ram cores)" by (simp add: from_limits_def)
  have adm: "admits (mm_store_limits m) dm" using admits_build [OF assms(7,8)] lim by simp
  obtain store0 inst store1 f g w where pre: "prepare_store wt rt m MAX_FUEL_COMPILATION = Ok store0"
      "instantiate wt rt store0 modl = Ok (inst, store1)" "wt_get_func4 wt inst store1 ''main_function'' = Some f"
      "wt_get_func1 wt inst store1 ''init_check_function'' = Some g" "fits w"
    and calls: "\<forall>a. dm_peak dm m [a] \<le> wl_memory_size (build ram cores) \<longrightarrow>
        (if dm_fuel dm m [a] \<le> MAX_FUEL_COMPILATION
         then \<forall>p c'.
           check_init_data (rt_ops wo) ext sd a cb \<lparr>caller_data = m, caller_memory = Some w\<rparr> = Ok (p, c') \<longrightarrow>
           (\<exists>store2. wt_call1 wt g store1 a = (Inr p, store2) \<and> wt_data wt store2 = caller_data c')
         else \<exists>msg store2. wt_call1 wt g store1 a = (Inl (OutOfFuelTrap msg), store2))"
    using assms(3) [unfolded runs_init_def, THEN spec, THEN mp, OF m(1), THEN mp, OF adm, unfolded size] by blast
  note steps = gen pre assms(4) validate_def validate_inner_def inner_def assms(5)
  have "validate wt iter ext js rt modl v =
      (if cid_success answer then Ok () else Err (ContractExecutionFailed (cid_error answer)))"
    if peak: "dm_peak dm m [0] \<le> wl_memory_size (build ram cores)" and fuel: "dm_fuel dm m [0] \<le> MAX_FUEL_COMPILATION"
  proof -
    obtain p c' where "check_init_data (rt_ops wo) ext sd 0 cb \<lparr>caller_data = m, caller_memory = Some w\<rparr> = Ok (p, c')"
      and rd: "read_data (caller_data c') (unat p) = Ok bytes"
      using linked_guest.init_on_staged [OF linked_guest.intro [OF assms(2)] assms(1) pre(5) m le(3,1,2)] assms(11,12) le(4)
      by metis
    then obtain store2 where call: "wt_call1 wt g store1 0 = (Inr p, store2)"
      and dat: "wt_data wt store2 = caller_data c'" using calls peak fuel by meson
    have "check_init_result ext (wt_data wt store2) p =
        (if cid_success answer then Ok () else Err (ContractExecutionFailed (cid_error answer)))"
      using dat rd codec_lawsD(4) [OF assms(1,12)] by (simp add: check_init_result_def)
    with call show ?thesis by (simp add: steps)
  qed
  moreover have "\<exists>msg. validate wt iter ext js rt modl v = Err (ContractExecutionFailed msg)"
    if peak: "dm_peak dm m [0] \<le> wl_memory_size (build ram cores)" and fuel: "\<not> dm_fuel dm m [0] \<le> MAX_FUEL_COMPILATION"
  proof -
    obtain msg store2 where "wt_call1 wt g store1 0 = (Inl (OutOfFuelTrap msg), store2)"
      using calls peak fuel by meson
    then show ?thesis by (simp add: steps)
  qed
  moreover have "length b < 2 ^ 32" using le by simp
  ultimately show ?thesis using gen init_response_success [OF assms(1)] assms(11) by (auto simp: MAX_FUEL_COMPILATION_def)
qed

section \<open>A linked engine\<close>

text \<open>The reference engine running an SDK contract on a linear memory of one buffer.\<close>

definition linked_main ::
    "(example_state, state_event) serde \<Rightarrow>
     (state_event sdk_context \<Rightarrow> example_state contract_result \<Rightarrow> example_state contract_result) \<Rightarrow> entry4" where
  "linked_main sd cb m a b c d =
     (case execute_contract (rt_ops list_ops) ref_ext sd a b c d cb
        \<lparr>caller_data = m, caller_memory = Some (replicate (16 + 1048576) 0)\<rparr> of
        Ok (p, c') \<Rightarrow> (Inr p, caller_data c')
      | _ \<Rightarrow> (Inl (OtherCallError ''trap''), m))"

definition linked_init ::
    "(example_state, state_event) serde \<Rightarrow>
     (example_state \<Rightarrow> contract_init_check \<Rightarrow> contract_init_check) \<Rightarrow> entry1" where
  "linked_init sd cb m a =
     (case check_init_data (rt_ops list_ops) ref_ext sd a cb
        \<lparr>caller_data = m, caller_memory = Some (replicate (16 + 1048576) 0)\<rparr> of
        Ok (p, c') \<Rightarrow> (Inr p, caller_data c')
      | _ \<Rightarrow> (Inl (OtherCallError ''trap''), m))"

text \<open>The example contract as a module of modest demands, on the engine that enforces them.\<close>

abbreviation linked_wasmtime where
  "linked_wasmtime \<equiv> ref_wasmtime light (linked_main ref_serde contract_logic) (linked_init ref_serde init_logic)"

lemma metered_steps:
  fixes rt :: "(unit, (string \<times> host_fn) list, 'c, 'h) contract_runtime"
  assumes "admits (mm_store_limits cx) dm"
  shows "prepare_store (ref_wasmtime dm main init) rt cx n = Ok \<lparr>ms_data = cx, ms_limited = True, ms_fuel = n\<rparr>"
    and "instantiate (ref_wasmtime dm main init) rt \<lparr>ms_data = cx, ms_limited = True, ms_fuel = n\<rparr> modl =
      Ok ((), \<lparr>ms_data = cx, ms_limited = True, ms_fuel = n\<rparr>)"
  using assms by (simp_all add: prepare_store_def instantiate_def ref_wasmtime_def)

lemma linked_runs_main:
  "runs_main (ref_wasmtime dm (linked_main sd cb) init) list_ops (\<lambda>w. 16 + 1048576 \<le> length w) ref_ext sd cb dm rt modl"
  unfolding runs_main_def
proof (intro allI impI, goal_cases)
  case (1 cx)
  let ?st = "\<lparr>ms_data = cx, ms_limited = True, ms_fuel = MAX_FUEL\<rparr>"
  show ?case
    by (intro exI [of _ ?st] exI [of _ "()"] exI [of _ "replicate (16 + 1048576) 0"] conjI metered_steps [OF 1(2)])
      (simp_all add: ref_wasmtime_def linked_main_def metered_call_def not_le)
qed

lemma linked_runs_init:
  "runs_init (ref_wasmtime dm main (linked_init sd cb)) list_ops (\<lambda>w. 16 + 1048576 \<le> length w) ref_ext sd cb dm rt modl"
  unfolding runs_init_def
proof (intro allI impI, goal_cases)
  case (1 cx)
  let ?st = "\<lparr>ms_data = cx, ms_limited = True, ms_fuel = MAX_FUEL_COMPILATION\<rparr>"
  show ?case
    by (intro exI [of _ ?st] exI [of _ "()"] exI [of _ "replicate (16 + 1048576) 0"] conjI metered_steps [OF 1(2)])
      (simp_all add: ref_wasmtime_def linked_init_def metered_call_def not_le)
qed

lemma linked_validates:
  "validate linked_wasmtime (\<lambda>s. filter (\<lambda>f. f \<in> s) SDK_FUNCTIONS) ref_ext raw_json ref_runtime \<lparr>cm_module = ()\<rparr>
     (state_payload \<lparr>one = 1, two = 2, three = 3\<rparr>) = Ok ()"
proof -
  let ?s = "state_payload \<lparr>one = 1, two = 2, three = 3\<rparr>"
  let ?bytes = "enc_bool True @ borsh_frame []"
  have lim: "cr_limits ref_runtime = build 512 2" by (simp add: ref_runtime_def)
  have n: "wl_max_single_alloc (build 512 2) = 1048576" "1114112 \<le> wl_memory_size (build 512 2)"
    by (simp_all add: build_fields ram_steps_def clamp_def)
  have im: "check_imports (\<lambda>s. filter (\<lambda>f. f \<in> s) SDK_FUNCTIONS) (wt_imports linked_wasmtime (cm_module \<lparr>cm_module = ()\<rparr>)) = Ok ()"
    by (subst check_imports_exact) (simp add: ref_wasmtime_def sdk_imports_def SDK_FUNCTIONS_def sdk_import_def)
  have js: "json_to_vec raw_json ?s = Inr ?s" by (simp add: raw_json_def)
  have ans: "init_data_ok ref_ext = init_response ref_ext ref_serde (borsh_frame ?s) init_logic"
    by (simp add: init_response_def init_logic_def ic_accept_def)
  have ser: "borsh_init_ser ref_ext (init_data_ok ref_ext) = Inr ?bytes"
    by (simp add: ref_ext_def ref_init_ser_def string_bytes_def)
  have "cid_success (init_data_ok ref_ext)" by (simp add: ref_ext_def)
  then show ?thesis
    using validate_on_contract [OF codec_laws_ref_ext wasm_laws_list linked_runs_init im lim _ _ _ js _ ans ser] n
      light_fits(1) [of 2 512]
    by (auto simp: enc_bool_def light_def)
qed

section \<open>Answers that do not fit\<close>

lemma env_alloc_refused:
  assumes "mm_abi (caller_data c)" and "0 < n" and "n < 2 ^ 31"
  shows "mm_max_single_alloc (caller_data c) < n \<Longrightarrow>
      env_alloc c (usize_as_u32 n) = Err (HostError (AllocationTooLarge n (mm_max_single_alloc (caller_data c))))"
    and "n \<le> mm_max_single_alloc (caller_data c) \<Longrightarrow>
      mm_max_total_memory (caller_data c) < length (mm_memory (caller_data c)) + n \<Longrightarrow>
      env_alloc c (usize_as_u32 n) =
        Err (HostError (TotalMemoryExceeded (length (mm_memory (caller_data c)) + n) (mm_max_total_memory (caller_data c))))"
proof -
  have inv: "mm_inv (caller_data c)" and le: "length (mm_memory (caller_data c)) \<le> i32_max"
    using assms(1) by (auto simp: mm_abi_def mm_inv_def)
  have n: "unat (usize_as_u32 n) = n" using assms(3) by (simp add: usize_as_u32_id)
  have "\<not> usize_max < length (mm_memory (caller_data c)) + n"
    using le assms(3) by (simp add: usize_max_def i32_max_def)
  then show "mm_max_single_alloc (caller_data c) < n \<Longrightarrow>
      env_alloc c (usize_as_u32 n) = Err (HostError (AllocationTooLarge n (mm_max_single_alloc (caller_data c))))"
    and "n \<le> mm_max_single_alloc (caller_data c) \<Longrightarrow>
      mm_max_total_memory (caller_data c) < length (mm_memory (caller_data c)) + n \<Longrightarrow>
      env_alloc c (usize_as_u32 n) =
        Err (HostError (TotalMemoryExceeded (length (mm_memory (caller_data c)) + n) (mm_max_total_memory (caller_data c))))"
    by (simp_all add: env_alloc_def n alloc_branches [OF inv])
qed

lemma store_traps:
  assumes "ser d = Inr bytes" and "length bytes < 2 ^ 31"
    and "env_alloc c (usize_as_u32 (length bytes)) = Err t"
  shows "store (rt_ops wo) ser d c = Err t"
  using assms by (simp add: store_def serialize_def validate_serialized_len_def i32_max_def rt_ops_def)

lemma main_traps:
  fixes w :: 'w
  assumes laws: "wasm_laws wo cap fits" and "fits w" and cap: "1024 * 1024 * ram_steps ram \<le> cap"
    and st: "staged m (1024 * 1024 * ram_steps ram) sp sb ip ib ep eb"
    and ser: "borsh_result_ser ext
      (event_response ext sd (borsh_frame sb) (borsh_frame ib) (borsh_frame eb) owner cb) = Inr bytes"
    and len: "length bytes < 2 ^ 31"
    and refused: "\<And>w' :: 'w. env_alloc \<lparr>caller_data = m, caller_memory = Some w'\<rparr> (usize_as_u32 (length bytes)) = Err t"
  shows "execute_contract (rt_ops wo) ext sd sp ip ep owner cb \<lparr>caller_data = m, caller_memory = Some w\<rparr> = Err t"
proof -
  let ?R = "\<lambda>c. \<exists>w'. c = \<lparr>caller_data = m, caller_memory = Some w'\<rparr> \<and> fits w'"
    and ?run = "execute_contract (rt_ops wo) ext sd sp ip ep owner cb \<lparr>caller_data = m, caller_memory = Some w\<rparr>"
  have small: "length (borsh_frame sb) \<le> 10000000" "length (borsh_frame ib) \<le> 10000000"
      "length (borsh_frame eb) \<le> 10000000"
    using staged_sizes [OF st] by (simp_all add: MAX_DATA_SIZE_def)
  have reads: "\<exists>c''. get_from_context (rt_ops wo) p c' = Ok (Inr bs, c'') \<and> ?R c''"
    if r: "?R c'" and arg: "(p, bs) \<in> {(sp, borsh_frame sb), (ip, borsh_frame ib), (ep, borsh_frame eb)}" for c' p bs
  proof -
    obtain w' where c': "c' = \<lparr>caller_data = m, caller_memory = Some w'\<rparr>" and fw: "fits w'" using r by blast
    note g = staged_guest [OF st cap, of fits w', OF fw]
    have "rt_view c' p = Some bs" "length bs \<le> 10000000" using arg g small c' by auto
    then show ?thesis
      using get_from_context_known_pointer [OF laws, of c' p bs] g(1) c' by auto
  qed
  have start: "?R \<lparr>caller_data = m, caller_memory = Some w\<rparr>" using assms(2) by blast
  show ?thesis
  proof (rule execute_contract_via_store [of ?R, OF reads start])
    fix h1
    assume "?R h1" and err: "\<And>t. store (rt_ops wo) (borsh_result_ser ext)
        (event_response ext sd (borsh_frame sb) (borsh_frame ib) (borsh_frame eb) owner cb) h1 = Err t \<Longrightarrow> ?run = Err t"
    from this(1) obtain w' where "h1 = \<lparr>caller_data = m, caller_memory = Some w'\<rparr>" by blast
    then show ?thesis using store_traps [where ser = "borsh_result_ser ext", OF ser len refused] by (intro err) simp
  qed
qed

text \<open>
  (C6) What happens to an answer on the production host, by its size: an answer over the machine's
  single-allocation cap, or one that does not fit the total behind the staged arguments, ends the
  guest with a trap that carries the sizes; the guest's own fallback, an error result or a null
  pointer, never comes into play, because the host's allocator traps instead of answering null. Any
  other answer is returned and can be read back exactly.
\<close>

theorem answer_returned_or_trap:
  assumes "codec_laws ext" and "wasm_laws wo cap fits" and "fits w"
    and "wl_max_single_alloc (build ram cores) \<le> cap"
    and "generate_execution_context js s i e (build ram cores) = Ok (m, sp, ip, ep)"
    and "json_to_vec js s = Inr sb" and "json_to_vec js i = Inr ib" and "json_to_vec js e = Inr eb"
    and "borsh_result_ser ext
      (event_response ext sd (borsh_frame sb) (borsh_frame ib) (borsh_frame eb) owner cb) = Inr bytes"
    and "length bytes < 2 ^ 31" and "used = 12 + length sb + length ib + length eb"
  shows "let run = execute_contract (rt_ops wo) ext sd sp ip ep owner cb \<lparr>caller_data = m, caller_memory = Some w\<rparr>;
             single = wl_max_single_alloc (build ram cores); total = wl_max_total_memory (build ram cores)
         in if single < length bytes then run = Err (HostError (AllocationTooLarge (length bytes) single))
            else if total < used + length bytes
            then run = Err (HostError (TotalMemoryExceeded (used + length bytes) total))
            else \<exists>p c'. run = Ok (p, c') \<and> read_data (caller_data c') (unat p) = Ok bytes"
proof -
  let ?n = "1024 * 1024 * ram_steps ram" and ?run = "execute_contract (rt_ops wo) ext sd sp ip ep owner cb
    \<lparr>caller_data = m, caller_memory = Some w\<rparr>"
  have n: "wl_max_single_alloc (build ram cores) = ?n" "wl_max_total_memory (build ram cores) = 3 * ?n"
    by (simp_all add: build_fields)
  have st: "staged m ?n sp sb ip ib ep eb" using assms(5-8) by (auto elim: staging_facts)
  then have m: "mm_abi m" "mm_max_single_alloc m = ?n" "mm_max_total_memory m = 3 * ?n" "length (mm_memory m) = used"
    using assms(11) by (simp_all add: staged_def)
  have pos: "0 < length bytes" using codec_lawsD(3) [OF assms(1,9)] by simp
  note trap = main_traps [OF assms(2,3) _ st assms(9,10)]
    and refused = env_alloc_refused [of "\<lparr>caller_data = m, caller_memory = Some w'\<rparr>" "length bytes" for w',
      simplified caller.simps, OF m(1) pos assms(10)]
  have cap: "?n \<le> cap" using assms(4) n by simp
  consider (single) "?n < length bytes" | (total) "length bytes \<le> ?n" "3 * ?n < used + length bytes"
    | (fits) "length bytes \<le> ?n" "used + length bytes \<le> 3 * ?n" by linarith
  then show ?thesis
  proof cases
    case single
    then have "?run = Err (HostError (AllocationTooLarge (length bytes) ?n))"
      using refused(1) m by (intro trap [OF cap]) simp
    with single n show ?thesis by simp
  next
    case total
    then have "?run = Err (HostError (TotalMemoryExceeded (used + length bytes) (3 * ?n)))"
      using refused(2) m by (intro trap [OF cap]) simp
    with total n show ?thesis by simp
  next
    case fits
    with linked_guest.main_on_staged [OF linked_guest.intro [OF assms(2)] assms(1,3) cap st assms(9)] assms(11) n
    show ?thesis by simp
  qed
qed

text \<open>A contract that rejects with a text of a mebibyte: its answer exceeds the cap and traps.\<close>

theorem answer_returned_or_trap_witness:
  "\<exists>why m sp ip ep len. length why = 1048576 \<and>
     generate_execution_context raw_json (state_payload \<lparr>one = 1, two = 2, three = 3\<rparr>) [] [5] (build 512 2) = Ok (m, sp, ip, ep) \<and>
     execute_contract (rt_ops list_ops) ref_ext ref_serde sp ip ep 1 (\<lambda>_ r. reject r why)
       \<lparr>caller_data = m, caller_memory = Some (replicate (16 + 1048576) 0)\<rparr> =
     Err (HostError (AllocationTooLarge len 1048576))"
proof -
  let ?s = "state_payload \<lparr>one = 1, two = 2, three = 3\<rparr>"
  define why where "why = replicate 1048576 CHR ''x''"
  define msg where "msg = ERR_EVENT_REJECTED @ '': '' @ why"
  have len: "length why = 1048576" by (simp add: why_def)
  then have msg: "1048576 \<le> length msg" "length msg < 2000000" by (simp_all add: msg_def ERR_EVENT_REJECTED_def)
  obtain m sp ip ep where gen: "generate_execution_context raw_json ?s [] [5] (build 512 2) = Ok (m, sp, ip, ep)"
    using raw_staging [of ?s "[]" "[5]"] by auto
  have js: "json_to_vec raw_json v = Inr v" for v by (simp add: raw_json_def)
  have n: "wl_max_single_alloc (build 512 2) = 1048576" by (simp add: build_fields ram_steps_def clamp_def)
  have ans: "event_response ref_ext ref_serde (borsh_frame ?s) (borsh_frame []) (borsh_frame [5]) 1 (\<lambda>_ r. reject r why) =
      \<lparr>crd_final_state = ?s, crd_success = False, crd_error = msg\<rparr>"
    by (simp add: event_response_def event_outcome_def chosen_state_def result_data_def contract_logic_simps msg_def)
  have ser: "borsh_result_ser ref_ext (event_response ref_ext ref_serde (borsh_frame ?s) (borsh_frame []) (borsh_frame [5]) 1
      (\<lambda>_ r. reject r why)) = Inr (borsh_frame ?s @ enc_bool False @ borsh_frame (string_bytes msg))"
    unfolding ans using msg(2) by (simp add: ref_ext_def ref_result_ser_def)
  have fits: "16 + 1048576 \<le> length (replicate (16 + 1048576) (0 :: byte))" by simp
  from answer_returned_or_trap [OF codec_laws_ref_ext wasm_laws_list fits _ gen js js js ser _ refl] msg n len gen
  show ?thesis by (auto simp: enc_bool_def string_bytes_def)
qed

end
