(* ===== verification/Ave_Confinement.thy ===== *)
theory Ave_Confinement
  imports Ave_Stack
begin

text \<open>
  Untrusted modules under \<open>ContractRuntime::execute\<close> and \<open>validate\<close>. \<open>Ave_Linker\<close> bounds
  every run of host calls; here the runs are those of an engine. The locale \<open>confined_engine\<close>
  states what a WASM engine promises of the data in a store: creating, limiting and fuelling a
  store does not touch it, and instantiating a module or calling one of its functions, trapping or
  not, changes it only through the host functions of the linker. In it, what the two read back from
  an arbitrary module is traced to a region of a memory manager within its limits.

  The locale is interpreted on the linked engine, whose guest is the SDK itself: all the SDK does
  to the host is a run of host calls.
\<close>

section \<open>Runs without their labels\<close>

definition host_reach :: "'w wasm_memory_ops \<Rightarrow> 'w caller \<Rightarrow> 'w caller \<Rightarrow> bool" where
  "host_reach wo c c' \<longleftrightarrow> (\<exists>ls. host_run wo c ls c')"

named_theorems reach

lemma host_run_append:
  assumes "host_run wo c' ls' c''" and "host_run wo c ls c'"
  shows "host_run wo c (ls @ ls') c''"
  using assms
proof (induction rule: host_run.induct)
  case (run_step c1 ls1 c2 l c3)
  then show ?case using host_run.run_step [of wo c "ls @ ls1" c2 l c3] by simp
qed simp

lemma host_reach_refl [simp]: "host_reach wo c c"
  unfolding host_reach_def by (blast intro: run_nil)

lemma host_reach_trans: "host_reach wo c c' \<Longrightarrow> host_reach wo c' c'' \<Longrightarrow> host_reach wo c c''"
  unfolding host_reach_def by (blast intro: host_run_append)

lemma host_reach_step: "host_step wo c l c' \<Longrightarrow> host_reach wo c c'"
  unfolding host_reach_def using run_step [OF run_nil] by blast

lemma host_reach_memory: "host_reach wo c (c\<lparr>caller_memory := w\<rparr>)"
  by (rule host_reach_step [OF step_guest])

lemma host_run_memory:
  assumes "host_run wo \<lparr>caller_data = m, caller_memory = w1\<rparr> ls c"
  shows "host_run wo \<lparr>caller_data = m, caller_memory = w\<rparr> (Guest_code # ls) c"
proof -
  have "host_run wo \<lparr>caller_data = m, caller_memory = w\<rparr> [Guest_code] \<lparr>caller_data = m, caller_memory = w1\<rparr>"
    using run_step [OF run_nil step_guest, of wo "\<lparr>caller_data = m, caller_memory = w\<rparr>" w1] by simp
  from host_run_append [OF assms this] show ?thesis by simp
qed

section \<open>The SDK acts through host calls only\<close>

text \<open>The host functions do not use the guest's allocator.\<close>

abbreviation memory_ops :: "'w guest_memory_ops \<Rightarrow> 'w wasm_memory_ops" where
  "memory_ops \<equiv> wasm_memory_ops.truncate"

lemma env_truncate:
  "env_read_bytes (memory_ops wo) = env_read_bytes wo" "env_write_bytes (memory_ops wo) = env_write_bytes wo"
  by (simp_all add: fun_eq_iff env_read_bytes_def env_write_bytes_def wasm_memory_ops.truncate_def)

text \<open>A computation that returns with its caller state reached from where it started.\<close>

definition reaches :: "'w wasm_memory_ops \<Rightarrow> 'w caller \<Rightarrow> ('a \<times> 'w caller, wasm_error) outcome \<Rightarrow> bool" where
  "reaches wo c x \<longleftrightarrow> (\<forall>r c'. x = Ok (r, c') \<longrightarrow> host_reach wo c c')"

lemma reaches_Ok [reach]: "host_reach wo c c' \<Longrightarrow> reaches wo c (Ok (r, c'))"
  by (simp add: reaches_def)

lemma reaches_bind [reach]:
  assumes "reaches wo c x" and "\<And>r c1. reaches wo c1 (f (r, c1))"
  shows "reaches wo c (obind x f)"
  using assms unfolding reaches_def obind_eq_Ok by (metis host_reach_trans surj_pair)

lemma place_reach: "place wo c bs = Ok (a, c') \<Longrightarrow> host_reach (memory_ops wo) c c'"
  by (auto simp: place_def outcome_simps host_reach_memory)

lemma env_reach:
  "env_read_bytes wo c src dst len = Ok c' \<Longrightarrow> host_reach (memory_ops wo) c c'"
  "env_write_bytes wo c dst src len = Ok c' \<Longrightarrow> host_reach (memory_ops wo) c c'"
  by (rule host_reach_step, rule step_read step_write, simp add: env_truncate)+

lemma env_alloc_reaches [reach]: "reaches wo c (env_alloc c n)"
  unfolding reaches_def by (blast intro: host_reach_step step_alloc)

lemma rt_read_reaches [reach]: "reaches (memory_ops wo) c (rt_read_host_bytes wo c p dat)"
  by (auto simp: reaches_def rt_read_host_bytes_def obind_eq_Ok intro: host_reach_trans dest: place_reach env_reach)

lemma rt_write_reach: "rt_write_host_bytes wo c p dat = Ok c' \<Longrightarrow> host_reach (memory_ops wo) c c'"
  by (auto simp: rt_write_host_bytes_def obind_eq_Ok intro: host_reach_trans dest: place_reach env_reach)

lemma rt_write_reaches [reach]:
  "reaches (memory_ops wo) c (obind (rt_write_host_bytes wo c p dat) (\<lambda>c'. Ok (r, c')))"
  by (auto simp: reaches_def obind_eq_Ok dest: rt_write_reach)

lemma rt_ops_simps [simp]:
  "ho_pointer_len (rt_ops wo) = env_pointer_len" "ho_alloc (rt_ops wo) = env_alloc"
  "ho_read (rt_ops wo) = rt_read_host_bytes wo" "ho_write (rt_ops wo) = rt_write_host_bytes wo"
  by (simp_all add: rt_ops_def)

lemma get_from_context_reaches [reach]: "reaches (memory_ops wo) c (get_from_context (rt_ops wo) p c)"
  by (auto simp: get_from_context_def intro!: reach split: sum.split)

lemma read_and_parse_reaches [reach]: "reaches (memory_ops wo) c (read_and_parse (rt_ops wo) ext de p name c)"
  by (auto simp: read_and_parse_def intro!: reach split: sum.split)

lemma store_reaches [reach]: "reaches (memory_ops wo) c (store (rt_ops wo) ser d c)"
  by (auto simp: store_def intro!: reach split: sum.split)

lemma read_state_or_init_reaches [reach]:
  "reaches (memory_ops wo) c (read_state_or_init (rt_ops wo) ext sd sp ip c)"
  by (auto simp: read_state_or_init_def intro!: reach split: sum.split)

lemma try_execute_contract_reaches [reach]:
  "reaches (memory_ops wo) c (try_execute_contract (rt_ops wo) ext sd sp ip ep owner cb c)"
  by (auto simp: try_execute_contract_def Let_def intro!: reach split: sum.split)

lemma try_check_init_data_reaches [reach]:
  "reaches (memory_ops wo) c (try_check_init_data (rt_ops wo) ext sd sp cb c)"
  by (auto simp: try_check_init_data_def Let_def intro!: reach split: sum.split)

lemma entry_points_reach:
  "reaches (memory_ops wo) c (execute_contract (rt_ops wo) ext sd sp ip ep owner cb c)"
  "reaches (memory_ops wo) c (check_init_data (rt_ops wo) ext sd sp ccb c)"
  by (auto simp: execute_contract_def check_init_data_def intro!: reach split: sum.split)

section \<open>What an engine promises\<close>

locale confined_engine =
  fixes wt :: "('e, 'l, 'm, 's, 'i, 'f) wasmtime" and wo :: "'w wasm_memory_ops" and linker :: 'l
  assumes new_data: "wt_data wt (wt_store_new wt eng cx) = cx"
    and limiter_data: "wt_data wt (wt_limiter wt st) = wt_data wt st"
    and fuel_data: "wt_set_fuel wt st n = Inr st' \<Longrightarrow> wt_data wt st' = wt_data wt st"
    and instantiate_runs: "wt_instantiate wt linker st modl = Inr (inst, st') \<Longrightarrow>
      \<exists>ls w w'. host_run wo \<lparr>caller_data = wt_data wt st, caller_memory = w\<rparr> ls
        \<lparr>caller_data = wt_data wt st', caller_memory = w'\<rparr>"
    and call4_runs: "wt_instantiate wt linker st modl = Inr (inst, st1) \<Longrightarrow> wt_get_func4 wt inst st1 name = Some f \<Longrightarrow>
      wt_call4 wt f st1 a b c d = (r, st2) \<Longrightarrow>
      \<exists>ls w w'. host_run wo \<lparr>caller_data = wt_data wt st1, caller_memory = w\<rparr> ls
        \<lparr>caller_data = wt_data wt st2, caller_memory = w'\<rparr>"
    and call1_runs: "wt_instantiate wt linker st modl = Inr (inst, st1) \<Longrightarrow> wt_get_func1 wt inst st1 name = Some f \<Longrightarrow>
      wt_call1 wt f st1 a = (r1, st2) \<Longrightarrow>
      \<exists>ls w w'. host_run wo \<lparr>caller_data = wt_data wt st1, caller_memory = w\<rparr> ls
        \<lparr>caller_data = wt_data wt st2, caller_memory = w'\<rparr>"
begin

lemma prepare_store_data: "prepare_store wt rt cx n = Ok st \<Longrightarrow> wt_data wt st = cx"
  by (auto simp: prepare_store_def Let_def new_data limiter_data dest: fuel_data split: sum.splits)

text \<open>Two runs in a row, whatever the guest did to its memory in between.\<close>

lemma runs_compose:
  assumes "\<exists>ls w w'. host_run wo \<lparr>caller_data = m, caller_memory = w\<rparr> ls \<lparr>caller_data = m1, caller_memory = w'\<rparr>"
    and "\<exists>ls w w'. host_run wo \<lparr>caller_data = m1, caller_memory = w\<rparr> ls \<lparr>caller_data = m2, caller_memory = w'\<rparr>"
  shows "\<exists>ls w w'. host_run wo \<lparr>caller_data = m, caller_memory = w\<rparr> ls \<lparr>caller_data = m2, caller_memory = w'\<rparr>"
  using assms by (meson host_run_append host_run_memory)

lemma prepared_call_runs:
  assumes "prepared_call wt js rt modl s i e own = Ok (inst, r, st)" and "cr_linker rt = linker"
  obtains m sp ip ep ls w w' where "generate_execution_context js s i e (cr_limits rt) = Ok (m, sp, ip, ep)"
    and "host_run wo \<lparr>caller_data = m, caller_memory = w\<rparr> ls \<lparr>caller_data = wt_data wt st, caller_memory = w'\<rparr>"
proof -
  from assms(1) obtain m sp ip ep st0 st1 f where
    gen: "generate_execution_context js s i e (cr_limits rt) = Ok (m, sp, ip, ep)"
    and prep: "prepare_store wt rt m MAX_FUEL = Ok st0"
    and inst: "instantiate wt rt st0 modl = Ok (inst, st1)"
    and f: "wt_get_func4 wt inst st1 ''main_function'' = Some f"
    and call: "wt_call4 wt f st1 sp ip ep (if own then 1 else 0) = (r, st)"
    by (auto simp: prepared_call_def obind_eq_Ok ok_or_eq_Ok)
  have i: "wt_instantiate wt linker st0 (inner modl) = Inr (inst, st1)"
    using inst assms(2) by (auto simp: instantiate_def split: sum.splits)
  from runs_compose [OF instantiate_runs [OF i] call4_runs [OF i f call]]
  obtain ls w w' where "host_run wo \<lparr>caller_data = wt_data wt st0, caller_memory = w\<rparr> ls
      \<lparr>caller_data = wt_data wt st, caller_memory = w'\<rparr>" by blast
  then show thesis using that [OF gen] prepare_store_data [OF prep] by simp
qed

lemma validation_runs:
  assumes "prepare_store wt rt cx n = Ok st0" and "instantiate wt rt st0 modl = Ok (inst, st1)" and "cr_linker rt = linker"
    and "wt_get_func1 wt inst st1 name = Some f" and "wt_call1 wt f st1 a = (r, st2)"
  shows "\<exists>ls w w'. host_run wo \<lparr>caller_data = cx, caller_memory = w\<rparr> ls \<lparr>caller_data = wt_data wt st2, caller_memory = w'\<rparr>"
proof -
  have i: "wt_instantiate wt linker st0 (inner modl) = Inr (inst, st1)"
    using assms(2,3) by (auto simp: instantiate_def split: sum.splits)
  from runs_compose [OF instantiate_runs [OF i] call1_runs [OF i assms(4,5)]]
  show ?thesis using prepare_store_data [OF assms(1)] by simp
qed

end

text \<open>An entry point that acts through host calls only makes the reference engine confined.\<close>

lemma metered_call_data:
  "metered_call dm st args answer = (r, st') \<Longrightarrow> ms_data st' = ms_data st \<or> ms_data st' = snd answer"
  by (auto simp: metered_call_def split: if_splits)

lemma no_run: "\<exists>ls w w'. host_run wo \<lparr>caller_data = m, caller_memory = w\<rparr> ls \<lparr>caller_data = m, caller_memory = w'\<rparr>"
  using run_nil by blast

lemma ref_engine_confined:
  assumes main: "\<And>m a b c d. \<exists>ls w w'. host_run wo \<lparr>caller_data = m, caller_memory = w\<rparr> ls
      \<lparr>caller_data = snd (main m a b c d), caller_memory = w'\<rparr>"
    and init: "\<And>m a. \<exists>ls w w'. host_run wo \<lparr>caller_data = m, caller_memory = w\<rparr> ls
      \<lparr>caller_data = snd (init m a), caller_memory = w'\<rparr>"
  shows "confined_engine (ref_wasmtime dm main init) wo l"
proof (unfold_locales, goal_cases)
  case (4 st modl inst st')
  then have "st' = st" by (auto simp: ref_wasmtime_def split: if_splits)
  then show ?case using no_run by simp
next
  case (5 st modl inst st1 name f a b c d r st2)
  then have "metered_call dm st1 [a, b, c, d] (main (ms_data st1) a b c d) = (r, st2)" by (simp add: ref_wasmtime_def)
  from metered_call_data [OF this] show ?case
    using main [of "ms_data st1" a b c d] no_run by (elim disjE) (simp_all add: ref_wasmtime_def)
next
  case (6 st modl inst st1 name f a r1 st2)
  then have "metered_call dm st1 [a] (init (ms_data st1) a) = (r1, st2)" by (simp add: ref_wasmtime_def)
  from metered_call_data [OF this] show ?case
    using init [of "ms_data st1" a] no_run by (elim disjE) (simp_all add: ref_wasmtime_def)
qed (auto simp: ref_wasmtime_def)

lemma reaches_run:
  assumes "reaches wo c x" and "x = Ok (p, c')"
  shows "\<exists>ls w w'. host_run wo \<lparr>caller_data = caller_data c, caller_memory = w\<rparr> ls
    \<lparr>caller_data = caller_data c', caller_memory = w'\<rparr>"
proof -
  have "c = \<lparr>caller_data = caller_data c, caller_memory = caller_memory c\<rparr>"
    "c' = \<lparr>caller_data = caller_data c', caller_memory = caller_memory c'\<rparr>" by simp_all
  with assms show ?thesis unfolding reaches_def host_reach_def by metis
qed

lemma linked_main_runs:
  "\<exists>ls w w'. host_run (memory_ops list_ops) \<lparr>caller_data = m, caller_memory = w\<rparr> ls
     \<lparr>caller_data = snd (linked_main sd cb m a b c d), caller_memory = w'\<rparr>"
  using entry_points_reach(1) [of list_ops "\<lparr>caller_data = m, caller_memory = Some (replicate (16 + 1048576) 0)\<rparr>"
      ref_ext sd a b c d cb, THEN reaches_run]
  by (auto simp: linked_main_def intro: run_nil split: outcome.split)

lemma linked_init_runs:
  "\<exists>ls w w'. host_run (memory_ops list_ops) \<lparr>caller_data = m, caller_memory = w\<rparr> ls
     \<lparr>caller_data = snd (linked_init sd cb m a), caller_memory = w'\<rparr>"
  using entry_points_reach(2) [of list_ops "\<lparr>caller_data = m, caller_memory = Some (replicate (16 + 1048576) 0)\<rparr>"
      ref_ext sd a cb, THEN reaches_run]
  by (auto simp: linked_init_def intro: run_nil split: outcome.split)

interpretation linked_engine: confined_engine "ref_wasmtime dm (linked_main sd cb) (linked_init sd ccb)"
    "memory_ops list_ops" l
  by (rule ref_engine_confined [OF linked_main_runs linked_init_runs])

section \<open>What a run leaves to the host\<close>

lemma run_keeps_unwritten:
  assumes run: "host_run wo \<lparr>caller_data = m, caller_memory = w\<rparr> ls \<lparr>caller_data = m', caller_memory = w'\<rparr>"
    and inv: "mm_inv m" and "mm_view m (unat ptr) = Some b" and ptr: "i32_as_usize ptr = unat ptr"
    and untouched: "\<forall>src len. Call_write_bytes ptr src len \<notin> set ls"
  shows "read_data m' (unat ptr) = read_data m (unat ptr)"
proof -
  have "mm_view m' (unat ptr) = Some b"
    using host_run_view [OF run, of "unat ptr" b] inv assms(3) untouched
    by (auto simp: i32_as_usize_inject simp flip: ptr)
  moreover have "mm_inv m'" using host_run_keeps [OF run] inv by simp
  ultimately show ?thesis using assms(2,3) by (simp add: read_data_view)
qed

lemma run_reads_small:
  assumes run: "host_run wo \<lparr>caller_data = m, caller_memory = w\<rparr> ls \<lparr>caller_data = m', caller_memory = w'\<rparr>"
    and "mm_inv m" and "read_data m' q = Ok bytes"
  shows "length bytes \<le> mm_max_single_alloc m"
proof -
  have fin: "mm_inv m'" "mm_extends m m'" using host_run_keeps [OF run] assms(2) by simp_all
  have v: "mm_view m' q = Some bytes" using assms(3) by (simp add: read_data_view fin split: option.splits)
  then obtain l where l: "mm_map m' q = Some l" by (auto simp: mm_view_eq_Some)
  then show ?thesis using mm_view_length [OF fin(1) l v] mm_invD(2) [OF fin(1) l] fin(2) by (simp add: mm_extends_def)
qed

section \<open>Properties\<close>

lemma execute_Ok:
  assumes "execute wt po ext js t rt modl s i e own = (Ok (res, stats), rt')"
    and "prepared_call wt js rt modl s i e own = Ok (inst, r, st)"
  shows "\<exists>p. r = Inr p \<and> get_execution_result ext js (wt_data wt st) p = Ok res"
  using assms
  by (auto simp: execute_def execute_inner_def finish_call_def Let_def obind_eq_Ok
      split: outcome.splits prod.splits sum.splits if_splits)

lemma get_execution_result_eq_Ok:
  "get_execution_result ext js m p = Ok res \<longleftrightarrow>
     (\<exists>bytes answer. read_data m (unat p) = Ok bytes \<and> borsh_result_de ext bytes = Inr answer \<and>
        er_success res = crd_success answer \<and> er_error res = crd_error answer \<and>
        json_from_slice js (crd_final_state answer) = Inr (er_final_state res))"
  by (cases res; cases "read_data m (unat p)") (auto simp: get_execution_result_def split: sum.splits)

text \<open>
  (C4) An arbitrary module under \<open>execute\<close>, on any engine that confines it to the linked host
  functions: when the call of \<open>main_function\<close> ends, whether it returned or trapped, the memory
  manager is the staged one after some run of host calls, in which the start function and the call
  may both have taken part. It still satisfies its invariant and holds at most the machine's total
  cap, never more than 24 MiB; every staged argument that the run did not write through its own
  pointer is as it was staged; and if a result is returned, it is the decoding of one tracked region
  of that memory manager, of at most the single-allocation cap.
\<close>

theorem execute_confined:
  assumes "confined_engine wt wo (cr_linker rt)" and "cr_limits rt = build ram cores"
    and "prepared_call wt js rt modl s i e own = Ok (inst, r, st)"
  shows "\<exists>m sp ip ep ls w w'.
    generate_execution_context js s i e (build ram cores) = Ok (m, sp, ip, ep) \<and>
    host_run wo \<lparr>caller_data = m, caller_memory = w\<rparr> ls \<lparr>caller_data = wt_data wt st, caller_memory = w'\<rparr> \<and>
    mm_inv (wt_data wt st) \<and>
    length (mm_memory (wt_data wt st)) \<le> wl_max_total_memory (build ram cores) \<and>
    length (mm_memory (wt_data wt st)) \<le> 24 * 1024 * 1024 \<and>
    (\<forall>ptr \<in> {sp, ip, ep}. (\<forall>src len. Call_write_bytes ptr src len \<notin> set ls) \<longrightarrow>
       read_data (wt_data wt st) (unat ptr) = read_data m (unat ptr)) \<and>
    (\<forall>res stats rt'. execute wt po ext js t rt modl s i e own = (Ok (res, stats), rt') \<longrightarrow>
       (\<exists>p bytes answer. r = Inr p \<and> read_data (wt_data wt st) (unat p) = Ok bytes \<and>
          length bytes \<le> wl_max_single_alloc (build ram cores) \<and>
          borsh_result_de ext bytes = Inr answer \<and>
          er_success res = crd_success answer \<and> er_error res = crd_error answer \<and>
          json_from_slice js (crd_final_state answer) = Inr (er_final_state res)))"
proof -
  let ?m' = "wt_data wt st" and ?n = "1024 * 1024 * ram_steps ram"
  obtain m sp ip ep ls w w' where
    gen: "generate_execution_context js s i e (build ram cores) = Ok (m, sp, ip, ep)"
    and run: "host_run wo \<lparr>caller_data = m, caller_memory = w\<rparr> ls \<lparr>caller_data = ?m', caller_memory = w'\<rparr>"
    using confined_engine.prepared_call_runs [OF assms(1,3) refl] assms(2) by metis
  obtain sb ib eb where st: "staged m ?n sp sb ip ib ep eb" using staging_facts [OF gen] by blast
  then have inv: "mm_inv m" and caps: "mm_max_single_alloc m = ?n" "mm_max_total_memory m = 3 * ?n"
    by (simp_all add: staged_def mm_abi_def)
  have fin: "mm_inv ?m'" "mm_extends m ?m'" using host_run_keeps [OF run] inv by simp_all
  have n: "wl_max_single_alloc (build ram cores) = ?n" "wl_max_total_memory (build ram cores) = 3 * ?n"
    by (simp_all add: build_fields)
  have total: "length (mm_memory ?m') \<le> 3 * ?n"
    using fin caps by (simp add: mm_inv_def mm_extends_def)
  have kept: "read_data ?m' (unat ptr) = read_data m (unat ptr)"
    if "ptr \<in> {sp, ip, ep}" and "\<forall>src len. Call_write_bytes ptr src len \<notin> set ls" for ptr
    using that staged_view [OF st] staged_pointers_nonneg [OF st] by (auto intro!: run_keeps_unwritten [OF run inv])
  note small = run_reads_small [OF run inv, unfolded caps]
  have result: "\<exists>p bytes answer. r = Inr p \<and> read_data ?m' (unat p) = Ok bytes \<and>
      length bytes \<le> wl_max_single_alloc (build ram cores) \<and> borsh_result_de ext bytes = Inr answer \<and>
      er_success res = crd_success answer \<and> er_error res = crd_error answer \<and>
      json_from_slice js (crd_final_state answer) = Inr (er_final_state res)"
    if "execute wt po ext js t rt modl s i e own = (Ok (res, stats), rt')" for res stats rt'
    using execute_Ok [OF that assms(3)] small n by (fastforce simp: get_execution_result_eq_Ok)
  have "3 * ?n \<le> 24 * 1024 * 1024" using ram_steps_bounds [of ram] by simp
  with gen run fin(1) total kept result n show ?thesis by (intro exI conjI) auto
qed

theorem execute_confined_witness:
  "\<exists>r st. prepared_call linked_wasmtime raw_json ref_runtime \<lparr>cm_module = ()\<rparr> [1, 2] [3] [4] True = Ok ((), r, st) \<and>
     mm_inv (ms_data st) \<and> length (mm_memory (ms_data st)) \<le> 24 * 1024 * 1024"
proof -
  obtain m sp ip ep where g: "generate_execution_context raw_json [1, 2] [3] [4] (build 512 2) = Ok (m, sp, ip, ep)"
    using raw_staging [of "[1, 2]" "[3]" "[4]"] by auto
  have "admits (mm_store_limits m) light"
    using admits_build [of light 512 2] light_fits(1) [of 2 512] staging_store_limits(1) [OF g] by simp
  with g have "\<exists>x. prepared_call linked_wasmtime raw_json ref_runtime \<lparr>cm_module = ()\<rparr> [1, 2] [3] [4] True = Ok ((), x)"
    by (simp add: prepared_call_def ref_runtime_def prepare_store_def instantiate_def ref_wasmtime_def inner_def)
  then obtain r st where prep:
    "prepared_call linked_wasmtime raw_json ref_runtime \<lparr>cm_module = ()\<rparr> [1, 2] [3] [4] True = Ok ((), r, st)"
    by (auto simp: split_paired_Ex)
  have "cr_limits ref_runtime = build 512 2" by (simp add: ref_runtime_def)
  from execute_confined [OF linked_engine.confined_engine_axioms this prep] prep show ?thesis
    by (auto simp: ref_wasmtime_def)
qed

text \<open>
  (C5) An arbitrary module under \<open>validate\<close>, on any engine that confines it: a module that is
  accepted imports exactly the SDK functions, and the store its \<open>init_check_function\<close> leaves is that
  of a run of host calls from the staged initial state, in which the start function and the call may
  both have taken part. The memory manager in that store satisfies its invariant within the machine's
  total cap, never more than 24 MiB; the staged state in it is unchanged unless the run wrote through
  its pointer; and the acceptance is the decoding, to a success, of the one tracked region of it that
  the call returned the pointer of, of at most the single-allocation cap.
\<close>

theorem validate_confined:
  assumes "confined_engine wt wo (cr_linker rt)" and "cr_limits rt = build ram cores"
    and "validate wt iter ext js rt modl v = Ok ()"
  shows "mset (map im_name (wt_imports wt (cm_module modl))) = mset SDK_FUNCTIONS \<and>
    (\<exists>b cx store0 inst store1 init ptr store2 ls w w' bytes check.
      json_to_vec js v = Inr b \<and> generate_context js v (build ram cores) = Ok (cx, 0) \<and>
      prepare_store wt rt cx MAX_FUEL_COMPILATION = Ok store0 \<and>
      instantiate wt rt store0 modl = Ok (inst, store1) \<and>
      wt_get_func1 wt inst store1 ''init_check_function'' = Some init \<and>
      wt_call1 wt init store1 0 = (Inr ptr, store2) \<and>
      host_run wo \<lparr>caller_data = cx, caller_memory = w\<rparr> ls \<lparr>caller_data = wt_data wt store2, caller_memory = w'\<rparr> \<and>
      mm_inv (wt_data wt store2) \<and>
      length (mm_memory (wt_data wt store2)) \<le> wl_max_total_memory (build ram cores) \<and>
      length (mm_memory (wt_data wt store2)) \<le> 24 * 1024 * 1024 \<and>
      ((\<forall>src len. Call_write_bytes 0 src len \<notin> set ls) \<longrightarrow> read_data (wt_data wt store2) 0 = Ok (borsh_frame b)) \<and>
      read_data (wt_data wt store2) (unat ptr) = Ok bytes \<and>
      length bytes \<le> wl_max_single_alloc (build ram cores) \<and>
      borsh_init_de ext bytes = Inr check \<and> cid_success check)"
proof -
  let ?n = "1024 * 1024 * ram_steps ram"
  obtain cx p0 st0 inst st1 init ptr st2 bytes check where
    gen: "generate_context js v (build ram cores) = Ok (cx, p0)"
    and prep: "prepare_store wt rt cx MAX_FUEL_COMPILATION = Ok st0"
    and inst: "instantiate wt rt st0 modl = Ok (inst, st1)"
    and f: "wt_get_func1 wt inst st1 ''init_check_function'' = Some init"
    and call: "wt_call1 wt init st1 p0 = (Inr ptr, st2)"
    and answer: "read_data (wt_data wt st2) (unat ptr) = Ok bytes" "borsh_init_de ext bytes = Inr check" "cid_success check"
    using validate_accepts [OF assms(3)] assms(2) by auto
  obtain b where js: "json_to_vec js v = Inr b" and p0: "p0 = 0" and abi: "mm_abi cx"
    and v: "mm_view cx = [0 \<mapsto> borsh_frame b]"
    and caps: "mm_max_single_alloc cx = ?n" "mm_max_total_memory cx = 3 * ?n"
    using gen by (rule generate_context_facts)
  have inv: "mm_inv cx" using abi by (simp add: mm_abi_def)
  obtain ls w w' where run: "host_run wo \<lparr>caller_data = cx, caller_memory = w\<rparr> ls
      \<lparr>caller_data = wt_data wt st2, caller_memory = w'\<rparr>"
    using confined_engine.validation_runs [OF assms(1) prep inst refl f call] by blast
  have fin: "mm_inv (wt_data wt st2)" "mm_extends cx (wt_data wt st2)" using host_run_keeps [OF run] inv by simp_all
  have n: "wl_max_single_alloc (build ram cores) = ?n" "wl_max_total_memory (build ram cores) = 3 * ?n"
    "3 * ?n \<le> 24 * 1024 * 1024"
    using ram_steps_bounds [of ram] by (simp_all add: build_fields)
  have total: "length (mm_memory (wt_data wt st2)) \<le> 3 * ?n"
    using fin caps by (simp add: mm_inv_def mm_extends_def)
  have kept: "read_data (wt_data wt st2) 0 = Ok (borsh_frame b)" if "\<forall>src len. Call_write_bytes 0 src len \<notin> set ls"
    using run_keeps_unwritten [OF run inv, of 0 "borsh_frame b"] that v
    by (simp add: read_data_view inv i32_as_usize_def)
  have "length bytes \<le> ?n" using run_reads_small [OF run inv answer(1)] caps by simp
  moreover have "mset (map im_name (wt_imports wt (cm_module modl))) = mset SDK_FUNCTIONS"
    using validate_accepts [OF assms(3)] by simp
  ultimately show ?thesis
    using js gen prep inst f call [unfolded p0] run fin(1) total n kept answer unfolding p0
    by (intro conjI exI) (assumption | simp)+
qed

theorem validate_confined_witness:
  "\<exists>cx. generate_context raw_json (state_payload \<lparr>one = 1, two = 2, three = 3\<rparr>) (build 512 2) = Ok (cx, 0) \<and>
     mset (map im_name (wt_imports linked_wasmtime ())) = mset SDK_FUNCTIONS"
proof -
  have "cr_limits ref_runtime = build 512 2" by (simp add: ref_runtime_def)
  from validate_confined [OF linked_engine.confined_engine_axioms this linked_validates] show ?thesis by auto
qed

end
