(* ===== verification/Ave_Ledger.thy ===== *)
theory Ave_Ledger
  imports Ave_Stack
begin

text \<open>
  A ledger driven by the runtime: a subject's state is a JSON value that is replaced by the final
  state of every execution whose result is successful, as the documentation of \<open>success\<close>
  (\<open>ContractResult\<close>, \<open>ExecutionResult\<close>) says. Each event may be executed by another node, with
  other hardware and so other limits.

  The locale \<open>fleet_contract\<close> states what a contract needs for that: codecs that round-trip its
  states, and states, events and error texts that fit the smallest node (\<open>L\<close>). In it, the ledger
  is shown to compute the fold of the contract's own logic over the events, on every node alike.
\<close>

section \<open>The ledger\<close>

definition ledger_step ::
    "('e, 'l, 'm, 's, 'i, 'f) wasmtime \<Rightarrow> ('c, 'h) prom_ops \<Rightarrow> sdk_ext \<Rightarrow> 'v json \<Rightarrow> real \<Rightarrow> 'm compiled_module \<Rightarrow> 'v \<Rightarrow>
     'v \<Rightarrow> ('e, 'l, 'c, 'h) contract_runtime \<times> 'v \<times> bool \<Rightarrow> 'v" where
  "ledger_step wt po ext js t modl i s = (\<lambda>(rt, e, own).
     case fst (execute wt po ext js t rt modl s i e own) of
       Ok (res, _) \<Rightarrow> if er_success res then er_final_state res else s
     | _ \<Rightarrow> s)"

definition ledger_run ::
    "('e, 'l, 'm, 's, 'i, 'f) wasmtime \<Rightarrow> ('c, 'h) prom_ops \<Rightarrow> sdk_ext \<Rightarrow> 'v json \<Rightarrow> real \<Rightarrow> 'm compiled_module \<Rightarrow> 'v \<Rightarrow>
     'v \<Rightarrow> (('e, 'l, 'c, 'h) contract_runtime \<times> 'v \<times> bool) list \<Rightarrow> 'v" where
  "ledger_run wt po ext js t modl i = foldl (ledger_step wt po ext js t modl i)"

text \<open>The JSON value \<open>s\<close> of a subject with initial value \<open>i\<close> stands for the contract state
  \<open>st\<close>: it parses to it, or it does not parse and the initial value does.\<close>

definition state_json :: "'v json \<Rightarrow> ('s, 'e) serde \<Rightarrow> nat \<Rightarrow> 'v \<Rightarrow> 'v \<Rightarrow> 's \<Rightarrow> bool" where
  "state_json js sd L i s st \<longleftrightarrow>
     (\<exists>sb ib. json_to_vec js s = Inr sb \<and> length sb \<le> L \<and> json_to_vec js i = Inr ib \<and> length ib \<le> L \<and>
        (json_state_de sd sb = Inr st \<or> (\<exists>err. json_state_de sd sb = Inl err) \<and> json_state_de sd ib = Inr st))"

definition event_json :: "'v json \<Rightarrow> ('s, 'e) serde \<Rightarrow> nat \<Rightarrow> 'v \<Rightarrow> 'e \<Rightarrow> bool" where
  "event_json js sd L e ev \<longleftrightarrow>
     (\<exists>eb. json_to_vec js e = Inr eb \<and> length eb \<le> L \<and> json_event_de sd eb = Inr ev)"

text \<open>
  A node: a runtime with the limits of some machine, on which the module runs the contract. The
  module fits the machine: its memory passes the gate of \<open>compile\<close>, its table the table limit, and
  on a context of three arguments of at most \<open>L\<close> bytes its calls stay within the memory limit and
  the fuel budget.
\<close>

definition fleet_node ::
    "('e, 'l, 'm, 's, 'i, 'f) wasmtime \<Rightarrow> 'w guest_memory_ops \<Rightarrow> nat \<Rightarrow> ('w \<Rightarrow> bool) \<Rightarrow> sdk_ext \<Rightarrow> ('st, 'ev) serde \<Rightarrow>
     ('ev sdk_context \<Rightarrow> 'st contract_result \<Rightarrow> 'st contract_result) \<Rightarrow> nat \<Rightarrow> demand \<Rightarrow> 'm compiled_module \<Rightarrow>
     ('e, 'l, 'c, 'h) contract_runtime \<Rightarrow> bool" where
  "fleet_node wt wo cap fits ext sd cb L dm modl rt \<longleftrightarrow>
     (\<exists>ram cores. cr_limits rt = build ram cores \<and> wl_max_single_alloc (build ram cores) \<le> cap \<and>
        dm_memory dm \<le> 4194304 \<and> dm_table dm \<le> wl_max_table_elements (build ram cores) \<and>
        (\<forall>cx args. length (mm_memory cx) \<le> 12 + 3 * L \<longrightarrow>
           dm_peak dm cx args \<le> wl_memory_size (build ram cores) \<and> dm_fuel dm cx args \<le> MAX_FUEL)) \<and>
     runs_main wt wo fits ext sd cb dm rt modl"

section \<open>Contracts that fit the fleet\<close>

locale fleet_contract =
  fixes ext :: sdk_ext and js :: "'v json" and sd :: "('st, 'ev) serde"
    and cb :: "'ev sdk_context \<Rightarrow> 'st contract_result \<Rightarrow> 'st contract_result"
    and good :: "'st \<Rightarrow> bool" and L :: nat
  assumes codec: "codec_laws ext"
    and result_size: "length (crd_final_state d) \<le> L \<Longrightarrow> length (crd_error d) \<le> L \<Longrightarrow>
      \<exists>bytes. borsh_result_ser ext d = Inr bytes \<and> length bytes \<le> 2 * L + 9"
    and state_round_trip: "good st \<Longrightarrow>
      \<exists>b v b'. json_state_ser sd st = Inr b \<and> length b \<le> L \<and> json_from_slice js b = Inr v \<and>
        json_to_vec js v = Inr b' \<and> length b' \<le> L \<and> json_state_de sd b' = Inr st"
    and good_step: "good st \<Longrightarrow> good (state (cb \<lparr>event = ev, is_owner = own\<rparr> (contract_result_new st)))"
    and error_size: "good st \<Longrightarrow>
      length (error (cb \<lparr>event = ev, is_owner = own\<rparr> (contract_result_new st))) + 30 \<le> L"
    and smallest_node: "L \<le> 500000"
begin

lemma good_apply_event: "good st \<Longrightarrow> good (apply_event cb st (ev, own))"
  using good_step by (simp add: apply_event_def Let_def)

lemma payload_parse: "length p \<le> L \<Longrightarrow> parse_payload ext de name (borsh_frame p) =
    (case de p of Inl e \<Rightarrow> Inl (''Cannot parse '' @ name @ '' from JSON bytes: '' @ e) | Inr v \<Rightarrow> Inr v)"
  using smallest_node by (intro parse_payload_frame [OF codec]) simp

lemma answer:
  assumes "state_json js sd L i s st" and "event_json js sd L e ev"
    and "json_to_vec js s = Inr sb" and "json_to_vec js i = Inr ib" and "json_to_vec js e = Inr eb"
    and "json_state_ser sd (state (cb \<lparr>event = ev, is_owner = own\<rparr> (contract_result_new st))) = Inr b"
  shows "event_response ext sd (borsh_frame sb) (borsh_frame ib) (borsh_frame eb) (if own then 1 else 0) cb =
    result_data (cb \<lparr>event = ev, is_owner = own\<rparr> (contract_result_new st)) b"
proof -
  have len: "length sb \<le> L" "length ib \<le> L" "length eb \<le> L"
    using assms(1-5) by (auto simp: state_json_def event_json_def)
  note parse = len [THEN payload_parse]
  have "chosen_state ext sd (borsh_frame sb) (borsh_frame ib) = Inr st"
    using assms(1,3,4) by (auto simp: chosen_state_def parse state_json_def)
  moreover have "parse_payload ext (json_event_de sd) ''Event'' (borsh_frame eb) = Inr ev"
    using assms(2,5) by (auto simp: parse event_json_def)
  moreover have "((if own then 1 else 0) = OWNER_FLAG) = own" by (simp add: OWNER_FLAG_def)
  ultimately show ?thesis
    using assms(6) by (simp only: event_response_def event_outcome_def sum.case Let_def)
qed

lemma node_executes:
  assumes laws: "wasm_laws wo cap fits" and node: "fleet_node wt wo cap fits ext sd cb L dm modl rt"
    and st: "good st" "state_json js sd L i s st" and ev: "event_json js sd L e ev"
    and ser: "json_state_ser sd (state (cb \<lparr>event = ev, is_owner = own\<rparr> (contract_result_new st))) = Inr b"
      "length b \<le> L" "json_from_slice js b = Inr v"
  shows "ledger_step wt po ext js t modl i s (rt, e, own) =
    (if success (cb \<lparr>event = ev, is_owner = own\<rparr> (contract_result_new st)) then v else s)"
proof -
  let ?r = "cb \<lparr>event = ev, is_owner = own\<rparr> (contract_result_new st)"
  obtain ram cores where rt: "cr_limits rt = build ram cores" "wl_max_single_alloc (build ram cores) \<le> cap"
    and module: "dm_memory dm \<le> 4194304" "dm_table dm \<le> wl_max_table_elements (build ram cores)"
    and cheap: "\<And>cx args. length (mm_memory cx) \<le> 12 + 3 * L \<Longrightarrow>
      dm_peak dm cx args \<le> wl_memory_size (build ram cores) \<and> dm_fuel dm cx args \<le> MAX_FUEL"
    and runs: "runs_main wt wo fits ext sd cb dm rt modl"
    using node by (auto simp: fleet_node_def)
  obtain sb ib eb where vec: "json_to_vec js s = Inr sb" "json_to_vec js i = Inr ib" "json_to_vec js e = Inr eb"
    and len: "length sb \<le> L" "length ib \<le> L" "length eb \<le> L"
    using st(2) ev by (auto simp: state_json_def event_json_def)
  note ans = answer [OF st(2) ev vec ser(1)]
  have caps: "1048576 \<le> wl_max_single_alloc (build ram cores)" "3145728 \<le> wl_max_total_memory (build ram cores)"
    using ram_steps_bounds [of ram] by (simp_all add: build_fields)
  have "length (crd_error (result_data ?r b)) \<le> L"
    using error_size [OF st(1), of ev own] by (auto simp: result_data_def ERR_EVENT_REJECTED_def)
  then obtain bytes where bytes: "borsh_result_ser ext (result_data ?r b) = Inr bytes" "length bytes \<le> 2 * L + 9"
    using result_size [of "result_data ?r b"] ser(2) by auto
  have fits: "\<forall>x \<in> {sb, ib, eb}. 4 + length x \<le> wl_max_single_alloc (build ram cores)"
      "length bytes \<le> wl_max_single_alloc (build ram cores)"
      "12 + length sb + length ib + length eb + length bytes \<le> wl_max_total_memory (build ram cores)"
    using len bytes(2) smallest_node caps by auto
  have fin: "json_from_slice js (crd_final_state (result_data ?r b)) = Inr v" using ser(3) by simp
  have "dm_peak dm m [sp, ip, ep, o'] \<le> wl_memory_size (build ram cores) \<and> dm_fuel dm m [sp, ip, ep, o'] \<le> MAX_FUEL"
    if g: "generate_execution_context js s i e (build ram cores) = Ok (m, sp, ip, ep)" for m sp ip ep o'
  proof (rule cheap)
    obtain sb' ib' eb' where "json_to_vec js s = Inr sb'" "json_to_vec js i = Inr ib'" "json_to_vec js e = Inr eb'"
      "staged m (1024 * 1024 * ram_steps ram) sp sb' ip ib' ep eb'" using g by (rule staging_facts)
    then show "length (mm_memory m) \<le> 12 + 3 * L" using vec len by (simp add: staged_def)
  qed
  from execute_affordable [OF codec laws runs rt module vec fits(1) ans [symmetric] bytes(1) fits(2,3) fin this, of po t]
  show ?thesis by (auto simp: ledger_step_def)
qed

text \<open>One event: the new value stands for the new state, and no node gets another one.\<close>

lemma ledger_step_refines:
  assumes "wasm_laws wo cap fits" and "good st" and "state_json js sd L i s st" and "event_json js sd L e ev"
  obtains s' where "state_json js sd L i s' (apply_event cb st (ev, own))"
    and "\<And>rt. fleet_node wt wo cap fits ext sd cb L dm modl rt \<Longrightarrow> ledger_step wt po ext js t modl i s (rt, e, own) = s'"
proof -
  let ?r = "cb \<lparr>event = ev, is_owner = own\<rparr> (contract_result_new st)"
  obtain b v b' where ser: "json_state_ser sd (state ?r) = Inr b" "length b \<le> L" "json_from_slice js b = Inr v"
    and trip: "json_to_vec js v = Inr b'" "length b' \<le> L" "json_state_de sd b' = Inr (state ?r)"
    using state_round_trip [OF good_step [OF assms(2)]] by blast
  have "state_json js sd L i v (state ?r)" using trip assms(3) by (auto simp: state_json_def)
  with assms(3) have "state_json js sd L i (if success ?r then v else s) (apply_event cb st (ev, own))"
    by (simp add: apply_event_def Let_def)
  with node_executes [OF assms(1) _ assms(2-4) ser] show thesis using that by blast
qed

lemma ledger_run_refines:
  assumes laws: "wasm_laws wo cap fits" and "good st" and "state_json js sd L i s st"
    and "list_all2 (\<lambda>(rt, e, own) (ev, own'). own' = own \<and> event_json js sd L e ev \<and>
      fleet_node wt wo cap fits ext sd cb L dm modl rt) hist evs"
    and "map snd hist' = map snd hist" and "\<forall>(rt, _) \<in> set hist'. fleet_node wt wo cap fits ext sd cb L dm modl rt"
  shows "state_json js sd L i (ledger_run wt po ext js t modl i s hist) (apply_events cb st evs) \<and>
    ledger_run wt po ext js t modl i s hist' = ledger_run wt po ext js t modl i s hist"
  using assms(4,2,3,5,6)
proof (induction arbitrary: st s hist' rule: list_all2_induct)
  case Nil
  then show ?case by (simp add: ledger_run_def apply_events_def)
next
  case (Cons x hist y evs)
  obtain rt e own ev where x: "x = (rt, e, own)" and y: "y = (ev, own)"
    and ev: "event_json js sd L e ev" and node: "fleet_node wt wo cap fits ext sd cb L dm modl rt"
    using Cons.hyps(1) by (cases x; cases y) auto
  obtain rt' rest where hist': "hist' = (rt', e, own) # rest" "map snd rest = map snd hist"
    using Cons.prems(3) x by (cases hist') auto
  obtain s' where s': "state_json js sd L i s' (apply_event cb st (ev, own))"
    and step: "\<And>rt. fleet_node wt wo cap fits ext sd cb L dm modl rt \<Longrightarrow> ledger_step wt po ext js t modl i s (rt, e, own) = s'"
    using ledger_step_refines [OF laws Cons.prems(1,2) ev] by blast
  have "ledger_step wt po ext js t modl i s x = s'" "ledger_step wt po ext js t modl i s (rt', e, own) = s'"
    using step node Cons.prems(4) x hist'(1) by auto
  moreover have "\<forall>(rt, _) \<in> set rest. fleet_node wt wo cap fits ext sd cb L dm modl rt" using Cons.prems(4) hist'(1) by auto
  ultimately show ?case
    using Cons.IH [OF good_apply_event [OF Cons.prems(1)] s' hist'(2)]
    by (simp add: ledger_run_def apply_events_def hist'(1) y)
qed

end

section \<open>The example contract fits\<close>

lemma example_error_size:
  "length (error (contract_logic \<lparr>event = ev, is_owner = own\<rparr> (contract_result_new st))) + 30 \<le> 200"
  by (cases ev) (simp_all add: contract_logic_simps)

interpretation example_fleet: fleet_contract ref_ext raw_json ref_serde contract_logic "\<lambda>_. True" 200
proof (unfold_locales, goal_cases)
  case (2 d)
  then show ?case by (simp add: ref_ext_def ref_result_ser_def enc_bool_def)
next
  case (3 st)
  show ?case by (intro exI [of _ "state_payload st"]) (simp add: raw_json_def)
qed (simp_all add: codec_laws_ref_ext example_error_size)

section \<open>Properties\<close>

text \<open>
  (C2) A ledger over the whole stack: starting from a value that stands for a state, or that does
  not parse while the initial value does, executing any sequence of events through the runtime,
  each on any node of the fleet, leaves a value that stands for the fold of the contract's logic
  over the events, rejected ones skipped. Executing the same events on other nodes, whatever their
  memory and cores, leaves the very same value. The contract needs codecs that round-trip its
  states and payloads of at most 500000 bytes, which fit the smallest machine, and a module whose
  calls on such payloads stay within the fuel budget and the memory limit of every node used.
\<close>

theorem ledger_end_to_end:
  assumes "fleet_contract ext js sd cb good L" and "wasm_laws wo cap fits"
    and "good st" and "state_json js sd L i s st"
    and "list_all2 (\<lambda>(rt, e, own) (ev, own'). own' = own \<and> event_json js sd L e ev \<and>
      fleet_node wt wo cap fits ext sd cb L dm modl rt) hist evs"
    and "map snd hist' = map snd hist" and "\<forall>(rt, _) \<in> set hist'. fleet_node wt wo cap fits ext sd cb L dm modl rt"
  shows "state_json js sd L i (ledger_run wt po ext js t modl i s hist) (apply_events cb st evs) \<and>
    ledger_run wt po ext js t modl i s hist' = ledger_run wt po ext js t modl i s hist"
  using assms by (rule fleet_contract.ledger_run_refines)

lemma linked_fleet_node:
  assumes "cr_limits rt = build ram cores" and "512 \<le> ram" and "ram < 1024" and "cores < 2 ^ 56"
  shows "fleet_node linked_wasmtime list_ops 1048576 (\<lambda>w. 16 + 1048576 \<le> length w) ref_ext ref_serde contract_logic
    200 light modl rt"
proof -
  have "ram div 512 = 1" using assms(2,3) by simp
  then have "wl_max_single_alloc (build ram cores) = 1048576" "1114112 \<le> wl_memory_size (build ram cores)"
    by (simp_all add: build_fields ram_steps_def clamp_def)
  moreover have "dm_peak light cx args = 1114112" "dm_fuel light cx args \<le> MAX_FUEL" for cx args
    by (simp_all add: light_def MAX_FUEL_def)
  ultimately show ?thesis
    using assms(1) light_fits(1) [OF assms(4)] unfolding fleet_node_def
    by (intro conjI exI [of _ ram] exI [of _ cores] linked_runs_main) simp_all
qed

theorem ledger_end_to_end_witness:
  "\<exists>v. ledger_run linked_wasmtime ref_prom ref_ext raw_json 0 \<lparr>cm_module = ()\<rparr> (state_payload \<lparr>one = 1, two = 2, three = 3\<rparr>)
       [] [(ref_runtime, [5], False), (ref_runtime\<lparr>cr_limits := build 700 64\<rparr>, [5], True)] = v \<and>
     ledger_run linked_wasmtime ref_prom ref_ext raw_json 0 \<lparr>cm_module = ()\<rparr> (state_payload \<lparr>one = 1, two = 2, three = 3\<rparr>)
       [] [(ref_runtime\<lparr>cr_limits := build 600 16\<rparr>, [5], False), (ref_runtime, [5], True)] = v \<and>
     state_json raw_json ref_serde 200 (state_payload \<lparr>one = 1, two = 2, three = 3\<rparr>) v \<lparr>one = 0, two = 0, three = 0\<rparr>"
proof -
  let ?i = "state_payload \<lparr>one = 1, two = 2, three = 3\<rparr>"
  note node = linked_fleet_node [of ref_runtime 512 2] linked_fleet_node [of "ref_runtime\<lparr>cr_limits := build 700 64\<rparr>" 700 64]
    linked_fleet_node [of "ref_runtime\<lparr>cr_limits := build 600 16\<rparr>" 600 16]
  have lim: "cr_limits ref_runtime = build 512 2" by (simp add: ref_runtime_def)
  have st: "state_json raw_json ref_serde 200 ?i [] \<lparr>one = 1, two = 2, three = 3\<rparr>"
    by (simp add: state_json_def raw_json_def)
  have ev: "event_json raw_json ref_serde 200 [5] ResetAll"
    by (simp add: event_json_def raw_json_def)
  have evs: "apply_events contract_logic \<lparr>one = 1, two = 2, three = 3\<rparr> [(ResetAll, False), (ResetAll, True)] =
      \<lparr>one = 0, two = 0, three = 0\<rparr>"
    by (simp add: apply_events_def apply_event_example permitted_def)
  show ?thesis
    using ledger_end_to_end [OF example_fleet.fleet_contract_axioms wasm_laws_list [of 1048576] TrueI st,
        where hist = "[(ref_runtime, [5], False), (ref_runtime\<lparr>cr_limits := build 700 64\<rparr>, [5], True)]"
          and hist' = "[(ref_runtime\<lparr>cr_limits := build 600 16\<rparr>, [5], False), (ref_runtime, [5], True)]"
          and evs = "[(ResetAll, False), (ResetAll, True)]" and po = ref_prom and t = 0
          and wt = linked_wasmtime and dm = light and modl = "\<lparr>cm_module = ()\<rparr>"] node ev
    by (simp add: evs lim)
qed

end
