(* ===== verification/Ave_Serving.thy ===== *)
theory Ave_Serving
  imports Ave_Runtime
begin

text \<open>
  A runtime that serves a sequence of requests with \<open>ContractRuntime::execute\<close>, its metrics threaded
  from one execution to the next. The metrics are shown to be a tally of the outcomes, under the laws
  of counters and histograms (\<open>prom_laws\<close>), and not to influence them.
\<close>

section \<open>Requests\<close>

text \<open>A request to a runtime, with the time its execution takes, and the runtime serving a list of
  them: the outcomes in order, and the runtime with its metrics afterwards.\<close>

record ('m, 'v) request =
  rq_module :: "'m compiled_module"
  rq_state :: 'v
  rq_init :: 'v
  rq_event :: 'v
  rq_owner :: bool
  rq_elapsed :: real

definition serve ::
    "('e, 'l, 'm, 's, 'i, 'f) wasmtime \<Rightarrow> ('c, 'h) prom_ops \<Rightarrow> sdk_ext \<Rightarrow> 'v json \<Rightarrow>
     ('e, 'l, 'c, 'h) contract_runtime \<Rightarrow> ('m, 'v) request \<Rightarrow>
     ('v execution_result \<times> execution_stats, runtime_error) outcome \<times> ('e, 'l, 'c, 'h) contract_runtime" where
  "serve wt po ext js rt q =
     execute wt po ext js (rq_elapsed q) rt (rq_module q) (rq_state q) (rq_init q) (rq_event q) (rq_owner q)"

definition serve_all ::
    "('e, 'l, 'm, 's, 'i, 'f) wasmtime \<Rightarrow> ('c, 'h) prom_ops \<Rightarrow> sdk_ext \<Rightarrow> 'v json \<Rightarrow>
     ('e, 'l, 'c, 'h) contract_runtime \<Rightarrow> ('m, 'v) request list \<Rightarrow>
     ('v execution_result \<times> execution_stats, runtime_error) outcome list \<times> ('e, 'l, 'c, 'h) contract_runtime" where
  "serve_all wt po ext js rt qs =
     foldl (\<lambda>(rs, rt) q. case serve wt po ext js rt q of (r, rt') \<Rightarrow> (rs @ [r], rt')) ([], rt) qs"

text \<open>One execution, as far as the metrics see it: the label of its outcome, and the fuel and memory
  recorded if the call was reached.\<close>

lemma execute_seen:
  assumes lim: "cr_limits rt = build ram cores" and m: "cr_metrics rt = Some m"
    and ex: "execute wt po ext js t rt modl s i e own = (r, rt')"
  obtains m' seen label where "cr_metrics rt' = Some m'" and "cr_limits rt' = build ram cores" and "r \<noteq> Panic"
    and "label = (case r of Ok (res, _) \<Rightarrow> if er_success res then ''accepted'' else ''rejected'' | _ \<Rightarrow> ''error'')"
    and "contract_executions m' = counters_inc po (contract_executions m) \<lparr>cel_result = label\<rparr>"
    and "contract_execution_seconds m' = histograms_observe po (contract_execution_seconds m) \<lparr>cel_result = label\<rparr> t"
    and "contract_fuel_exhausted_total m' =
      (if \<exists>n. r = Err (OutOfFuel n) then counters_inc po (contract_fuel_exhausted_total m) \<lparr>cel_result = ''error''\<rparr>
       else contract_fuel_exhausted_total m)"
    and "contract_fuel_consumed m' = (case seen of None \<Rightarrow> contract_fuel_consumed m
      | Some (l, x, y) \<Rightarrow> histograms_observe po (contract_fuel_consumed m) \<lparr>cel_result = l\<rparr> x)"
    and "contract_memory_peak_bytes m' = (case seen of None \<Rightarrow> contract_memory_peak_bytes m
      | Some (l, x, y) \<Rightarrow> histograms_observe po (contract_memory_peak_bytes m) \<lparr>cel_result = l\<rparr> y)"
    and "\<And>l x y. seen = Some (l, x, y) \<Longrightarrow> l \<in> {''success'', ''error''} \<and> x \<le> 10000000"
    and "\<And>res stats. r = Ok (res, stats) \<Longrightarrow> \<exists>x y. seen = Some (''success'', x, y)"
    and "\<And>n. r = Err (OutOfFuel n) \<Longrightarrow> \<exists>x y. seen = Some (''error'', x, y)"
proof -
  let ?x = "execute_inner wt po ext js rt modl s i e own"
  have np: "fst ?x \<noteq> Panic" using execute_inner_no_panic [OF lim] .
  have r: "r = fst ?x" and rt': "cr_limits rt' = build ram cores"
    using ex lim by (auto simp: execute_result [OF np])
  let ?seen = "case prepared_call wt js rt modl s i e own of
      Ok (inst, c, st) \<Rightarrow> Some (if isl c then ''error'' else ''success'',
        real (10000000 - unwrap_or (wt_get_fuel wt st) 0), u64_as_f64 (memory_peak (wt_memory_pages wt inst st)))
    | _ \<Rightarrow> None"
  note rec = execute_records [OF lim m, where wt = wt and po = po and ext = ext and js = js and t = t and modl = modl
      and s = s and i = i and e = e and own = own, unfolded ex prod.case]
  obtain m' where m': "cr_metrics rt' = Some m'"
    and label: "contract_executions m' = counters_inc po (contract_executions m)
      \<lparr>cel_result = case r of Ok (res, _) \<Rightarrow> if er_success res then ''accepted'' else ''rejected'' | _ \<Rightarrow> ''error''\<rparr>"
      "contract_execution_seconds m' = histograms_observe po (contract_execution_seconds m)
      \<lparr>cel_result = case r of Ok (res, _) \<Rightarrow> if er_success res then ''accepted'' else ''rejected'' | _ \<Rightarrow> ''error''\<rparr> t"
    and oof: "contract_fuel_exhausted_total m' =
      (if \<exists>n. r = Err (OutOfFuel n) then counters_inc po (contract_fuel_exhausted_total m) \<lparr>cel_result = ''error''\<rparr>
       else contract_fuel_exhausted_total m)"
    and fuel: "contract_fuel_consumed m' = (case ?seen of None \<Rightarrow> contract_fuel_consumed m
      | Some (l, x, y) \<Rightarrow> histograms_observe po (contract_fuel_consumed m) \<lparr>cel_result = l\<rparr> x)"
    and mem: "contract_memory_peak_bytes m' = (case ?seen of None \<Rightarrow> contract_memory_peak_bytes m
      | Some (l, x, y) \<Rightarrow> histograms_observe po (contract_memory_peak_bytes m) \<lparr>cel_result = l\<rparr> y)"
    using rec by (cases "prepared_call wt js rt modl s i e own") (auto split: prod.splits)
  show thesis
  proof (rule that [OF m' rt' _ refl label oof fuel mem])
    show "r \<noteq> Panic" using np r by simp
    show "\<exists>x y. ?seen = Some (''success'', x, y)" if "r = Ok (res, stats)" for res stats
      using execute_inner_Ok [of wt po ext js rt modl s i e own res stats] that r by auto
    show "\<exists>x y. ?seen = Some (''error'', x, y)" if "r = Err (OutOfFuel n)" for n
      using execute_inner_OutOfFuel [OF lim, of wt po ext js modl s i e own n] that r by auto
    show "l \<in> {''success'', ''error''} \<and> x \<le> 10000000" if "?seen = Some (l, x, y)" for l x y
      using that by (auto split: outcome.splits prod.splits)
  qed
qed

section \<open>The metrics as a tally\<close>

text \<open>What the metrics say of the outcomes recorded so far.\<close>

definition tallies ::
    "('c \<Rightarrow> contract_execution_labels \<Rightarrow> nat) \<Rightarrow> ('h \<Rightarrow> contract_execution_labels \<Rightarrow> nat) \<Rightarrow>
     ('h \<Rightarrow> contract_execution_labels \<Rightarrow> real \<Rightarrow> nat) \<Rightarrow> ('h \<Rightarrow> real set) \<Rightarrow> ('c, 'h) contract_metrics \<Rightarrow>
     ('v execution_result \<times> execution_stats, runtime_error) outcome list \<Rightarrow> bool" where
  "tallies cnt obs le bounds m rs \<longleftrightarrow>
     cnt (contract_executions m) \<lparr>cel_result = ''accepted''\<rparr> =
       length (filter (\<lambda>r. \<exists>res stats. r = Ok (res, stats) \<and> er_success res) rs) \<and>
     cnt (contract_executions m) \<lparr>cel_result = ''rejected''\<rparr> =
       length (filter (\<lambda>r. \<exists>res stats. r = Ok (res, stats) \<and> \<not> er_success res) rs) \<and>
     cnt (contract_executions m) \<lparr>cel_result = ''error''\<rparr> = length (filter (\<lambda>r. \<exists>e. r = Err e) rs) \<and>
     cnt (contract_executions m) \<lparr>cel_result = ''accepted''\<rparr> + cnt (contract_executions m) \<lparr>cel_result = ''rejected''\<rparr> +
       cnt (contract_executions m) \<lparr>cel_result = ''error''\<rparr> = length rs \<and>
     (\<forall>l. cnt (contract_executions m) l \<le> length rs \<and>
        obs (contract_execution_seconds m) l = cnt (contract_executions m) l) \<and>
     cnt (contract_fuel_exhausted_total m) \<lparr>cel_result = ''error''\<rparr> =
       length (filter (\<lambda>r. \<exists>n. r = Err (OutOfFuel n)) rs) \<and>
     (\<forall>l. obs (contract_memory_peak_bytes m) l = obs (contract_fuel_consumed m) l \<and>
        obs (contract_fuel_consumed m) l \<le> length rs \<and>
        le (contract_fuel_consumed m) l 10000000 = obs (contract_fuel_consumed m) l) \<and>
     10000000 \<in> bounds (contract_fuel_consumed m) \<and>
     obs (contract_fuel_consumed m) \<lparr>cel_result = ''success''\<rparr> + obs (contract_fuel_consumed m) \<lparr>cel_result = ''error''\<rparr>
       \<le> length rs \<and>
     cnt (contract_executions m) \<lparr>cel_result = ''accepted''\<rparr> + cnt (contract_executions m) \<lparr>cel_result = ''rejected''\<rparr>
       \<le> obs (contract_fuel_consumed m) \<lparr>cel_result = ''success''\<rparr> \<and>
     cnt (contract_fuel_exhausted_total m) \<lparr>cel_result = ''error''\<rparr>
       \<le> obs (contract_fuel_consumed m) \<lparr>cel_result = ''error''\<rparr>"

lemma tallies_new: "prom_laws po cnt obs le bounds \<Longrightarrow> tallies cnt obs le bounds (metrics_new po) []"
  by (simp add: tallies_def metrics_new_def prom_lawsD fuel_buckets_def)

lemma tallies_step:
  assumes laws: "prom_laws po cnt obs le bounds" and "tallies cnt obs le bounds m rs"
    and len: "length rs + 1 < 2 ^ 64"
    and lim: "cr_limits rt = build ram cores" and m: "cr_metrics rt = Some m"
    and ex: "execute wt po ext js t rt modl s i e own = (r, rt')"
  shows "\<exists>m'. cr_metrics rt' = Some m' \<and> cr_limits rt' = build ram cores \<and> tallies cnt obs le bounds m' (rs @ [r])"
proof (rule execute_seen [OF lim m ex])
  fix m' seen label
  assume m': "cr_metrics rt' = Some m'" "cr_limits rt' = build ram cores" "r \<noteq> Panic"
    and label: "label = (case r of Ok (res, _) \<Rightarrow> if er_success res then ''accepted'' else ''rejected'' | _ \<Rightarrow> ''error'')"
    and ce: "contract_executions m' = counters_inc po (contract_executions m) \<lparr>cel_result = label\<rparr>"
    and cs: "contract_execution_seconds m' = histograms_observe po (contract_execution_seconds m) \<lparr>cel_result = label\<rparr> t"
    and oof: "contract_fuel_exhausted_total m' =
      (if \<exists>n. r = Err (OutOfFuel n) then counters_inc po (contract_fuel_exhausted_total m) \<lparr>cel_result = ''error''\<rparr>
       else contract_fuel_exhausted_total m)"
    and fuel: "contract_fuel_consumed m' = (case seen of None \<Rightarrow> contract_fuel_consumed m
      | Some (l, x, y) \<Rightarrow> histograms_observe po (contract_fuel_consumed m) \<lparr>cel_result = l\<rparr> x)"
    and mem: "contract_memory_peak_bytes m' = (case seen of None \<Rightarrow> contract_memory_peak_bytes m
      | Some (l, x, y) \<Rightarrow> histograms_observe po (contract_memory_peak_bytes m) \<lparr>cel_result = l\<rparr> y)"
    and seen: "\<And>l x y. seen = Some (l, x, y) \<Longrightarrow> l \<in> {''success'', ''error''} \<and> x \<le> 10000000"
      "\<And>res stats. r = Ok (res, stats) \<Longrightarrow> \<exists>x y. seen = Some (''success'', x, y)"
      "\<And>n. r = Err (OutOfFuel n) \<Longrightarrow> \<exists>x y. seen = Some (''error'', x, y)"
  note old = assms(2) [unfolded tallies_def]
  have small: "cnt (contract_executions m) l \<le> length rs" "obs (contract_execution_seconds m) l \<le> length rs"
    "obs (contract_fuel_consumed m) l \<le> length rs" "obs (contract_memory_peak_bytes m) l \<le> length rs"
    "cnt (contract_fuel_exhausted_total m) \<lparr>cel_result = ''error''\<rparr> \<le> length rs" for l
    using old by (simp_all add: length_filter_le)
  have room: "cnt (contract_executions m) l + 1 < 2 ^ 64" "obs (contract_execution_seconds m) l + 1 < 2 ^ 64"
    "obs (contract_fuel_consumed m) l + 1 < 2 ^ 64" "obs (contract_memory_peak_bytes m) l + 1 < 2 ^ 64"
    "cnt (contract_fuel_exhausted_total m) \<lparr>cel_result = ''error''\<rparr> + 1 < 2 ^ 64" for l
    using small(1-4) [of l] small(5) len by simp_all
  note inc = prom_lawsD(2) [OF laws, OF room(1)] prom_lawsD(2) [OF laws, OF room(5)] prom_lawsD(4) [OF laws]
    prom_lawsD(7) [OF laws, OF room(2)] prom_lawsD(7) [OF laws, OF room(3)] prom_lawsD(7) [OF laws, OF room(4)]
    prom_lawsD(8) [OF laws _ room(3)]
  have "tallies cnt obs le bounds m' (rs @ [r])"
  proof (cases r)
    case (Ok a)
    obtain res stats x y where a: "a = (res, stats)" and s: "seen = Some (''success'', x, y)" "x \<le> 10000000"
      using seen(1,2) Ok by (cases a) blast
    show ?thesis
      using old by (cases "er_success res") (auto simp: tallies_def ce cs oof fuel mem inc label Ok a s le_SucI [OF small(1)] le_SucI [OF small(3)])
  next
    case (Err er)
    show ?thesis
    proof (cases seen)
      case None
      then have "\<And>n. er \<noteq> OutOfFuel n" using seen(3) Err by auto
      then show ?thesis using old by (auto simp: tallies_def ce cs oof fuel mem inc label Err None le_SucI [OF small(1)] le_SucI [OF small(3)])
    next
      case (Some z)
      obtain l x y where z: "z = (l, x, y)" by (cases z)
      then have l: "l = ''success'' \<or> l = ''error''" "x \<le> 10000000" and o: "\<And>n. er = OutOfFuel n \<Longrightarrow> l = ''error''"
        using seen Some Err by auto
      show ?thesis
        using old l o by (cases "\<exists>n. er = OutOfFuel n") (auto simp: tallies_def ce cs oof fuel mem inc label Err Some z le_SucI [OF small(1)] le_SucI [OF small(3)])
    qed
  next
    case Panic
    with m' show ?thesis by simp
  qed
  with m' show ?thesis by blast
qed

lemma serve_all_snoc:
  "serve_all wt po ext js rt (qs @ [q]) =
     (case serve_all wt po ext js rt qs of (rs, rt1) \<Rightarrow>
        case serve wt po ext js rt1 q of (r, rt2) \<Rightarrow> (rs @ [r], rt2))"
  by (simp add: serve_all_def split: prod.splits)

lemma serve_all_tallies:
  assumes laws: "prom_laws po cnt obs le bounds" and "cr_limits rt = build ram cores"
    and "cr_metrics rt = Some (metrics_new po)" and "length qs < 2 ^ 64"
    and "serve_all wt po ext js rt qs = (rs, rt')"
  shows "length rs = length qs \<and> (\<exists>m. cr_metrics rt' = Some m \<and> cr_limits rt' = build ram cores \<and>
    tallies cnt obs le bounds m rs)"
  using assms(4,5)
proof (induction qs arbitrary: rs rt' rule: rev_induct)
  case Nil
  then show ?case using assms(2,3) tallies_new [OF laws] by (simp add: serve_all_def)
next
  case (snoc q qs)
  obtain rs1 rt1 r where all: "serve_all wt po ext js rt qs = (rs1, rt1)"
    and q: "serve wt po ext js rt1 q = (r, rt')" and rs: "rs = rs1 @ [r]"
    using snoc.prems(2) by (auto simp: serve_all_snoc split: prod.splits)
  from snoc.IH [OF _ all] snoc.prems(1) obtain m where
    m: "length rs1 = length qs" "cr_metrics rt1 = Some m" "cr_limits rt1 = build ram cores" "tallies cnt obs le bounds m rs1"
    by auto
  have "length rs1 + 1 < 2 ^ 64" using snoc.prems(1) m(1) by simp
  from tallies_step [OF laws m(4) this m(3,2) q [unfolded serve_def]] rs m(1) show ?case by auto
qed

text \<open>Metrics observe and do not influence: an outcome depends on the engine, limits and linker only.\<close>

lemma finish_call_unobserved:
  "fst (finish_call wt po ext js ms inst called) = fst (finish_call wt po ext js ms' inst called)"
  by (simp add: finish_call_def Let_def)

lemma execute_unobserved:
  assumes "cr_limits rt = build ram cores" and "cr_engine rt' = cr_engine rt" and "cr_limits rt' = cr_limits rt"
    and "cr_linker rt' = cr_linker rt"
  shows "fst (execute wt po ext js t rt' modl s i e own) = fst (execute wt po ext js t rt modl s i e own)"
proof -
  have "prepared_call wt js rt' modl s i e own = prepared_call wt js rt modl s i e own"
    by (simp add: prepared_call_def prepare_store_def instantiate_def assms(2-4))
  then have "fst (execute_inner wt po ext js rt' modl s i e own) = fst (execute_inner wt po ext js rt modl s i e own)"
    by (auto simp: execute_inner_def finish_call_unobserved [of _ _ _ _ "cr_metrics rt'" _ _ "cr_metrics rt"]
        split: outcome.split)
  then show ?thesis
    using assms(1,3) by (simp add: execute_result execute_inner_no_panic)
qed

lemma execute_keeps_rest:
  assumes "execute wt po ext js t rt modl s i e own = (r, rt')"
  shows "cr_engine rt' = cr_engine rt \<and> cr_limits rt' = cr_limits rt \<and> cr_linker rt' = cr_linker rt"
  using assms by (auto simp: execute_def split: prod.splits outcome.splits)

lemma serve_all_outcomes:
  assumes lim: "cr_limits rt = build ram cores" and "serve_all wt po ext js rt qs = (rs, rt')"
  shows "rs = map (\<lambda>q. fst (serve wt po ext js rt q)) qs \<and>
    cr_engine rt' = cr_engine rt \<and> cr_limits rt' = cr_limits rt \<and> cr_linker rt' = cr_linker rt"
  using assms(2)
proof (induction qs arbitrary: rs rt' rule: rev_induct)
  case Nil
  then show ?case by (simp add: serve_all_def)
next
  case (snoc q qs)
  obtain rs1 rt1 r where all: "serve_all wt po ext js rt qs = (rs1, rt1)"
    and q: "serve wt po ext js rt1 q = (r, rt')" and rs: "rs = rs1 @ [r]"
    using snoc.prems by (auto simp: serve_all_snoc split: prod.splits)
  note IH = snoc.IH [OF all]
  have "fst (serve wt po ext js rt1 q) = fst (serve wt po ext js rt q)"
    using IH unfolding serve_def by (intro execute_unobserved [OF lim]) simp_all
  with IH rs q execute_keeps_rest [OF q [unfolded serve_def]] show ?case by auto
qed

section \<open>Properties\<close>

text \<open>
  (C39) The metrics of a runtime that serves any sequence of requests, starting from new ones. The
  outcomes are those the requests have on their own, so metrics and order do not influence them.
  The execution counter has the number of accepted, rejected and failed executions under its three
  labels, and they add up to the number of requests; as many durations were recorded under each
  label. The counter of exhausted fuel has the number of \<open>OutOfFuel\<close> outcomes. Fuel and memory were
  recorded together and at most once per request, at least once as \<open>success\<close> for every result and
  as \<open>error\<close> for every exhaustion, and every fuel observation is in the buckets up to the budget.
\<close>

theorem executions_counted:
  assumes "prom_laws po cnt obs le bounds" and "cr_limits rt = build ram cores"
    and "cr_metrics rt = Some (metrics_new po)" and "length qs < 2 ^ 64"
    and "serve_all wt po ext js rt qs = (rs, rt')"
  shows "rs = map (\<lambda>q. fst (serve wt po ext js rt q)) qs \<and>
    (\<exists>m. cr_metrics rt' = Some m \<and>
      (let runs = (\<lambda>l. cnt (contract_executions m) \<lparr>cel_result = l\<rparr>);
           fuel = (\<lambda>l. obs (contract_fuel_consumed m) \<lparr>cel_result = l\<rparr>);
           exhausted = cnt (contract_fuel_exhausted_total m) \<lparr>cel_result = ''error''\<rparr>
       in runs ''accepted'' = length (filter (\<lambda>r. \<exists>res stats. r = Ok (res, stats) \<and> er_success res) rs) \<and>
          runs ''rejected'' = length (filter (\<lambda>r. \<exists>res stats. r = Ok (res, stats) \<and> \<not> er_success res) rs) \<and>
          runs ''error'' = length (filter (\<lambda>r. \<exists>e. r = Err e) rs) \<and>
          runs ''accepted'' + runs ''rejected'' + runs ''error'' = length qs \<and>
          exhausted = length (filter (\<lambda>r. \<exists>n. r = Err (OutOfFuel n)) rs) \<and>
          (\<forall>l. obs (contract_execution_seconds m) \<lparr>cel_result = l\<rparr> = runs l \<and>
             obs (contract_memory_peak_bytes m) \<lparr>cel_result = l\<rparr> = fuel l \<and>
             le (contract_fuel_consumed m) \<lparr>cel_result = l\<rparr> 10000000 = fuel l) \<and>
          fuel ''success'' + fuel ''error'' \<le> length qs \<and>
          runs ''accepted'' + runs ''rejected'' \<le> fuel ''success'' \<and> exhausted \<le> fuel ''error''))"
proof -
  obtain m where m: "cr_metrics rt' = Some m" "tallies cnt obs le bounds m rs" "length rs = length qs"
    using serve_all_tallies [OF assms] by blast
  with serve_all_outcomes [OF assms(2,5)] show ?thesis by (simp add: tallies_def)
qed

theorem executions_counted_witness:
  "\<exists>m. cr_metrics (snd (serve_all hungry_wasmtime ref_prom ref_ext raw_json ref_runtime
       [\<lparr>rq_module = \<lparr>cm_module = ()\<rparr>, rq_state = [1, 2], rq_init = [3], rq_event = [4], rq_owner = True, rq_elapsed = 1\<rparr>])) = Some m \<and>
     contract_fuel_exhausted_total m \<lparr>cel_result = ''error''\<rparr> = 1"
proof -
  let ?q = "\<lparr>rq_module = \<lparr>cm_module = ()\<rparr>, rq_state = [1, 2], rq_init = [3], rq_event = [4], rq_owner = True,
    rq_elapsed = 1\<rparr>"
  have rt: "cr_limits ref_runtime = build 512 2" "cr_metrics ref_runtime = Some (metrics_new ref_prom)"
    by (simp_all add: ref_runtime_def)
  obtain st where "prepared_call hungry_wasmtime raw_json ref_runtime \<lparr>cm_module = ()\<rparr> [1, 2] [3] [4] True =
     Ok ((), Inl (OutOfFuelTrap ''all fuel consumed by WebAssembly''), st)"
    using hungry_prepared by blast
  then have "fst (execute_inner hungry_wasmtime ref_prom ref_ext raw_json ref_runtime \<lparr>cm_module = ()\<rparr> [1, 2] [3] [4] True) =
      Err (OutOfFuel (MAX_FUEL - unwrap_or (wt_get_fuel hungry_wasmtime st) 0))"
    unfolding execute_inner_OutOfFuel [OF rt(1)] by blast
  then have r: "fst (serve hungry_wasmtime ref_prom ref_ext raw_json ref_runtime ?q) =
      Err (OutOfFuel (MAX_FUEL - unwrap_or (wt_get_fuel hungry_wasmtime st) 0))"
    by (simp add: serve_def execute_result)
  obtain rs rt' where all: "serve_all hungry_wasmtime ref_prom ref_ext raw_json ref_runtime [?q] = (rs, rt')"
    by fastforce
  from executions_counted [OF prom_laws_ref rt _ all] r show ?thesis by (auto simp: Let_def all)
qed

end
