(* ===== verification/Ave_Unit_Tests.thy ===== *)
theory Ave_Unit_Tests
  imports Ave_Contracts Ave_Staging "HOL-Library.Sublist"
begin

text \<open>
  The repository's unit tests as executable statements about the model: each test is a boolean
  definition with the assertions of its source, and evaluates to true. They pin the definitions of
  the other theories to the values the repository itself expects of the code: the tests of
  \<open>example\<close>, \<open>example2\<close> and \<open>src/error.rs\<close>, and those of \<open>src/runtime/tests.rs\<close> that do not
  involve an engine. A failed \<open>unwrap\<close> of a test is the value false.
\<close>

section \<open>example\<close>

abbreviation test_state :: example_state where
  "test_state \<equiv> \<lparr>one = 1, two = 2, three = 3\<rparr>"

definition contract_test :: bool where
  "contract_test =
     (let r = contract_logic \<lparr>event = ModOne 100, is_owner = False\<rparr> (contract_result_new test_state)
      in one (state r) = 100 \<and> success r)"

definition contract_test_mod_two :: bool where
  "contract_test_mod_two =
     (let r = contract_logic \<lparr>event = ModTwo 42, is_owner = False\<rparr> (contract_result_new test_state)
      in two (state r) = 42 \<and> success r)"

definition contract_test_mod_three_success :: bool where
  "contract_test_mod_three_success =
     (let r = contract_logic \<lparr>event = ModThree 49, is_owner = False\<rparr> (contract_result_new test_state)
      in three (state r) = 49 \<and> success r)"

definition contract_test_fail :: bool where
  "contract_test_fail =
     (let r = contract_logic \<lparr>event = ModThree 50, is_owner = False\<rparr> (contract_result_new test_state)
      in three (state r) = 3 \<and> error r = ''Can not change three value, 50 is a invalid value'' \<and> \<not> success r)"

definition contract_test_mod_all :: bool where
  "contract_test_mod_all =
     (let r = contract_logic \<lparr>event = ModAll 10 20 30, is_owner = False\<rparr> (contract_result_new test_state)
      in one (state r) = 10 \<and> two (state r) = 20 \<and> three (state r) = 30 \<and> success r)"

definition contract_test_reset_all_owner_only :: bool where
  "contract_test_reset_all_owner_only =
     (let r = contract_logic \<lparr>event = ResetAll, is_owner = False\<rparr> (contract_result_new test_state);
          r' = contract_logic \<lparr>event = ResetAll, is_owner = True\<rparr> (contract_result_new test_state)
      in \<not> success r \<and> one (state r) = 1 \<and>
         success r' \<and> one (state r') = 0 \<and> two (state r') = 0 \<and> three (state r') = 0)"

definition init_test :: bool where
  "init_test = ic_success (init_logic test_state contract_init_check_default)"

lemma example_tests_pass:
  "contract_test" "contract_test_mod_two" "contract_test_mod_three_success" "contract_test_fail"
  "contract_test_mod_all" "contract_test_reset_all_owner_only" "init_test"
  by (simp_all add: contract_test_def contract_test_mod_two_def contract_test_mod_three_success_def
      contract_test_fail_def contract_test_mod_all_def contract_test_reset_all_owner_only_def init_test_def
      contract_logic_simps init_logic_def ic_accept_def)

section \<open>example2\<close>

definition contract_test2 :: bool where
  "contract_test2 =
     (let r = contract_logic2 \<lparr>event = ChangeData ''AveLedger'', is_owner = False\<rparr> (contract_result_new \<lparr>data2 = ''''\<rparr>)
      in data2 (state r) = ''AveLedger'' \<and> success r)"

definition init_test2 :: bool where
  "init_test2 = ic_success (init_logic2 \<lparr>data2 = ''initial''\<rparr> contract_init_check_default)"

lemma example2_tests_pass: "contract_test2" "init_test2"
  by (simp_all add: contract_test2_def init_test2_def contract_logic2_def init_logic2_def accept_def ic_accept_def
      contract_result_new_def Let_def)

section \<open>src/error.rs\<close>

definition test_serialization_error_display :: bool where
  "test_serialization_error_display =
     (error_display (Serialization ''test error message'') = ''Serialization error: test error message'')"

definition test_deserialization_error_display :: bool where
  "test_deserialization_error_display =
     (error_display (Deserialization ''invalid format'') = ''Deserialization error: invalid format'')"

definition test_memory_limit_exceeded_error_display :: bool where
  "test_memory_limit_exceeded_error_display =
     (error_display (MemoryLimitExceeded 20000000 10000000) =
        ''Memory limit exceeded: requested 20000000 bytes, maximum allowed is 10000000 bytes'')"

definition test_host_allocation_failed_error_display :: bool where
  "test_host_allocation_failed_error_display =
     (error_display (HostAllocationFailed 4096) = ''Host allocation failed: could not allocate 4096 bytes'')"

definition test_integer_overflow_error_display :: bool where
  "test_integer_overflow_error_display =
     (error_display (IntegerOverflow ''value too large for u32'') = ''Integer overflow: value too large for u32'')"

definition test_error_as_dyn_error :: bool where
  "test_error_as_dyn_error =
     (let msg = error_display (MemoryLimitExceeded 100 50)
      in sublist ''Memory limit exceeded'' msg \<and> sublist ''100'' msg \<and> sublist ''50'' msg)"

lemma digit_chars:
  "char_of (48 :: nat) = CHR ''0''" "char_of (49 :: nat) = CHR ''1''" "char_of (50 :: nat) = CHR ''2''"
  "char_of (52 :: nat) = CHR ''4''" "char_of (53 :: nat) = CHR ''5''" "char_of (54 :: nat) = CHR ''6''"
  "char_of (57 :: nat) = CHR ''9''"
  by code_simp+

lemma error_tests_pass:
  "test_serialization_error_display" "test_deserialization_error_display"
  "test_memory_limit_exceeded_error_display" "test_host_allocation_failed_error_display"
  "test_integer_overflow_error_display" "test_error_as_dyn_error"
  by (simp_all add: test_serialization_error_display_def test_deserialization_error_display_def
      test_memory_limit_exceeded_error_display_def test_host_allocation_failed_error_display_def
      test_integer_overflow_error_display_def test_error_as_dyn_error_def show_nat.simps digit_chars
      sublist_Cons_right)

section \<open>src/runtime/tests.rs\<close>

definition wasm_limits_build_clamps_values :: bool where
  "wasm_limits_build_clamps_values =
     (let limits = build 4096 4
      in wl_memory_size limits = 32 * 1024 * 1024 \<and> wl_max_table_elements limits = 1024)"

definition wasm_limits_build_uses_lower_clamp :: bool where
  "wasm_limits_build_uses_lower_clamp =
     (let limits = build 256 1
      in wl_memory_size limits = 4 * 1024 * 1024 \<and> wl_max_total_memory limits = 3 * 1024 * 1024 \<and>
         wl_max_table_elements limits = 512)"

definition wasm_limits_default_matches_expected :: bool where
  "wasm_limits_default_matches_expected =
     (wl_memory_size default_limits = wl_memory_size (build 4096 2) \<and> wl_max_table_elements default_limits = 512)"

definition memory_manager_alloc_and_read_write_round_trip :: bool where
  "memory_manager_alloc_and_read_write_round_trip =
     (case obind (alloc default_memory_manager 4) (\<lambda>(ptr, m).
             obind (write_bytes m ptr [1, 2, 3, 4]) (\<lambda>m'. Ok (ptr, m'))) of
        Ok (ptr, m) \<Rightarrow> read_data m ptr = Ok [1, 2, 3, 4] \<and> read_bytes m ptr 4 = Ok [1, 2, 3, 4]
      | _ \<Rightarrow> False)"

definition memory_manager_alloc_too_large_fails :: bool where
  "memory_manager_alloc_too_large_fails =
     (case alloc (from_limits (build 512 2)) (2 * 1024 * 1024) of Err (AllocationTooLarge _ _) \<Rightarrow> True | _ \<Rightarrow> False)"

definition memory_manager_write_out_of_bounds_fails :: bool where
  "memory_manager_write_out_of_bounds_fails =
     (case alloc default_memory_manager 2 of
        Ok (ptr, m) \<Rightarrow> write_bytes m ptr [1, 2, 3, 4] = Err (WriteOutOfBounds 4 2)
      | _ \<Rightarrow> False)"

definition memory_manager_invalid_pointer_fails :: bool where
  "memory_manager_invalid_pointer_fails = (read_data default_memory_manager 9999 = Err (InvalidPointer 9999))"

definition memory_manager_read_data_at_boundary :: bool where
  "memory_manager_read_data_at_boundary =
     (case obind (alloc default_memory_manager 8) (\<lambda>(ptr, m).
             obind (write_bytes m ptr (replicate 8 9)) (\<lambda>m'. Ok (ptr, m'))) of
        Ok (ptr, m) \<Rightarrow>
          read_data m ptr = Ok (replicate 8 9) \<and>
          (case read_data m usize_max of Err (InvalidPointer _) \<Rightarrow> True | _ \<Rightarrow> False)
      | _ \<Rightarrow> False)"

definition memory_manager_write_bytes_at_respects_allocation_bounds :: bool where
  "memory_manager_write_bytes_at_respects_allocation_bounds =
     (case obind (alloc default_memory_manager 8) (\<lambda>(ptr, m).
             obind (write_bytes_at m ptr 0 [1, 2, 3, 4]) (\<lambda>m1.
             obind (write_bytes_at m1 ptr 4 [5, 6, 7, 8]) (\<lambda>m2. Ok (ptr, m2)))) of
        Ok (ptr, m) \<Rightarrow>
          read_data m ptr = Ok [1, 2, 3, 4, 5, 6, 7, 8] \<and>
          (case write_bytes_at m ptr 7 [9, 10] of Err (WriteOutOfBounds _ _) \<Rightarrow> True | _ \<Rightarrow> False) \<and>
          (case write_bytes_at m 9999 0 [1] of Err (InvalidPointer _) \<Rightarrow> True | _ \<Rightarrow> False)
      | _ \<Rightarrow> False)"

definition declared_min_memory_parses_memory_section :: bool where
  "declared_min_memory_parses_memory_section =
     (declared_min_memory_bytes
        [0x00, 0x61, 0x73, 0x6D, 0x01, 0x00, 0x00, 0x00, 0x05, 0x04, 0x01, 0x00, 0xD8, 0x04] =
          Some (600 * WASM_PAGE_BYTES) \<and>
      declared_min_memory_bytes [0x00, 0x61, 0x73, 0x6D, 0x01, 0x00, 0x00, 0x00] = Some 0 \<and>
      declared_min_memory_bytes [0x00, 0x61, 0x73, 0x6D, 0x01, 0x00, 0x00, 0x00, 0x05, 0x04, 0x01] = None)"

definition checked_guest_len_tests :: bool where
  "checked_guest_len_tests =
     (checked_guest_len 0 1024 = Ok 0 \<and> checked_guest_len 1024 1024 = Ok 1024 \<and>
      checked_guest_len (- 1) 1024 = Err (InvalidLength (- 1)) \<and>
      contract_error_display (InvalidLength (- 1)) = ''invalid length: -1'' \<and>
      checked_guest_len 2048 1024 = Err (AllocationTooLarge 2048 1024))"

lemma limits_tests_pass:
  "wasm_limits_build_clamps_values" "wasm_limits_build_uses_lower_clamp" "wasm_limits_default_matches_expected"
  by (simp_all add: wasm_limits_build_clamps_values_def wasm_limits_build_uses_lower_clamp_def
      wasm_limits_default_matches_expected_def default_limits_def build_def Let_def clamp_def saturating_mul_def
      usize_try_from_def unwrap_or_def MIN_FLEET_MEMORY_BYTES_def MAX_MEMORY_BYTES_def usize_max_def
      wrapping_mul_def)

lemmas memory_manager_defs =
  alloc_def write_bytes_def write_bytes_at_def read_data_def read_bytes_def default_memory_manager_def
  default_limits_def from_limits_def checked_add_def saturating_add_def index_range_def copy_range_def usize_max_def
  build_fields ram_steps_def clamp_def Let_def resize_def

lemma memory_manager_tests_pass:
  "memory_manager_alloc_and_read_write_round_trip" "memory_manager_alloc_too_large_fails"
  "memory_manager_write_out_of_bounds_fails" "memory_manager_invalid_pointer_fails"
  "memory_manager_read_data_at_boundary" "memory_manager_write_bytes_at_respects_allocation_bounds"
  by (simp_all add: memory_manager_alloc_and_read_write_round_trip_def memory_manager_alloc_too_large_fails_def
      memory_manager_write_out_of_bounds_fails_def memory_manager_invalid_pointer_fails_def
      memory_manager_read_data_at_boundary_def memory_manager_write_bytes_at_respects_allocation_bounds_def
      memory_manager_defs)

lemma reader_tests_pass: "declared_min_memory_parses_memory_section"
  by (simp add: declared_min_memory_parses_memory_section_def declared_min_memory_bytes_def get_range_def get_at_def
      MAGIC_def WASM_PAGE_BYTES_def scan_sections.simps read_uleb_def read_memory_section_def checked_add_def
      usize_max_def saturating_mul_def)

lemma guest_len_tests_pass: "checked_guest_len_tests"
  by (simp add: checked_guest_len_tests_def checked_guest_len_def i32_as_usize_def show_int_def show_nat.simps
      digit_chars)

definition runtime_error_display_and_invalid_module_kind :: bool where
  "runtime_error_display_and_invalid_module_kind =
     sublist ''module is missing SDK imports: alloc''
       (runtime_error_display (InvalidModule (MissingImports [''alloc''])))"

definition invalid_module_kind_display_wrong_module_and_signature :: bool where
  "invalid_module_kind_display_wrong_module_and_signature =
     (runtime_error_display (InvalidModule (UnexpectedImportModule ''evil'' ''alloc'')) =
        ''invalid module: module imports '' @ quoted ''alloc'' @ '' from '' @ quoted ''evil''
          @ '', expected module '' @ quoted ''env'' \<and>
      runtime_error_display (InvalidModule (InvalidImportSignature ''alloc'' ''(param i32) (result i32)'')) =
        ''invalid module: module imports '' @ quoted ''alloc''
          @ '' with an invalid signature, expected (param i32) (result i32)'' \<and>
      sublist (quoted ''hack'') (runtime_error_display (InvalidModule (UnknownImportFunction ''hack''))) \<and>
      sublist ''memory'' (runtime_error_display (InvalidModule (NonFunctionImport ''memory''))))"

text \<open>The four payloads are the empty one, \<open>{}\<close>, \<open>{"a":[1,2,3]}\<close> and a thousand sevens.\<close>

definition write_contract_data_matches_borsh_encoding :: bool where
  "write_contract_data_matches_borsh_encoding =
     list_all (\<lambda>payload.
       case write_contract_data default_memory_manager payload of
         Ok (ptr, m) \<Rightarrow> read_data m (unat ptr) = Ok (borsh_frame payload)
       | _ \<Rightarrow> False)
     [[], [0x7B, 0x7D], [0x7B, 0x22, 0x61, 0x22, 0x3A, 0x5B, 0x31, 0x2C, 0x32, 0x2C, 0x33, 0x5D, 0x7D],
      replicate 1000 7]"

lemma sublist_middle: "sublist ys (xs @ ys @ zs)"
  by (auto simp: sublist_def)

lemma display_tests_pass:
  "runtime_error_display_and_invalid_module_kind" "invalid_module_kind_display_wrong_module_and_signature"
  using sublist_middle [of "quoted ''hack''"] sublist_middle [of "''memory''"]
  by (simp_all add: runtime_error_display_and_invalid_module_kind_def
      invalid_module_kind_display_wrong_module_and_signature_def quoted_def sublist_Cons_right)

lemma default_manager_stages:
  assumes "length payload \<le> 1000"
  shows "\<exists>ptr m. write_contract_data default_memory_manager payload = Ok (ptr, m) \<and>
    read_data m (unat ptr) = Ok (borsh_frame payload)"
proof -
  obtain ram cores where d: "default_memory_manager = from_limits (build ram cores)"
    by (simp add: default_memory_manager_def default_limits_def)
  have "4 + length payload \<le> 1024 * 1024 * ram_steps ram" "ram_steps ram \<le> 8"
    using assms ram_steps_bounds [of ram] by simp_all
  then obtain p m where w: "write_contract_data (from_limits (build ram cores)) payload = Ok (p, m)"
    using write_contract_data_succeeds [OF mm_inv_build, of payload ram cores] build_caps [of ram cores] by auto
  note v = write_contract_data_view [OF mm_inv_build w] and s = write_contract_data_shape [OF w]
  have "unat p = 0" using s(1) by (simp add: usize_as_u32_def)
  then have "read_data m (unat p) = Ok (borsh_frame payload)" using v by (simp add: read_data_view)
  with w d show ?thesis by auto
qed

lemma staging_test_passes: "write_contract_data_matches_borsh_encoding"
proof -
  have "case write_contract_data default_memory_manager payload of
      Ok (ptr, m) \<Rightarrow> read_data m (unat ptr) = Ok (borsh_frame payload) | _ \<Rightarrow> False" if "length payload \<le> 1000" for payload
    using default_manager_stages [OF that] by auto
  then show ?thesis unfolding write_contract_data_matches_borsh_encoding_def list_all_iff by auto
qed

end
