(* ===== verification/Spec2Isabelle.thy ===== *)
theory Spec2Isabelle
  imports Ave_Scan_Loop Ave_Confinement Ave_Ledger Ave_Serving Ave_Unit_Tests
begin

text \<open>
  Verification of \<open>ave-contract-sdk\<close>: the SDK that WebAssembly contracts are written against and
  the runtime that compiles, validates and executes them.

  \<^bold>\<open>The program.\<close> A contract is a Rust crate that exports \<open>main_function\<close> and
  \<open>init_check_function\<close>. Both call the guest SDK (\<open>src/lib.rs\<close>), which reads the state, the
  initial state and the event from the host, calls the contract's callback and stores a serialised
  answer in host memory. The guest reaches the host through four imported functions
  (\<open>src/externf.rs\<close>); in unit tests a mock host stands in for it. On the other side the runtime
  (\<open>src/runtime/\<close>) derives limits from the machine (\<open>config.rs\<close>), compiles and validates a
  module, stages the arguments in a memory manager (\<open>host.rs\<close>), links the four host functions
  (\<open>generate_linker\<close>), runs the module under fuel and memory limits and decodes the answer
  (\<open>contract_runtime.rs\<close>, \<open>executor.rs\<close>), recording metrics (\<open>metrics.rs\<close>). Three
  example contracts come with it.

  \<^bold>\<open>The theories\<close>, in the order of the dependencies:
  \<^item> \<open>Ave_Prelude\<close>: outcomes of fallible calls, machine integers, slices, decimal text.
  \<^item> \<open>Ave_Errors\<close>: \<open>src/error.rs\<close> and \<open>src/runtime/error.rs\<close>, the error types with
    their texts.
  \<^item> \<open>Ave_Config\<close>: \<open>src/runtime/config.rs\<close>, limits, engine configuration and the reader
    of declared memory; shown against a closed form and against an encoder of the binary format.
  \<^item> \<open>Ave_Scan_Loop\<close>: the same reader with its loops as loops; it returns on every input, after a
    number of iterations bounded by the length of the module.
  \<^item> \<open>Ave_Host_Memory\<close>: \<open>MemoryManager\<close>; tiling invariant, absence of panics, and the
    contract \<open>region_heap\<close> (a map from pointers to contents) that it refines.
  \<^item> \<open>Ave_Linker\<close>: the host functions, their registration, and runs of an arbitrary guest as
    a step relation; isolation, bounds and hostile arguments.
  \<^item> \<open>Ave_Host_Abi\<close>: the contract between guest and host, the locales \<open>host_abi\<close> and
    \<open>host_abi_live\<close>.
  \<^item> \<open>Ave_Sdk\<close>: \<open>src/lib.rs\<close>, with the specification of both entry points as functions
    of the bytes behind the pointers; the refinement is proved once inside \<open>host_abi_live\<close>.
  \<^item> \<open>Ave_Codecs\<close>: the laws relied on of Borsh and \<open>ave_common\<close>, an instance, and
    with them the verdict of \<open>execute_contract\<close> on any lawful host.
  \<^item> \<open>Ave_Contracts\<close>: the three example contracts.
  \<^item> \<open>Ave_Mock_Host\<close>: \<open>src/externf.rs\<close>, first provider of \<open>host_abi_live\<close>
    (interpretation \<open>mock\<close>).
  \<^item> \<open>Ave_Guest_Host\<close>: the production byte-copying wrappers over the linked host functions,
    second provider: the locale \<open>linked_guest\<close> of guests over a lawful linear memory, a
    sublocale of \<open>host_abi_live\<close>, interpreted as \<open>linked\<close> on a byte list; what
    a guest reads through any pointer at all.
  \<^item> \<open>Ave_Staging\<close>: staging of arguments and reading of answers.
  \<^item> \<open>Ave_Validation\<close>: the import gate.
  \<^item> \<open>Ave_Metrics\<close>: the metrics.
  \<^item> \<open>Ave_Runtime\<close>: \<open>ContractRuntime\<close>, what a module demands of a store (\<open>demand\<close>, \<open>admits\<close>), and a
    reference engine that honours the limiter and meters fuel.
  \<^item> \<open>Ave_Serving\<close>: sequences of executions on one runtime, whose metrics tally the outcomes.
  \<^item> \<open>Ave_Stack\<close>: the guest and the runtime together: one call of \<open>execute\<close> or \<open>validate\<close> on a
    module compiled from an SDK contract, followed through all components, and what becomes of an
    answer that exceeds a cap.
  \<^item> \<open>Ave_Confinement\<close>: arbitrary modules under \<open>execute\<close> and \<open>validate\<close>. The locale \<open>confined_engine\<close> is what an
    engine promises of the data in a store; what they read back is traced to a region of a
    memory manager within its limits.
  \<^item> \<open>Ave_Ledger\<close>: sequences of events executed on any nodes of a fleet. The locale
    \<open>fleet_contract\<close> is what a contract needs to fit the smallest node; the ledger computes the
    fold of the contract's logic, alike on all nodes.
  \<^item> \<open>Ave_Unit_Tests\<close>: the repository's unit tests as statements that hold of the model.
  \<^item> this theory: \<open>execute\<close> and \<open>validate\<close> end to end, the example contract through the whole
    stack, and the agreement of validator and linker.

  \<^bold>\<open>Modelling.\<close> A Rust \<open>Result\<close> is an \<open>outcome\<close> whose third value is a panic; where a
  guest function returns a \<open>Result\<close> and may also trap, the result is a sum inside an outcome.
  Values of the ABI are 32-bit words; \<open>usize\<close> and \<open>u64\<close> are natural numbers with 64 bits
  written out where a value could leave them. Mutable state is passed explicitly. Every loop of the
  source is a total function: over lists, or with a termination proof for the scan of module
  sections, which is also given as a \<open>while_option\<close> and shown to return. No definition
  needs fuel to end; the fuel of the engine is data, and what a call burns is a parameter.

  \<^bold>\<open>Parameters.\<close> Code outside the repository is an argument, with what is relied on as a named
  predicate and an instance that satisfies it: Borsh and \<open>ave_common\<close> (\<open>sdk_ext\<close>,
  \<open>codec_laws\<close>), \<open>serde_json\<close> (\<open>serde\<close>, \<open>json\<close>, no laws), the guest's allocator
  and linear memory (\<open>guest_memory_ops\<close>, \<open>wasm_laws\<close>), wasmtime (\<open>wasmtime\<close>;
  \<open>runs_main\<close> and \<open>runs_init\<close> say that in a store whose limits admit the module a call behaves as
  its source if it stays within the store's memory limit and fuel, and traps out of fuel if it burns
  more, \<open>fuel_metered\<close> that running code never adds fuel, \<open>confined_engine\<close> that any module reaches
  the store only through the linked functions),
  \<open>prometheus_client\<close> (\<open>prom_ops\<close>, \<open>prom_laws\<close>). The properties of validation,
  compilation and staging and those of single outcomes hold for every engine; only the exactness of
  the reported fuel needs metering. An engine is a function of its configuration: wasmtime also
  detects features of the host's CPU, so statements about several machines are about one wasmtime
  build on hosts with the same features.

  \<^bold>\<open>Not modelled.\<close> \<open>src/runtime/mod.rs\<close> only re-exports and embeds two templates as text. Tests
  that run real codecs, WAT text or the engine (\<open>src/tests.rs\<close>, \<open>tests/\<close> and part of
  \<open>src/runtime/tests.rs\<close>) are not modelled; what they sample is proved for all inputs. The lines of
  the modelled files that no definition covers are imports, attributes, block ends and
  documentation. The text of a string is a list of
  bytes, so invalid UTF-8 does not arise. Threads do not appear: a runtime call is sequential, and
  the shared metrics are updated atomically per series by their library.
\<close>

section \<open>Host functions as WASM functions\<close>

text \<open>The WASM type of each host function, from the parameters and result of its closure: \<open>i32\<close> and
  \<open>u32\<close> are both \<open>I32\<close>, and a \<open>Result<(), _>\<close> has no result.\<close>

fun host_fn_type :: "host_fn \<Rightarrow> extern_type" where
  "host_fn_type Fn_pointer_len = Func [I32] [I32]"
| "host_fn_type Fn_alloc = Func [I32] [I32]"
| "host_fn_type Fn_read_bytes = Func [I32, I32, I32] []"
| "host_fn_type Fn_write_bytes = Func [I32, I32, I32] []"

section \<open>Properties\<close>

text \<open>
  (C1) End to end: when the runtime of any machine executes a module compiled from an SDK contract,
  the result it returns is the contract's own answer. The module's memory passes the gate of
  \<open>compile\<close> and its table the table limit; the state, initial state and event fit the machine's
  single-allocation cap as framed JSON and the answer fits what is left. Then staging succeeds, and a
  call that stays within the memory limit of the store returns, if it burns at most the budget of
  10,000,000 units, the verdict, error text and final state of the specified answer, computed from
  the three JSON texts with no memory or pointers involved, the owner flag arriving as it was given;
  and if it burns more, \<open>execute\<close> reports \<open>OutOfFuel\<close>.
\<close>

theorem execute_end_to_end:
  assumes "codec_laws ext" and "wasm_laws wo cap fits" and "runs_main wt wo fits ext sd cb dm rt modl"
    and "cr_limits rt = build ram cores" and "wl_max_single_alloc (build ram cores) \<le> cap"
    and "dm_memory dm \<le> 4194304" and "dm_table dm \<le> wl_max_table_elements (build ram cores)"
    and "json_to_vec js s = Inr sb" and "json_to_vec js i = Inr ib" and "json_to_vec js e = Inr eb"
    and "\<forall>b \<in> {sb, ib, eb}. 4 + length b \<le> wl_max_single_alloc (build ram cores)"
    and "answer = event_response ext sd (borsh_frame sb) (borsh_frame ib) (borsh_frame eb)
           (if own then 1 else 0) cb"
    and "borsh_result_ser ext answer = Inr bytes"
    and "length bytes \<le> wl_max_single_alloc (build ram cores)"
    and "12 + length sb + length ib + length eb + length bytes \<le> wl_max_total_memory (build ram cores)"
    and "json_from_slice js (crd_final_state answer) = Inr v"
  shows "\<exists>m sp ip ep. generate_execution_context js s i e (build ram cores) = Ok (m, sp, ip, ep) \<and>
    (let args = [sp, ip, ep, if own then 1 else 0]
     in dm_peak dm m args \<le> wl_memory_size (build ram cores) \<longrightarrow>
        (if dm_fuel dm m args \<le> 10000000
         then \<exists>stats rt'. execute wt po ext js t rt modl s i e own =
           (Ok (\<lparr>er_final_state = v, er_success = crd_success answer, er_error = crd_error answer\<rparr>, stats), rt')
         else \<exists>n rt'. execute wt po ext js t rt modl s i e own = (Err (OutOfFuel n), rt')))"
  using assms by (rule execute_on_contract)

theorem execute_end_to_end_witness:
  "\<exists>stats rt'. execute linked_wasmtime ref_prom ref_ext raw_json 0 ref_runtime \<lparr>cm_module = ()\<rparr>
     (state_payload \<lparr>one = 1, two = 2, three = 3\<rparr>) (state_payload \<lparr>one = 1, two = 2, three = 3\<rparr>) [5] True =
   (Ok (\<lparr>er_final_state = state_payload \<lparr>one = 0, two = 0, three = 0\<rparr>, er_success = True, er_error = ''''\<rparr>, stats), rt')"
proof -
  let ?s = "state_payload \<lparr>one = 1, two = 2, three = 3\<rparr>"
  let ?d = "\<lparr>crd_final_state = state_payload \<lparr>one = 0, two = 0, three = 0\<rparr>, crd_success = True, crd_error = ''''\<rparr>"
  let ?bytes = "borsh_frame (crd_final_state ?d) @ enc_bool True @ borsh_frame []"
  have lim: "cr_limits ref_runtime = build 512 2" by (simp add: ref_runtime_def)
  have n: "wl_max_single_alloc (build 512 2) = 1048576" "wl_max_total_memory (build 512 2) = 3145728"
      "wl_memory_size (build 512 2) = 4194304"
    by (simp_all add: build_fields ram_steps_def clamp_def)
  have js: "json_to_vec raw_json ?s = Inr ?s" "json_to_vec raw_json [5] = Inr [5]"
    by (simp_all add: raw_json_def)
  have ans: "?d = event_response ref_ext ref_serde (borsh_frame ?s) (borsh_frame ?s) (borsh_frame [5])
      (if True then 1 else 0) contract_logic"
    by (simp add: reset_owner_answer)
  have ser: "borsh_result_ser ref_ext ?d = Inr ?bytes"
    by (simp add: ref_ext_def ref_result_ser_def string_bytes_def)
  have fin: "json_from_slice raw_json (crd_final_state ?d) = Inr (crd_final_state ?d)"
    by (simp add: raw_json_def)
  show ?thesis
    using execute_end_to_end [OF codec_laws_ref_ext wasm_laws_list linked_runs_main lim _ _ _ js(1,1,2) _ ans ser _ _ fin,
        where po = ref_prom and t = 0 and modl = "\<lparr>cm_module = ()\<rparr>" and dm = light] light_fits(1) [of 2 512]
    by (auto simp: n enc_bool_def Let_def light_simps)
qed

text \<open>
  (C9) End to end, validation, on any machine: for a module with the SDK's imports that is compiled
  from an SDK contract and fits the machine, and an initial state that fits the single-allocation
  cap, staging succeeds; and if the check stays within the memory limit of the store and the budget
  of 50,000,000 units, \<open>validate\<close> accepts exactly when the JSON parses as the contract's state and
  the contract's check accepts it, and otherwise fails with the error text of the contract's answer.
  A check that burns more is reported as a failed execution.
\<close>

theorem validate_end_to_end:
  assumes "codec_laws ext" and "wasm_laws wo cap fits" and "runs_init wt wo fits ext sd cb dm rt modl"
    and "check_imports iter (wt_imports wt (cm_module modl)) = Ok ()"
    and "cr_limits rt = build ram cores" and "wl_max_single_alloc (build ram cores) \<le> cap"
    and "dm_memory dm \<le> 4194304" and "dm_table dm \<le> wl_max_table_elements (build ram cores)"
    and "json_to_vec js v = Inr b" and "4 + length b \<le> wl_max_single_alloc (build ram cores)"
    and "answer = init_response ext sd (borsh_frame b) cb" and "borsh_init_ser ext answer = Inr bytes"
    and "length bytes \<le> wl_max_single_alloc (build ram cores)"
  shows "\<exists>m. generate_context js v (build ram cores) = Ok (m, 0) \<and>
    (dm_peak dm m [0] \<le> wl_memory_size (build ram cores) \<longrightarrow>
       (if dm_fuel dm m [0] \<le> 50000000
        then validate wt iter ext js rt modl v =
          (if cid_success answer then Ok () else Err (ContractExecutionFailed (cid_error answer)))
        else \<exists>msg. validate wt iter ext js rt modl v = Err (ContractExecutionFailed msg))) \<and>
    (cid_success answer \<longleftrightarrow>
      (\<exists>st. json_state_de sd b = Inr st \<and> ic_success (cb st \<lparr>ic_success = False, ic_error = ''''\<rparr>)))"
  using assms by (rule validate_on_contract)

theorem validate_end_to_end_witness:
  "validate linked_wasmtime (\<lambda>s. filter (\<lambda>f. f \<in> s) SDK_FUNCTIONS) ref_ext raw_json ref_runtime \<lparr>cm_module = ()\<rparr>
     (state_payload \<lparr>one = 1, two = 2, three = 3\<rparr>) = Ok ()"
proof -
  let ?s = "state_payload \<lparr>one = 1, two = 2, three = 3\<rparr>"
  let ?bytes = "enc_bool True @ borsh_frame []"
  have lim: "cr_limits ref_runtime = build 512 2" by (simp add: ref_runtime_def)
  have n: "wl_max_single_alloc (build 512 2) = 1048576" "wl_memory_size (build 512 2) = 4194304"
    by (simp_all add: build_fields ram_steps_def clamp_def)
  have im: "check_imports (\<lambda>s. filter (\<lambda>f. f \<in> s) SDK_FUNCTIONS) (wt_imports linked_wasmtime (cm_module \<lparr>cm_module = ()\<rparr>)) = Ok ()"
    by (subst check_imports_exact) (simp add: ref_wasmtime_def sdk_imports_def SDK_FUNCTIONS_def sdk_import_def)
  have js: "json_to_vec raw_json ?s = Inr ?s" by (simp add: raw_json_def)
  have ans: "init_data_ok ref_ext = init_response ref_ext ref_serde (borsh_frame ?s) init_logic"
    by (simp add: init_response_def init_logic_def ic_accept_def)
  have ser: "borsh_init_ser ref_ext (init_data_ok ref_ext) = Inr ?bytes"
    by (simp add: ref_ext_def ref_init_ser_def string_bytes_def)
  have "cid_success (init_data_ok ref_ext)" by (simp add: ref_ext_def)
  then show ?thesis
    using validate_end_to_end [OF codec_laws_ref_ext wasm_laws_list linked_runs_init im lim _ _ _ js _ ans ser]
      light_fits(1) [of 2 512]
    by (auto simp: n enc_bool_def light_simps)
qed

text \<open>
  (C31) The example contract on the whole stack: whoever executes an event through the runtime, the
  returned result is a success exactly when the event is permitted to the sender (\<open>ResetAll\<close>
  only for the owner, \<open>ModThree\<close> not with 50), and the returned state is the new state then and
  the given state otherwise, provided the calls on the staged arguments stay within the memory limit
  and the fuel budget.
\<close>

theorem example_execute_verdict:
  assumes "codec_laws ext" and "wasm_laws wo cap fits" and "runs_main wt wo fits ext sd contract_logic dm rt modl"
    and "cr_limits rt = build ram cores" and "wl_max_single_alloc (build ram cores) \<le> cap"
    and "dm_memory dm \<le> 4194304" and "dm_table dm \<le> wl_max_table_elements (build ram cores)"
    and "json_to_vec js s = Inr sb" and "json_to_vec js i = Inr ib" and "json_to_vec js e = Inr eb"
    and "\<forall>b \<in> {sb, ib, eb}. 4 + length b \<le> wl_max_single_alloc (build ram cores)"
    and "json_state_de sd sb = Inr st" and "json_event_de sd eb = Inr ev"
    and "json_state_ser sd (if permitted ev own then expected st ev else st) = Inr fb"
    and "json_from_slice js fb = Inr v"
    and "\<And>msg. length msg \<le> 100 \<Longrightarrow>
      \<exists>bytes. borsh_result_ser ext \<lparr>crd_final_state = fb, crd_success = (msg = ''''), crd_error = msg\<rparr> = Inr bytes \<and>
        length bytes \<le> wl_max_single_alloc (build ram cores) \<and>
        12 + length sb + length ib + length eb + length bytes \<le> wl_max_total_memory (build ram cores)"
    and "\<And>m sp ip ep own. generate_execution_context js s i e (build ram cores) = Ok (m, sp, ip, ep) \<Longrightarrow>
      dm_peak dm m [sp, ip, ep, own] \<le> wl_memory_size (build ram cores) \<and> dm_fuel dm m [sp, ip, ep, own] \<le> MAX_FUEL"
  shows "\<exists>res stats rt'. execute wt po ext js t rt modl s i e own = (Ok (res, stats), rt') \<and>
    er_success res = permitted ev own \<and> er_final_state res = v"
proof -
  have "4 + length b < 2 ^ 32" if "4 + length b \<le> wl_max_single_alloc (build ram cores)" for b :: "byte list"
    using that ram_steps_bounds [of ram] by (simp add: build_fields)
  then have lens: "length sb < 2 ^ 32" "length eb < 2 ^ 32" using assms(11) by fastforce+
  let ?r = "contract_logic \<lparr>event = ev, is_owner = own\<rparr> (contract_result_new st)"
  let ?answer = "event_response ext sd (borsh_frame sb) (borsh_frame ib) (borsh_frame eb) (if own then 1 else 0) contract_logic"
  have fin: "state ?r = (if permitted ev own then expected st ev else st)" and suc: "success ?r = permitted ev own"
    using contract_logic_cases [of ev own st] by (simp_all add: Let_def)
  have flag: "((if own then 1 else 0) = OWNER_FLAG) = own" by (simp add: OWNER_FLAG_def)
  have "json_state_ser sd (state ?r) = Inr fb" by (simp only: fin assms(14))
  then have "?answer = result_data ?r fb"
    by (simp only: event_response_def event_outcome_def chosen_state_def flag Let_def sum.case
        parse_payload_frame [OF assms(1) lens(1)] parse_payload_frame [OF assms(1) lens(2)] assms(12,13))
  moreover have "crd_error (result_data ?r fb) = '''' \<longleftrightarrow> permitted ev own"
    using suc by (simp add: result_data_def ERR_EVENT_REJECTED_def)
  moreover have "length (crd_error (result_data ?r fb)) \<le> 100"
    by (cases ev) (simp_all add: result_data_def ERR_EVENT_REJECTED_def contract_logic_simps)
  ultimately have ans: "?answer = \<lparr>crd_final_state = fb, crd_success = (crd_error ?answer = ''''), crd_error = crd_error ?answer\<rparr>"
    and len: "length (crd_error ?answer) \<le> 100" and ok: "crd_success ?answer = permitted ev own"
      "crd_final_state ?answer = fb"
    using suc by (simp_all add: result_data_def)
  obtain bytes where ser: "borsh_result_ser ext ?answer = Inr bytes"
    and room: "length bytes \<le> wl_max_single_alloc (build ram cores)"
      "12 + length sb + length ib + length eb + length bytes \<le> wl_max_total_memory (build ram cores)"
    using assms(16) [OF len] ans by metis
  have fs: "json_from_slice js (crd_final_state ?answer) = Inr v" using ok(2) assms(15) by simp
  from execute_affordable [OF assms(1-11) refl ser room fs assms(17), of po t] show ?thesis using ok by auto
qed

text \<open>
  (C30) Validator and linker agree: every import of a module that passes the import gate is
  registered by \<open>generate_linker\<close> under the same module and name, and the type the module
  expects is the WASM type of the registered host function. A validated module never fails to link
  for a missing or ill-typed import.
\<close>

theorem validated_imports_resolve:
  assumes "check_imports iter ims = Ok ()"
  shows "\<exists>regs. generate_linker (\<lambda>l m n f. Inr (l @ [(m, n, f)])) [] = Ok regs \<and>
    (\<forall>im \<in> set ims. \<exists>f. (im_module im, im_name im, f) \<in> set regs \<and> im_ty im = host_fn_type f)"
proof -
  let ?regs = "[(''env'', ''pointer_len'', Fn_pointer_len), (''env'', ''alloc'', Fn_alloc),
    (''env'', ''read_bytes'', Fn_read_bytes), (''env'', ''write_bytes'', Fn_write_bytes)]"
  have gen: "generate_linker (\<lambda>l m n f. Inr (l @ [(m, n, f)])) [] = Ok ?regs"
    by (simp add: generate_linker_def register_def)
  have "\<exists>f. (im_module im, im_name im, f) \<in> set ?regs \<and> im_ty im = host_fn_type f" if "sdk_import im" for im
  proof -
    from that consider "im_name im = ''pointer_len''" "im_ty im = Func [I32] [I32]"
      | "im_name im = ''alloc''" "im_ty im = Func [I32] [I32]"
      | "im_name im = ''read_bytes''" "im_ty im = Func [I32, I32, I32] []"
      | "im_name im = ''write_bytes''" "im_ty im = Func [I32, I32, I32] []"
      unfolding sdk_import_def by blast
    moreover have "im_module im = ''env''" using that by (simp add: sdk_import_def)
    ultimately show ?thesis by cases (force simp: host_fn_type.simps)+
  qed
  with assms gen show ?thesis by (auto simp: check_imports_exact)
qed

theorem validated_imports_resolve_witness:
  "\<exists>regs. generate_linker (\<lambda>l m n f. Inr (l @ [(m, n, f)])) [] = Ok regs \<and>
     (\<forall>im \<in> set sdk_imports. \<exists>f. (im_module im, im_name im, f) \<in> set regs \<and> im_ty im = host_fn_type f)"
proof -
  have "check_imports (\<lambda>s. filter (\<lambda>f. f \<in> s) SDK_FUNCTIONS) sdk_imports = Ok ()"
    by (subst check_imports_exact) (simp add: sdk_imports_def SDK_FUNCTIONS_def sdk_import_def)
  then show ?thesis by (rule validated_imports_resolve)
qed

theorem example_execute_verdict_witness:
  "\<exists>res stats rt'. execute linked_wasmtime ref_prom ref_ext raw_json 0 ref_runtime \<lparr>cm_module = ()\<rparr>
     (state_payload \<lparr>one = 1, two = 2, three = 3\<rparr>) [] [5] False = (Ok (res, stats), rt') \<and>
     er_success res = permitted ResetAll False \<and>
     er_final_state res = state_payload \<lparr>one = 1, two = 2, three = 3\<rparr>"
proof -
  let ?st = "\<lparr>one = 1, two = 2, three = 3\<rparr>"
  have lim: "cr_limits ref_runtime = build 512 2" by (simp add: ref_runtime_def)
  have n: "wl_max_single_alloc (build 512 2) = 1048576" "wl_max_total_memory (build 512 2) = 3145728"
    by (simp_all add: build_fields ram_steps_def clamp_def)
  have cap: "wl_max_single_alloc (build 512 2) \<le> 1048576" by (simp add: n)
  have table: "dm_memory light \<le> 4194304" "dm_table light \<le> wl_max_table_elements (build 512 2)"
    using light_fits(1) [of 2 512] by simp_all
  have mem: "wl_memory_size (build 512 2) = 4194304" by (simp add: build_fields ram_steps_def clamp_def)
  have js: "json_to_vec raw_json b = Inr b" "json_from_slice raw_json b = Inr b" for b
    by (simp_all add: raw_json_def)
  have fits: "\<forall>b \<in> {state_payload ?st, [], [5]}. 4 + length b \<le> wl_max_single_alloc (build 512 2)"
    by (simp add: n)
  have sd: "json_state_de ref_serde (state_payload ?st) = Inr ?st" "json_event_de ref_serde [5] = Inr ResetAll"
    by simp_all
  have fin: "json_state_ser ref_serde (if permitted ResetAll False then expected ?st ResetAll else ?st) =
      Inr (state_payload ?st)"
    by (simp add: permitted_def)
  have ser: "\<exists>bytes. borsh_result_ser ref_ext
        \<lparr>crd_final_state = state_payload ?st, crd_success = (msg = ''''), crd_error = msg\<rparr> = Inr bytes \<and>
      length bytes \<le> wl_max_single_alloc (build 512 2) \<and>
      12 + length (state_payload ?st) + length ([] :: byte list) + length [5 :: byte] + length bytes
        \<le> wl_max_total_memory (build 512 2)"
    if "length msg \<le> 100" for msg
    using that by (simp add: ref_ext_def ref_result_ser_def n enc_bool_def)
  show ?thesis
    by (rule example_execute_verdict [OF codec_laws_ref_ext wasm_laws_list linked_runs_main lim cap table
          js(1) js(1) js(1) fits sd fin js(2) ser]) (simp_all add: light_simps mem MAX_FUEL_def)
qed

theorem validate_sound_witness:
  "\<exists>cx p. generate_context raw_json (state_payload \<lparr>one = 1, two = 2, three = 3\<rparr>) (cr_limits ref_runtime) = Ok (cx, p)"
  using validate_sound [OF linked_validates] by blast

end
